(* ===== verification/Prelude.thy ===== *)
theory Prelude
  imports Main "HOL-Library.Sublist"
begin

text \<open>
  Shared vocabulary of the development.

  Python text is modelled as \<^typ>\<open>string\<close>, one \<^typ>\<open>char\<close> per code point, for texts
  whose code points are below 256; the character classes below are Python's classes
  restricted to that range. An offset is a \<^typ>\<open>nat\<close>, and a slice \<open>t[a:b]\<close> with
  non-negative bounds is \<open>py_slice t a b\<close>. The theory holds the string methods the source
  calls (\<open>strip\<close>, \<open>lstrip\<close>, \<open>rstrip\<close>, \<open>lower\<close>, \<open>startswith\<close>, \<open>endswith\<close>, \<open>splitlines\<close>,
  \<open>split\<close>, \<open>join\<close>, \<open>in\<close>) and the generic lemmas on lists, options and maps that the
  component theories share.
\<close>

named_theorems text_simps "rewrite rules for the string methods"
named_theorems offset_bounds "offset bounds of scanners"

type_synonym str = string
type_synonym span = "nat \<times> nat"

section \<open>Character classes\<close>

abbreviation py_ord :: "char \<Rightarrow> nat" where
  "py_ord c \<equiv> of_char c"

definition in_range :: "char \<Rightarrow> char \<Rightarrow> char \<Rightarrow> bool" where
  "in_range a b c \<longleftrightarrow> py_ord a \<le> py_ord c \<and> py_ord c \<le> py_ord b"

definition is_lower :: "char \<Rightarrow> bool" where
  "is_lower c \<longleftrightarrow> in_range (CHR ''a'') (CHR ''z'') c"

definition is_upper :: "char \<Rightarrow> bool" where
  "is_upper c \<longleftrightarrow> in_range (CHR ''A'') (CHR ''Z'') c"

definition is_digit :: "char \<Rightarrow> bool" where
  "is_digit c \<longleftrightarrow> in_range (CHR ''0'') (CHR ''9'') c"

definition is_alpha :: "char \<Rightarrow> bool" where
  "is_alpha c \<longleftrightarrow> is_lower c \<or> is_upper c"

abbreviation quote_char :: char where
  "quote_char \<equiv> CHR 0x27"

abbreviation newline :: char where
  "newline \<equiv> CHR 0x0A"

text \<open>\<open>str.isspace\<close> and the regular-expression class \<open>\s\<close>.\<close>

definition py_isspace :: "char \<Rightarrow> bool" where
  "py_isspace c \<longleftrightarrow>
     (9 \<le> py_ord c \<and> py_ord c \<le> 13) \<or> (28 \<le> py_ord c \<and> py_ord c \<le> 32)
     \<or> py_ord c = 133 \<or> py_ord c = 160"

text \<open>The regular-expression class \<open>\w\<close>.\<close>

definition py_word :: "char \<Rightarrow> bool" where
  "py_word c \<longleftrightarrow>
     is_alpha c \<or> is_digit c \<or> c = CHR ''_''
     \<or> List.member [170, 178, 179, 181, 185, 186, 188, 189, 190] (py_ord c)
     \<or> (192 \<le> py_ord c \<and> py_ord c \<noteq> 215 \<and> py_ord c \<noteq> 247)"

text \<open>\<open>str.lower\<close> on one character.\<close>

definition py_lower_char :: "char \<Rightarrow> char" where
  "py_lower_char c =
     (if is_upper c \<or> (192 \<le> py_ord c \<and> py_ord c \<le> 222 \<and> py_ord c \<noteq> 215)
      then char_of (py_ord c + 32) else c)"

definition py_lower :: "str \<Rightarrow> str" where
  "py_lower t = map py_lower_char t"

lemma length_py_lower [simp]: "length (py_lower t) = length t"
  by (simp add: py_lower_def)

lemma py_lower_append [text_simps]: "py_lower (a @ b) = py_lower a @ py_lower b"
  by (simp add: py_lower_def)

section \<open>Slices and prefixes\<close>

definition py_slice :: "'a list \<Rightarrow> nat \<Rightarrow> nat \<Rightarrow> 'a list" where
  "py_slice t a b = take (b - a) (drop a t)"

text \<open>\<open>t.startswith(p, i)\<close>.\<close>

fun starts_with :: "str \<Rightarrow> str \<Rightarrow> bool" where
  "starts_with [] t = True"
| "starts_with (p # ps) [] = False"
| "starts_with (p # ps) (c # cs) = (p = c \<and> starts_with ps cs)"

definition starts_at :: "str \<Rightarrow> str \<Rightarrow> nat \<Rightarrow> bool" where
  "starts_at p t i = starts_with p (drop i t)"

definition ends_with :: "str \<Rightarrow> str \<Rightarrow> bool" where
  "ends_with p t = starts_with (rev p) (rev t)"

lemma starts_with_prefix: "starts_with p t \<longleftrightarrow> prefix p t"
  by (induction p t rule: starts_with.induct) auto

lemma starts_with_iff: "starts_with p t \<longleftrightarrow> (\<exists>u. t = p @ u)"
  by (simp add: starts_with_prefix prefix_def)

lemma starts_with_length: "starts_with p t \<Longrightarrow> length p \<le> length t"
  by (auto simp: starts_with_iff)

lemma starts_at_length [offset_bounds]:
  "starts_at p t i \<Longrightarrow> p \<noteq> [] \<Longrightarrow> i + length p \<le> length t"
  by (cases "i \<le> length t") (auto simp: starts_at_def dest!: starts_with_length)

lemma starts_at_nth:
  "starts_at p t i \<Longrightarrow> k < length p \<Longrightarrow> t ! (i + k) = p ! k"
proof -
  assume s: "starts_at p t i" and k: "k < length p"
  then obtain u where u: "drop i t = p @ u" by (auto simp: starts_at_def starts_with_iff)
  have "i < length t" using u k by (cases "i < length t") auto
  then have "t ! (i + k) = drop i t ! k" by simp
  with u k show ?thesis by (simp add: nth_append)
qed

lemma ends_with_iff: "ends_with p t \<longleftrightarrow> (\<exists>u. t = u @ p)"
proof -
  have "(\<exists>u. rev t = rev p @ u) \<longleftrightarrow> (\<exists>u. t = u @ p)"
    by (metis rev_append rev_rev_ident)
  then show ?thesis by (simp add: ends_with_def starts_with_iff)
qed

lemma length_py_slice [simp]: "length (py_slice t a b) = min (b - a) (length t - a)"
  by (simp add: py_slice_def)

lemma nth_py_slice: "k < b - a \<Longrightarrow> a + k < length t \<Longrightarrow> py_slice t a b ! k = t ! (a + k)"
  by (simp add: py_slice_def)

lemma py_slice_split:
  assumes "a \<le> b" and "b \<le> c"
  shows "py_slice t a b @ py_slice t b c = py_slice t a c"
proof -
  from assms obtain m n where "b = a + m" "c = a + m + n" by (metis le_iff_add)
  then show ?thesis by (simp add: py_slice_def take_add add.commute)
qed

lemma drop_eq_nth_cons: "i < length t \<Longrightarrow> drop i t = t ! i # drop (Suc i) t"
  by (rule Cons_nth_drop_Suc [symmetric])

lemma py_slice_Cons: "a < b \<Longrightarrow> a < length t \<Longrightarrow> py_slice t a b = t ! a # py_slice t (Suc a) b"
  by (cases b) (auto simp: py_slice_def drop_eq_nth_cons Suc_diff_le)

lemma py_slice_to_end: "length t \<le> b \<Longrightarrow> py_slice t a b = drop a t"
  by (simp add: py_slice_def)

lemma py_slice_from_0 [simp]: "py_slice t 0 b = take b t"
  by (simp add: py_slice_def)

lemma py_slice_self [simp]: "py_slice t a a = []"
  by (simp add: py_slice_def)

text \<open>\<open>p in t\<close>.\<close>

fun contains :: "str \<Rightarrow> str \<Rightarrow> bool" where
  "contains p [] = (p = [])"
| "contains p (c # cs) = (starts_with p (c # cs) \<or> contains p cs)"

lemma contains_iff: "contains p t \<longleftrightarrow> (\<exists>u v. t = u @ p @ v)"
proof (induction t)
  case Nil
  then show ?case by simp
next
  case (Cons c t)
  have "(\<exists>u v. c # t = u @ p @ v) \<longleftrightarrow>
        (\<exists>v. c # t = p @ v) \<or> (\<exists>u v. t = u @ p @ v)"
    by (metis append_Cons append_Nil list.exhaust list.inject)
  with Cons show ?case by (simp add: starts_with_iff)
qed

section \<open>Stripping\<close>

definition lstrip_by :: "(char \<Rightarrow> bool) \<Rightarrow> str \<Rightarrow> str" where
  "lstrip_by p t = dropWhile p t"

definition rstrip_by :: "(char \<Rightarrow> bool) \<Rightarrow> str \<Rightarrow> str" where
  "rstrip_by p t = rev (dropWhile p (rev t))"

definition py_lstrip :: "str \<Rightarrow> str" where
  "py_lstrip t = lstrip_by py_isspace t"

definition py_rstrip :: "str \<Rightarrow> str" where
  "py_rstrip t = rstrip_by py_isspace t"

definition py_strip :: "str \<Rightarrow> str" where
  "py_strip t = py_rstrip (py_lstrip t)"

lemma rstrip_by_split:
  "\<exists>w. t = rstrip_by p t @ w \<and> list_all p w"
proof (intro exI conjI)
  have "rev t = takeWhile p (rev t) @ dropWhile p (rev t)" by simp
  then have "rev (rev t) = rev (dropWhile p (rev t)) @ rev (takeWhile p (rev t))"
    by (metis rev_append)
  then show "t = rstrip_by p t @ rev (takeWhile p (rev t))"
    by (simp add: rstrip_by_def)
  show "list_all p (rev (takeWhile p (rev t)))"
    by (auto simp: list_all_iff dest: set_takeWhileD)
qed

lemma lstrip_by_split: "\<exists>w. t = w @ lstrip_by p t \<and> list_all p w"
proof (intro exI conjI)
  show "t = takeWhile p t @ lstrip_by p t" by (simp add: lstrip_by_def)
  show "list_all p (takeWhile p t)" by (auto simp: list_all_iff dest: set_takeWhileD)
qed

lemma rstrip_by_last: "rstrip_by p t \<noteq> [] \<Longrightarrow> \<not> p (last (rstrip_by p t))"
  by (simp add: rstrip_by_def last_rev hd_dropWhile)

lemma rstrip_by_id: "t = [] \<or> \<not> p (last t) \<Longrightarrow> rstrip_by p t = t"
  by (cases t rule: rev_cases) (auto simp: rstrip_by_def)

lemma rstrip_by_idem [simp]: "rstrip_by p (rstrip_by p t) = rstrip_by p t"
  using rstrip_by_last rstrip_by_id by metis

lemma lstrip_by_idem [simp]: "lstrip_by p (lstrip_by p t) = lstrip_by p t"
  by (simp add: lstrip_by_def)

lemma hd_rstrip_by: "rstrip_by p t \<noteq> [] \<Longrightarrow> hd (rstrip_by p t) = hd t"
  using rstrip_by_split [of t p] by (metis hd_append2)

lemma py_strip_split:
  obtains a b where "t = a @ py_strip t @ b" "list_all py_isspace a" "list_all py_isspace b"
proof -
  obtain a where a: "t = a @ py_lstrip t" "list_all py_isspace a"
    using lstrip_by_split [of t py_isspace] by (auto simp: py_lstrip_def)
  obtain b where b: "py_lstrip t = py_strip t @ b" "list_all py_isspace b"
    using rstrip_by_split [of "py_lstrip t" py_isspace]
    by (auto simp: py_rstrip_def py_strip_def)
  from a b that show thesis by metis
qed

lemma py_strip_Nil_iff: "py_strip t = [] \<longleftrightarrow> list_all py_isspace t"
proof
  assume "py_strip t = []"
  then show "list_all py_isspace t" using py_strip_split [of t] by (metis append_Nil list_all_append)
next
  assume "list_all py_isspace t"
  then have "py_lstrip t = []" by (simp add: py_lstrip_def lstrip_by_def list_all_iff)
  then show "py_strip t = []" by (simp add: py_strip_def py_rstrip_def rstrip_by_def)
qed

lemma py_strip_ends:
  "py_strip t \<noteq> [] \<Longrightarrow> \<not> py_isspace (hd (py_strip t)) \<and> \<not> py_isspace (last (py_strip t))"
proof
  assume ne: "py_strip t \<noteq> []"
  then have l: "py_lstrip t \<noteq> []"
    by (auto simp: py_strip_def py_rstrip_def rstrip_by_def)
  have "hd (py_strip t) = hd (py_lstrip t)"
    using ne hd_rstrip_by by (metis py_strip_def py_rstrip_def)
  then show "\<not> py_isspace (hd (py_strip t))"
    using l by (metis py_lstrip_def lstrip_by_def hd_dropWhile)
  show "\<not> py_isspace (last (py_strip t))"
    using ne rstrip_by_last by (metis py_strip_def py_rstrip_def)
qed

lemma py_strip_id:
  "t = [] \<or> (\<not> py_isspace (hd t) \<and> \<not> py_isspace (last t)) \<Longrightarrow> py_strip t = t"
  by (cases t) (auto simp: py_strip_def py_lstrip_def py_rstrip_def lstrip_by_def intro: rstrip_by_id)

lemma py_strip_idem [simp]: "py_strip (py_strip t) = py_strip t"
  using py_strip_id py_strip_ends by metis

section \<open>Lines, fields and joining\<close>

text \<open>
  \<open>str.splitlines()\<close>: the line boundaries below 256, with \<open>\r\n\<close> as one boundary and no
  last empty line.
\<close>

definition line_break :: "char \<Rightarrow> bool" where
  "line_break c \<longleftrightarrow> List.member [10, 11, 12, 13, 28, 29, 30, 133] (py_ord c)"

fun splitlines_from :: "str \<Rightarrow> str \<Rightarrow> str list" where
  "splitlines_from cur [] = (if cur = [] then [] else [cur])"
| "splitlines_from cur [c] = (if line_break c then [cur] else [cur @ [c]])"
| "splitlines_from cur (c # d # cs) =
     (if py_ord c = 13 \<and> py_ord d = 10 then cur # splitlines_from [] cs
      else if line_break c then cur # splitlines_from [] (d # cs)
      else splitlines_from (cur @ [c]) (d # cs))"

definition py_splitlines :: "str \<Rightarrow> str list" where
  "py_splitlines t = splitlines_from [] t"

text \<open>\<open>sep.join(parts)\<close>.\<close>

fun py_join :: "str \<Rightarrow> str list \<Rightarrow> str" where
  "py_join sep [] = []"
| "py_join sep [p] = p"
| "py_join sep (p # ps) = p @ sep @ py_join sep ps"

text \<open>\<open>t.split()\<close>: the maximal runs of characters that are not blank.\<close>

fun split_ws_from :: "str \<Rightarrow> str \<Rightarrow> str list" where
  "split_ws_from cur [] = (if cur = [] then [] else [cur])"
| "split_ws_from cur (c # cs) =
     (if py_isspace c then (if cur = [] then [] else [cur]) @ split_ws_from [] cs
      else split_ws_from (cur @ [c]) cs)"

definition py_split :: "str \<Rightarrow> str list" where
  "py_split t = split_ws_from [] t"

section \<open>Generic list lemmas\<close>

lemma concat_map_singleton_cond:
  "concat (map (\<lambda>x. if P x then [f x] else []) xs) = map f (filter P xs)"
  by (induction xs) auto

lemma hd_filter_find: "find P xs = (case filter P xs of [] \<Rightarrow> None | x # _ \<Rightarrow> Some x)"
  by (induction xs) auto

end
