(* ===== verification/Py_Regex.thy ===== *)
theory Py_Regex
  imports Prelude
begin

text \<open>
  The part of Python's \<^verbatim>\<open>re\<close> module that the source uses, as a datatype of patterns and
  a backtracking matcher. \<open>ends t r (i, g)\<close> lists every way the pattern \<open>r\<close> can match in
  \<open>t\<close> from offset \<open>i\<close> with the capture groups \<open>g\<close> set so far, in the order in which the
  backtracking engine tries them, so its first element is the match Python reports. A
  repetition skips iterations that consume nothing. \<open>re_match\<close>, \<open>re_fullmatch\<close>,
  \<open>re_search\<close> and \<open>re_finditer\<close> are the module's functions of those names; patterns used
  with \<open>re_finditer\<close> consume at least one character at every match.
\<close>

datatype re =
    Eps
  | Cls "char \<Rightarrow> bool"
  | Seq re re
  | Alt re re
  | Star re
  | Grp nat re
  | NotBehind "char \<Rightarrow> bool"
  | Ahead re
  | NotAhead re
  | WordB
  | Dollar

type_synonym groups = "(nat \<times> span) list"
type_synonym mstate = "nat \<times> groups"

definition word_at :: "str \<Rightarrow> nat \<Rightarrow> bool" where
  "word_at t i \<longleftrightarrow> i < length t \<and> py_word (t ! i)"

function ends :: "str \<Rightarrow> re \<Rightarrow> mstate \<Rightarrow> mstate list" where
  "ends t Eps (i, g) = [(i, g)]"
| "ends t (Cls p) (i, g) = (if i < length t \<and> p (t ! i) then [(Suc i, g)] else [])"
| "ends t (Seq a b) (i, g) = concat (map (ends t b) (ends t a (i, g)))"
| "ends t (Alt a b) (i, g) = ends t a (i, g) @ ends t b (i, g)"
| "ends t (Star a) (i, g) =
     concat (map (\<lambda>s. if i < fst s \<and> fst s \<le> length t then ends t (Star a) s else [])
                 (ends t a (i, g))) @ [(i, g)]"
| "ends t (Grp n a) (i, g) = map (\<lambda>(j, h). (j, (n, i, j) # h)) (ends t a (i, g))"
| "ends t (NotBehind p) (i, g) =
     (if 0 < i \<and> i \<le> length t \<and> p (t ! (i - 1)) then [] else [(i, g)])"
| "ends t (Ahead a) (i, g) = (case ends t a (i, g) of [] \<Rightarrow> [] | (j, h) # _ \<Rightarrow> [(i, h)])"
| "ends t (NotAhead a) (i, g) = (if ends t a (i, g) = [] then [(i, g)] else [])"
| "ends t WordB (i, g) =
     (if (0 < i \<and> word_at t (i - 1)) \<noteq> word_at t i then [(i, g)] else [])"
| "ends t Dollar (i, g) =
     (if i = length t \<or> (Suc i = length t \<and> t ! i = newline) then [(i, g)] else [])"
  by pat_completeness auto
termination
  by (relation "measures [\<lambda>(t, r, s). size r, \<lambda>(t, r, s). length t - fst s]") auto

declare ends.simps(5) [simp del]

lemmas ends_Star = ends.simps(5)

definition Opt :: "re \<Rightarrow> re" where
  "Opt r = Alt r Eps"

definition Plus :: "re \<Rightarrow> re" where
  "Plus r = Seq r (Star r)"

fun Lit :: "str \<Rightarrow> re" where
  "Lit [] = Eps"
| "Lit [c] = Cls (\<lambda>x. x = c)"
| "Lit (c # cs) = Seq (Cls (\<lambda>x. x = c)) (Lit cs)"

fun Alts :: "re list \<Rightarrow> re" where
  "Alts [] = NotAhead Eps"
| "Alts [r] = r"
| "Alts (r # rs) = Alt r (Alts rs)"

fun Seqs :: "re list \<Rightarrow> re" where
  "Seqs [] = Eps"
| "Seqs [r] = r"
| "Seqs (r # rs) = Seq r (Seqs rs)"

text \<open>\<open>[chars]\<close>.\<close>

definition OneOf :: "str \<Rightarrow> re" where
  "OneOf cs = Cls (\<lambda>x. List.member cs x)"

definition Spaces :: re where
  "Spaces = Star (Cls py_isspace)"

section \<open>The module's functions\<close>

definition re_match :: "re \<Rightarrow> str \<Rightarrow> nat \<Rightarrow> mstate option" where
  "re_match r t i = (case ends t r (i, []) of [] \<Rightarrow> None | m # _ \<Rightarrow> Some m)"

definition re_match_end :: "re \<Rightarrow> str \<Rightarrow> nat \<Rightarrow> nat option" where
  "re_match_end r t i = map_option fst (re_match r t i)"

definition re_fullmatch :: "re \<Rightarrow> str \<Rightarrow> bool" where
  "re_fullmatch r t = (find (\<lambda>m. fst m = length t) (ends t r (0, [])) \<noteq> None)"

text \<open>A match as \<open>(start, end, groups)\<close>.\<close>

type_synonym py_match = "nat \<times> nat \<times> groups"

function re_search :: "re \<Rightarrow> str \<Rightarrow> nat \<Rightarrow> py_match option" where
  "re_search r t i =
     (case re_match r t i of
        Some (j, g) \<Rightarrow> Some (i, j, g)
      | None \<Rightarrow> if i < length t then re_search r t (Suc i) else None)"
  by pat_completeness auto
termination by (relation "measure (\<lambda>(r, t, i). length t - i)") auto

declare re_search.simps [simp del]

function re_finditer_from :: "re \<Rightarrow> str \<Rightarrow> nat \<Rightarrow> py_match list" where
  "re_finditer_from r t i =
     (if length t < i then []
      else case re_match r t i of
        Some (j, g) \<Rightarrow> (i, j, g) # re_finditer_from r t (max j (Suc i))
      | None \<Rightarrow> re_finditer_from r t (Suc i))"
  by pat_completeness auto
termination
  by (relation "measure (\<lambda>(r, t, i). Suc (length t) - i)") auto

declare re_finditer_from.simps [simp del]

definition re_finditer :: "re \<Rightarrow> str \<Rightarrow> py_match list" where
  "re_finditer r t = re_finditer_from r t 0"

definition match_text :: "str \<Rightarrow> py_match \<Rightarrow> str" where
  "match_text t m = py_slice t (fst m) (fst (snd m))"

text \<open>\<open>m.group(n)\<close>: the last span recorded for the group, \<^term>\<open>None\<close> if it took no part.\<close>

definition match_group :: "str \<Rightarrow> nat \<Rightarrow> py_match \<Rightarrow> str option" where
  "match_group t n m =
     (case map_of (snd (snd m)) n of None \<Rightarrow> None | Some (a, b) \<Rightarrow> Some (py_slice t a b))"

text \<open>\<open>r.sub(new, t)\<close> with a replacement text that has no group references.\<close>

fun sub_spans :: "str \<Rightarrow> str \<Rightarrow> nat \<Rightarrow> py_match list \<Rightarrow> str" where
  "sub_spans new t i [] = drop i t"
| "sub_spans new t i ((a, b, g) # ms) = py_slice t i a @ new @ sub_spans new t b ms"

definition re_sub :: "re \<Rightarrow> str \<Rightarrow> str \<Rightarrow> str" where
  "re_sub r new t = sub_spans new t 0 (re_finditer r t)"

section \<open>Bounds\<close>

lemma ends_mono: "s \<in> set (ends t r m) \<Longrightarrow> fst m \<le> fst s"
proof (induction t r m arbitrary: s rule: ends.induct)
  case (3 t a b i g)
  then obtain x where x: "x \<in> set (ends t a (i, g))" "s \<in> set (ends t b x)" by auto
  from "3.IH"(1) [OF x(1)] "3.IH"(2) [OF x] show ?case by simp
next
  case (5 t a i g)
  consider "s = (i, g)"
    | x where "x \<in> set (ends t a (i, g))" "i < fst x \<and> fst x \<le> length t"
        "s \<in> set (ends t (Star a) x)"
    using "5.prems" by (auto simp: ends_Star split: if_splits)
  then show ?case using "5.IH"(2) by cases fastforce+
next
  case (8 t a i g)
  then show ?case by (auto split: list.splits)
qed (auto split: if_splits)

lemma ends_le: "s \<in> set (ends t r m) \<Longrightarrow> fst m \<le> length t \<Longrightarrow> fst s \<le> length t"
proof (induction t r m arbitrary: s rule: ends.induct)
  case (3 t a b i g)
  then obtain x where x: "x \<in> set (ends t a (i, g))" "s \<in> set (ends t b x)" by auto
  from "3.IH"(2) [OF x "3.IH"(1) [OF x(1) "3.prems"(2)]] show ?case .
next
  case (5 t a i g)
  consider "s = (i, g)"
    | x where "x \<in> set (ends t a (i, g))" "i < fst x \<and> fst x \<le> length t"
        "s \<in> set (ends t (Star a) x)"
    using "5.prems" by (auto simp: ends_Star split: if_splits)
  then show ?case using "5.IH"(2) "5.prems"(2) by cases auto
next
  case (8 t a i g)
  then show ?case by (auto split: list.splits)
qed (auto split: if_splits)

lemma re_match_bounds [offset_bounds]:
  "re_match r t i = Some (j, g) \<Longrightarrow> i \<le> j \<and> (i \<le> length t \<longrightarrow> j \<le> length t)"
  unfolding re_match_def
  using ends_mono [of "(j, g)" t r "(i, [])"] ends_le [of "(j, g)" t r "(i, [])"]
  by (auto split: list.splits)

lemma re_match_end_bounds [offset_bounds]:
  "re_match_end r t i = Some j \<Longrightarrow> i \<le> j \<and> (i \<le> length t \<longrightarrow> j \<le> length t)"
  by (auto simp: re_match_end_def dest: re_match_bounds)

lemma re_search_bounds [offset_bounds]:
  "re_search r t i = Some (a, b, g) \<Longrightarrow> i \<le> length t \<Longrightarrow> i \<le> a \<and> a \<le> b \<and> b \<le> length t"
proof (induction r t i rule: re_search.induct)
  case (1 r t i)
  show ?case
  proof (cases "re_match r t i")
    case None
    with 1 show ?thesis by (auto simp: re_search.simps [of r t i] split: if_splits)
  next
    case (Some m)
    with 1 show ?thesis
      by (cases m) (auto simp: re_search.simps [of r t i] dest: re_match_bounds)
  qed
qed

lemma re_search_first:
  "re_search r t i = Some (a, b, g) \<Longrightarrow> i \<le> k \<Longrightarrow> k < a \<Longrightarrow> re_match r t k = None"
proof (induction r t i rule: re_search.induct)
  case (1 r t i)
  show ?case
  proof (cases "re_match r t i")
    case None
    with 1 show ?thesis
      by (cases "k = i") (auto simp: re_search.simps [of r t i] split: if_splits)
  next
    case (Some m)
    with 1 show ?thesis by (cases m) (auto simp: re_search.simps [of r t i])
  qed
qed

lemma re_search_match: "re_search r t i = Some (a, b, g) \<Longrightarrow> re_match r t a = Some (b, g)"
proof (induction r t i rule: re_search.induct)
  case (1 r t i)
  then show ?case
    by (cases "re_match r t i") (auto simp: re_search.simps [of r t i] split: if_splits)
qed

lemma re_search_None:
  "re_search r t i = None \<Longrightarrow> i \<le> k \<Longrightarrow> k \<le> length t \<Longrightarrow> re_match r t k = None"
proof (induction r t i rule: re_search.induct)
  case (1 r t i)
  then show ?case
    by (cases "re_match r t i"; cases "k = i")
       (auto simp: re_search.simps [of r t i] split: if_splits)
qed

text \<open>Every reported match is a match, and a match that starts at a scanned offset is found.\<close>

lemma re_finditer_from_match:
  "(a, b, g) \<in> set (re_finditer_from r t i) \<Longrightarrow>
     i \<le> a \<and> a \<le> length t \<and> re_match r t a = Some (b, g)"
proof (induction r t i rule: re_finditer_from.induct)
  case (1 r t i)
  show ?case
  proof (cases "length t < i")
    case True
    with 1 show ?thesis by (simp add: re_finditer_from.simps)
  next
    case False
    show ?thesis
    proof (cases "re_match r t i")
      case None
      with 1 False show ?thesis by (simp add: re_finditer_from.simps [of r t i] Suc_le_eq)
    next
      case (Some m)
      obtain j h where m: "m = (j, h)" by force
      consider "(a, b, g) = (i, j, h)"
        | "(a, b, g) \<in> set (re_finditer_from r t (max j (Suc i)))"
        using 1(3) False Some m by (auto simp: re_finditer_from.simps [of r t i])
      then show ?thesis
      proof cases
        case 1
        with Some m False show ?thesis by simp
      next
        case 2
        from "1.IH"(2) [OF False Some m [symmetric] 2] show ?thesis by simp
      qed
    qed
  qed
qed

lemma re_finditer_match:
  "(a, b, g) \<in> set (re_finditer r t) \<Longrightarrow>
     a \<le> b \<and> b \<le> length t \<and> re_match r t a = Some (b, g)"
  unfolding re_finditer_def
  by (drule re_finditer_from_match) (auto dest: re_match_bounds)

section \<open>Greedy runs of one class\<close>

definition run_length :: "(char \<Rightarrow> bool) \<Rightarrow> str \<Rightarrow> nat \<Rightarrow> nat" where
  "run_length p t i = length (takeWhile p (drop i t))"

lemma run_length_step:
  "i < length t \<Longrightarrow> p (t ! i) \<Longrightarrow> run_length p t i = Suc (run_length p t (Suc i))"
  by (simp add: run_length_def drop_eq_nth_cons)

lemma run_length_stop: "\<not> (i < length t \<and> p (t ! i)) \<Longrightarrow> run_length p t i = 0"
  by (cases "i < length t") (auto simp: run_length_def drop_eq_nth_cons)

lemma run_length_le: "run_length p t i \<le> length t - i"
  using length_takeWhile_le [of p "drop i t"] by (simp add: run_length_def)

lemma run_length_nth: "k < run_length p t i \<Longrightarrow> i + k < length t \<and> p (t ! (i + k))"
proof -
  assume k: "k < run_length p t i"
  then have b: "i + k < length t" using run_length_le [of p t i] by linarith
  have "p (takeWhile p (drop i t) ! k)"
    using k nth_mem set_takeWhileD unfolding run_length_def by fastforce
  moreover have "takeWhile p (drop i t) ! k = t ! (i + k)"
    using k b by (simp add: run_length_def takeWhile_nth)
  ultimately show ?thesis using b by simp
qed

lemma run_length_end:
  "i + run_length p t i < length t \<Longrightarrow> \<not> p (t ! (i + run_length p t i))"
  using nth_length_takeWhile [of p "drop i t"] by (auto simp: run_length_def)

lemma ends_Star_Cls:
  "ends t (Star (Cls p)) (i, g) = map (\<lambda>k. (i + k, g)) (rev [0..<Suc (run_length p t i)])"
proof (induction "length t - i" arbitrary: i)
  case 0
  then have "\<not> i < length t" by simp
  then show ?case by (simp add: ends_Star run_length_stop)
next
  case (Suc n)
  show ?case
  proof (cases "i < length t \<and> p (t ! i)")
    case True
    define n' where "n' = run_length p t (Suc i)"
    have IH: "ends t (Star (Cls p)) (Suc i, g) = map (\<lambda>k. (Suc i + k, g)) (rev [0..<Suc n'])"
      using Suc True by (simp add: n'_def)
    have "ends t (Star (Cls p)) (i, g) = ends t (Star (Cls p)) (Suc i, g) @ [(i, g)]"
      using True by (subst ends_Star) simp
    also have "\<dots> = map (\<lambda>k. (i + k, g)) (map Suc (rev [0..<Suc n']) @ [0])"
      by (simp only: IH map_append map_map o_def) simp
    also have "map Suc (rev [0..<Suc n']) @ [0] = rev [0..<Suc (Suc n')]"
      by (metis map_Suc_upt rev_map rev.simps(2) upt_conv_Cons zero_less_Suc)
    finally show ?thesis using True by (simp only: run_length_step n'_def)
  next
    case False
    then have "ends t (Cls p) (i, g) = []" by auto
    then have "ends t (Star (Cls p)) (i, g) = [(i, g)]" by (subst ends_Star) simp
    with False show ?thesis by (simp add: run_length_stop)
  qed
qed

lemma re_match_Star_Cls: "re_match (Star (Cls p)) t i = Some (i + run_length p t i, [])"
  by (simp add: re_match_def ends_Star_Cls)

lemma re_match_Cls_Star:
  "re_match (Seq (Cls p) (Star (Cls q))) t i =
     (if i < length t \<and> p (t ! i) then Some (Suc i + run_length q t (Suc i), []) else None)"
  by (simp add: re_match_def ends_Star_Cls)

end
