(* ===== verification/Py_Dict.thy ===== *)
theory Py_Dict
  imports Prelude
begin

text \<open>
  Python's \<open>dict\<close> as an association list in insertion order: assignment to a known key
  keeps its place, a new key goes last, deletion removes the key. The locale
  \<open>dict_interface\<close> states the laws the components rely on and proves what they need of
  them once; the association-list operations interpret it.
\<close>

locale dict_interface =
  fixes empty :: "'d"
    and get :: "'d \<Rightarrow> 'k \<Rightarrow> 'v option"
    and put :: "'k \<Rightarrow> 'v \<Rightarrow> 'd \<Rightarrow> 'd"
    and del :: "'k \<Rightarrow> 'd \<Rightarrow> 'd"
    and keys :: "'d \<Rightarrow> 'k list"
    and wf :: "'d \<Rightarrow> bool"
  assumes get_empty: "get empty k = None"
    and get_put: "get (put k v d) = (get d)(k := Some v)"
    and get_del: "wf d \<Longrightarrow> get (del k d) = (get d)(k := None)"
    and keys_get: "k \<in> set (keys d) \<longleftrightarrow> get d k \<noteq> None"
    and keys_put: "keys (put k v d) = (if k \<in> set (keys d) then keys d else keys d @ [k])"
    and distinct_keys: "wf d \<Longrightarrow> distinct (keys d)"
    and wf_empty: "wf empty"
    and wf_put: "wf d \<Longrightarrow> wf (put k v d)"
    and wf_del: "wf d \<Longrightarrow> wf (del k d)"
begin

lemma keys_empty: "keys empty = []"
  using keys_get [of _ empty] get_empty by (metis list.set_intros(1) neq_Nil_conv)

lemma set_keys_put: "set (keys (put k v d)) = insert k (set (keys d))"
  by (auto simp: keys_put)

lemma set_keys_del: "wf d \<Longrightarrow> set (keys (del k d)) = set (keys d) - {k}"
  by (auto simp: keys_get get_del split: if_splits)

lemma get_put_same: "get (put k v d) k = Some v"
  by (simp add: get_put)

lemma get_put_other: "k' \<noteq> k \<Longrightarrow> get (put k v d) k' = get d k'"
  by (simp add: get_put)

lemma get_del_same: "wf d \<Longrightarrow> get (del k d) k = None"
  by (simp add: get_del)

text \<open>Assigning a sequence of items, last one wins.\<close>

lemma get_put_all:
  "get (foldl (\<lambda>d (k, v). put k v d) d kvs) k =
     (case map_of (rev kvs) k of None \<Rightarrow> get d k | Some v \<Rightarrow> Some v)"
  by (induction kvs arbitrary: d) (auto simp: get_put map_add_def split: option.splits)

lemma wf_put_all: "wf d \<Longrightarrow> wf (foldl (\<lambda>d (k, v). put k v d) d kvs)"
  by (induction kvs arbitrary: d) (auto simp: wf_put)

end

type_synonym ('k, 'v) dict = "('k \<times> 'v) list"

definition dict_get :: "('k, 'v) dict \<Rightarrow> 'k \<Rightarrow> 'v option" where
  "dict_get d k = map_of d k"

fun dict_set :: "'k \<Rightarrow> 'v \<Rightarrow> ('k, 'v) dict \<Rightarrow> ('k, 'v) dict" where
  "dict_set k v [] = [(k, v)]"
| "dict_set k v ((k', v') # d) = (if k = k' then (k, v) # d else (k', v') # dict_set k v d)"

definition dict_del :: "'k \<Rightarrow> ('k, 'v) dict \<Rightarrow> ('k, 'v) dict" where
  "dict_del k d = filter (\<lambda>p. fst p \<noteq> k) d"

definition dict_keys :: "('k, 'v) dict \<Rightarrow> 'k list" where
  "dict_keys d = map fst d"

definition dict_wf :: "('k, 'v) dict \<Rightarrow> bool" where
  "dict_wf d \<longleftrightarrow> distinct (map fst d)"

lemma dict_get_set: "dict_get (dict_set k v d) = (dict_get d)(k := Some v)"
  by (induction k v d rule: dict_set.induct) (auto simp: dict_get_def fun_eq_iff)

lemma dict_get_del: "dict_get (dict_del k d) = (dict_get d)(k := None)"
  by (induction d) (auto simp: dict_get_def dict_del_def fun_eq_iff)

lemma dict_keys_set:
  "dict_keys (dict_set k v d) = (if k \<in> set (dict_keys d) then dict_keys d else dict_keys d @ [k])"
  by (induction k v d rule: dict_set.induct) (auto simp: dict_keys_def)

lemma dict_keys_get: "k \<in> set (dict_keys d) \<longleftrightarrow> dict_get d k \<noteq> None"
  by (simp add: dict_keys_def dict_get_def map_of_eq_None_iff)

lemma dict_wf_set: "dict_wf d \<Longrightarrow> dict_wf (dict_set k v d)"
  using dict_keys_set [of k v d] by (auto simp: dict_wf_def dict_keys_def [symmetric])

lemma dict_wf_del: "dict_wf d \<Longrightarrow> dict_wf (dict_del k d)"
  by (simp add: dict_wf_def dict_del_def distinct_map_filter)

interpretation pd: dict_interface "[]" dict_get dict_set dict_del dict_keys dict_wf
  by unfold_locales
     (simp_all add: dict_get_set dict_get_del dict_keys_set dict_keys_get dict_wf_set dict_wf_del,
      simp_all add: dict_wf_def dict_keys_def dict_get_def)

lemma dict_Nil_get: "d = [] \<longleftrightarrow> (\<forall>k. dict_get d k = None)"
  by (cases d) (auto simp: dict_get_def)

lemma dict_empty_iff: "d = [] \<longleftrightarrow> set (dict_keys d) = {}"
  by (simp add: dict_keys_def)

lemma dict_set_new: "k \<notin> set (dict_keys d) \<Longrightarrow> dict_set k v d = d @ [(k, v)]"
  by (induction k v d rule: dict_set.induct) (auto simp: dict_keys_def)

lemma dict_set_same: "dict_get d k = Some v \<Longrightarrow> dict_set k v d = d"
  by (induction k v d rule: dict_set.induct) (auto simp: dict_get_def split: if_splits)

text \<open>\<open>d.update(e)\<close> appends when the keys are new.\<close>

lemma dict_update_new:
  assumes "dict_wf e" and "set (dict_keys e) \<inter> set (dict_keys d) = {}"
  shows "foldl (\<lambda>d (k, v). dict_set k v d) d e = d @ e"
  using assms
proof (induction e arbitrary: d)
  case (Cons p e)
  obtain k v where p: "p = (k, v)" by (cases p)
  from Cons.prems have "dict_set k v d = d @ [(k, v)]"
    by (intro dict_set_new) (auto simp: p dict_keys_def)
  with Cons.IH [of "d @ [(k, v)]"] Cons.prems show ?case
    by (auto simp: p dict_wf_def dict_keys_def)
qed simp

lemma map_of_keyed: "map_of (map (\<lambda>n. (n, f n)) ns) k = (if k \<in> set ns then Some (f k) else None)"
  by (induction ns) auto

lemma dict_get_filter_key:
  "dict_get (filter (\<lambda>(k, v). P k) d) k = (if P k then dict_get d k else None)"
  by (induction d) (auto simp: dict_get_def)

lemma dict_get_append:
  "dict_get (a @ b) k = (case dict_get a k of Some v \<Rightarrow> Some v | None \<Rightarrow> dict_get b k)"
  by (simp add: dict_get_def map_add_def split: option.split)

lemma dict_keyed_id:
  "distinct ns \<Longrightarrow> dict_keys d = ns \<Longrightarrow> map (\<lambda>n. (n, the (dict_get d n))) ns = d"
proof (induction d arbitrary: ns)
  case (Cons p d)
  obtain k v where p: "p = (k, v)" by (cases p)
  from Cons.prems obtain ms where ms: "ns = k # ms" "dict_keys d = ms" "distinct ms" "k \<notin> set ms"
    by (auto simp: p dict_keys_def)
  have "map (\<lambda>n. (n, the (dict_get (p # d) n))) ms = map (\<lambda>n. (n, the (dict_get d n))) ms"
    using ms by (auto simp: p dict_get_def)
  with Cons.IH [of ms] ms show ?case by (simp add: p dict_get_def)
qed (simp add: dict_keys_def)

end
