(* ===== verification/Py_Json.thy ===== *)
theory Py_Json
  imports Py_Dict "HOL-Library.List_Lexorder" "HOL-Library.Char_ord"
begin

text \<open>
  The values \<open>json.load\<close> gives and the Python operations the source applies to them: truth,
  equality with an integer (\<open>True == 1\<close> and \<open>1.0 == 1\<close> hold in Python), \<open>int(...)\<close> and
  \<open>str(...)\<close>. A float is represented by its \<open>repr\<close>, which is unique for a float and is what
  \<open>json.dumps\<close> writes.
\<close>

datatype json =
    JNull | JBool bool | JInt int | JFloat str | JStr str
  | JList "json list" | JObj "(str \<times> json) list"

section \<open>Decimal numerals\<close>

definition digit_val :: "char \<Rightarrow> nat" where
  "digit_val c = py_ord c - 48"

definition digits_val :: "str \<Rightarrow> nat" where
  "digits_val ds = foldl (\<lambda>n c. 10 * n + digit_val c) 0 ds"

fun nat_digits :: "nat \<Rightarrow> str" where
  "nat_digits n =
     (if n < 10 then [char_of (48 + n)] else nat_digits (n div 10) @ [char_of (48 + n mod 10)])"

declare nat_digits.simps [simp del]

text \<open>\<open>str\<close> of an int.\<close>

definition int_str :: "int \<Rightarrow> str" where
  "int_str i = (if i < 0 then CHR ''-'' # nat_digits (nat (- i)) else nat_digits (nat i))"

lemma digits_val_snoc: "digits_val (ds @ [c]) = 10 * digits_val ds + digit_val c"
  by (simp add: digits_val_def)

lemma ord_digit: "n < 10 \<Longrightarrow> py_ord (char_of (48 + n) :: char) = 48 + n"
  by simp

lemma nat_digits_ne: "nat_digits n \<noteq> []"
  by (subst nat_digits.simps) simp

lemma nat_digits_all: "c \<in> set (nat_digits n) \<Longrightarrow> is_digit c"
proof (induction n rule: nat_digits.induct)
  case (1 n)
  have d: "m < 10 \<Longrightarrow> is_digit (char_of (48 + m))" for m :: nat
    by (simp add: is_digit_def in_range_def)
  show ?case using 1 d [of n] d [of "n mod 10"] by (subst (asm) nat_digits.simps) (auto split: if_splits)
qed

lemma digits_val_nat_digits: "digits_val (nat_digits n) = n"
proof (induction n rule: nat_digits.induct)
  case (1 n)
  show ?case
  proof (cases "n < 10")
    case True
    then show ?thesis by (subst nat_digits.simps) (simp add: digits_val_def digit_val_def)
  next
    case False
    with 1 have "digits_val (nat_digits (n div 10)) = n div 10" by blast
    with False show ?thesis
      by (subst nat_digits.simps) (simp add: digits_val_snoc digit_val_def)
  qed
qed

text \<open>The digits of an integer literal: non-empty, single underscores between digits only.\<close>

fun digits_sep :: "bool \<Rightarrow> str \<Rightarrow> str option" where
  "digits_sep after_digit [] = (if after_digit then Some [] else None)"
| "digits_sep after_digit (c # cs) =
     (if is_digit c then map_option (Cons c) (digits_sep True cs)
      else if c = CHR ''_'' \<and> after_digit then digits_sep False cs
      else None)"

text \<open>\<open>int\<close> of a string: surrounding blanks and a sign are allowed.\<close>

definition int_of_str :: "str \<Rightarrow> int option" where
  "int_of_str t =
     (case py_strip t of
        [] \<Rightarrow> None
      | c # cs \<Rightarrow>
          if c = CHR ''-'' then map_option (\<lambda>ds. - int (digits_val ds)) (digits_sep False cs)
          else if c = CHR ''+'' then map_option (\<lambda>ds. int (digits_val ds)) (digits_sep False cs)
          else map_option (\<lambda>ds. int (digits_val ds)) (digits_sep False (c # cs)))"

lemma digits_sep_digits:
  "\<forall>c \<in> set ds. is_digit c \<Longrightarrow> ds \<noteq> [] \<or> b \<Longrightarrow> digits_sep b ds = Some ds"
  by (induction ds arbitrary: b) auto

section \<open>Truth, equality and conversions\<close>

definition float_zero :: "str \<Rightarrow> bool" where
  "float_zero t \<longleftrightarrow> t = ''0.0'' \<or> t = ''-0.0''"

definition py_truthy :: "json \<Rightarrow> bool" where
  "py_truthy j =
     (case j of JNull \<Rightarrow> False | JBool b \<Rightarrow> b | JInt i \<Rightarrow> i \<noteq> 0 | JFloat t \<Rightarrow> \<not> float_zero t
      | JStr t \<Rightarrow> t \<noteq> [] | JList js \<Rightarrow> js \<noteq> [] | JObj d \<Rightarrow> d \<noteq> [])"

text \<open>\<open>x or d\<close>.\<close>

definition py_or :: "json \<Rightarrow> json \<Rightarrow> json" where
  "py_or j d = (if py_truthy j then j else d)"

text \<open>\<open>int\<close> of a float, from its \<open>repr\<close>: the digits before the point, 0 for a negative exponent
  (which \<open>repr\<close> uses below \<open>0.0001\<close>), and for a positive exponent (at \<open>1e+16\<close> and above, where
  every float is an integer) the 53-bit rounding of the decimal value, half to even. \<open>inf\<close> and
  \<open>nan\<close> raise.\<close>

fun bit_len :: "nat \<Rightarrow> nat" where
  "bit_len n = (if n = 0 then 0 else Suc (bit_len (n div 2)))"

declare bit_len.simps [simp del]

definition round53 :: "nat \<Rightarrow> nat" where
  "round53 n =
     (let s = bit_len n - 53; q = n div 2 ^ s; r = n mod 2 ^ s
      in if s = 0 then n
         else (if 2 ^ s < 2 * r \<or> (2 * r = 2 ^ s \<and> odd q) then q + 1 else q) * 2 ^ s)"

definition float_trunc_abs :: "str \<Rightarrow> nat option" where
  "float_trunc_abs t =
     (let mantissa = takeWhile (\<lambda>c. c \<noteq> CHR ''e'') t;
          exponent = drop (Suc (length mantissa)) t;
          whole = takeWhile (\<lambda>c. c \<noteq> CHR ''.'') mantissa;
          fraction = drop (Suc (length whole)) mantissa
      in if whole = [] \<or> \<not> list_all is_digit whole then None
         else if exponent = [] then Some (digits_val whole)
         else if hd exponent = CHR ''-'' then Some 0
         else Some (round53 (digits_val (whole @ fraction)
                     * 10 ^ (digits_val (tl exponent) - length fraction))))"

definition float_trunc :: "str \<Rightarrow> int option" where
  "float_trunc t =
     (case t of c # cs \<Rightarrow>
        if c = CHR ''-'' then map_option (\<lambda>n. - int n) (float_trunc_abs cs)
        else map_option int (float_trunc_abs t)
      | [] \<Rightarrow> None)"

text \<open>\<open>j == n\<close> for an int \<open>n\<close>: a float equals an int when its exact value does; its \<open>repr\<close> then is
  the numeral followed by \<open>.0\<close>, or has a positive exponent (at \<open>1e+16\<close> and above).\<close>

definition float_eq_int :: "str \<Rightarrow> int \<Rightarrow> bool" where
  "float_eq_int t n \<longleftrightarrow>
     t = int_str n @ ''.0'' \<or> (n = 0 \<and> float_zero t) \<or> (contains ''e+'' t \<and> float_trunc t = Some n)"

definition py_eq_int :: "json \<Rightarrow> int \<Rightarrow> bool" where
  "py_eq_int j n =
     (case j of JInt i \<Rightarrow> i = n | JBool b \<Rightarrow> (if b then 1 else 0) = n
      | JFloat t \<Rightarrow> float_eq_int t n
      | _ \<Rightarrow> False)"

text \<open>\<open>x == y\<close>: numbers by value (a nan, whose \<open>repr\<close> is \<open>nan\<close>, equals nothing), lists item by
  item, dicts as mappings whatever the order of their keys.\<close>

definition number_eq :: "json \<Rightarrow> json \<Rightarrow> bool" where
  "number_eq x y =
     (case (x, y) of
        (JFloat s, JFloat t) \<Rightarrow> (s = t \<and> s \<noteq> ''nan'') \<or> (float_zero s \<and> float_zero t)
      | (JFloat s, JInt i) \<Rightarrow> float_eq_int s i
      | (JFloat s, JBool b) \<Rightarrow> float_eq_int s (if b then 1 else 0)
      | (JInt i, _) \<Rightarrow> py_eq_int y i
      | (JBool b, _) \<Rightarrow> py_eq_int y (if b then 1 else 0)
      | _ \<Rightarrow> False)"

fun py_eq :: "json \<Rightarrow> json \<Rightarrow> bool" where
  "py_eq JNull y = (y = JNull)"
| "py_eq (JStr s) y = (y = JStr s)"
| "py_eq (JList xs) y = (case y of JList ys \<Rightarrow> list_all2 (\<lambda>f b. f b) (map py_eq xs) ys | _ \<Rightarrow> False)"
| "py_eq (JObj d) y =
     (case y of
        JObj e \<Rightarrow> length d = length e
          \<and> list_all2 (\<lambda>k f. case dict_get e k of Some b \<Rightarrow> f b | None \<Rightarrow> False)
              (map fst d) (map (\<lambda>kv. py_eq (snd kv)) d)
      | _ \<Rightarrow> False)"
| "py_eq x y = number_eq x y"

text \<open>\<open>int(x)\<close>; \<open>None\<close> when it raises.\<close>

definition py_int :: "json \<Rightarrow> int option" where
  "py_int j =
     (case j of JInt i \<Rightarrow> Some i | JBool b \<Rightarrow> Some (if b then 1 else 0)
      | JFloat t \<Rightarrow> float_trunc t | JStr t \<Rightarrow> int_of_str t | _ \<Rightarrow> None)"

definition py_is_str :: "json \<Rightarrow> bool" where
  "py_is_str j = (case j of JStr _ \<Rightarrow> True | _ \<Rightarrow> False)"

definition py_is_dict :: "json \<Rightarrow> bool" where
  "py_is_dict j = (case j of JObj _ \<Rightarrow> True | _ \<Rightarrow> False)"

text \<open>\<open>isinstance(x, int)\<close> accepts a bool.\<close>

definition py_is_int :: "json \<Rightarrow> bool" where
  "py_is_int j = (case j of JInt _ \<Rightarrow> True | JBool _ \<Rightarrow> True | _ \<Rightarrow> False)"

text \<open>\<open>value.get(key)\<close> for a dict, \<open>None\<close> when the key is missing.\<close>

definition jget :: "(str \<times> json) list \<Rightarrow> str \<Rightarrow> json" where
  "jget d k = (case dict_get d k of Some j \<Rightarrow> j | None \<Rightarrow> JNull)"

subsection \<open>\<open>repr\<close> and \<open>str\<close>\<close>

definition hex_digit :: "nat \<Rightarrow> char" where
  "hex_digit n = (if n < 10 then char_of (48 + n) else char_of (87 + n))"

definition py_printable :: "char \<Rightarrow> bool" where
  "py_printable c \<longleftrightarrow>
     (32 \<le> py_ord c \<and> py_ord c \<le> 126) \<or> (161 \<le> py_ord c \<and> py_ord c \<noteq> 173)"

definition repr_char :: "char \<Rightarrow> char \<Rightarrow> str" where
  "repr_char q c =
     (if c = q \<or> c = CHR 0x5C then [CHR 0x5C, c]
      else if c = CHR 0x0A then [CHR 0x5C, CHR ''n'']
      else if c = CHR 0x0D then [CHR 0x5C, CHR ''r'']
      else if c = CHR 0x09 then [CHR 0x5C, CHR ''t'']
      else if py_printable c then [c]
      else [CHR 0x5C, CHR ''x'', hex_digit (py_ord c div 16), hex_digit (py_ord c mod 16)])"

definition repr_str :: "str \<Rightarrow> str" where
  "repr_str t =
     (let q = (if quote_char \<in> set t \<and> CHR 0x22 \<notin> set t then CHR 0x22 else quote_char)
      in q # concat (map (repr_char q) t) @ [q])"

fun py_repr :: "json \<Rightarrow> str" where
  "py_repr JNull = ''None''"
| "py_repr (JBool b) = (if b then ''True'' else ''False'')"
| "py_repr (JInt i) = int_str i"
| "py_repr (JFloat t) = t"
| "py_repr (JStr t) = repr_str t"
| "py_repr (JList js) = ''['' @ py_join '', '' (map py_repr js) @ '']''"
| "py_repr (JObj d) =
     ''{'' @ py_join '', '' (map (\<lambda>(k, v). repr_str k @ '': '' @ py_repr v) d) @ ''}''"

definition py_str :: "json \<Rightarrow> str" where
  "py_str j = (case j of JStr t \<Rightarrow> t | _ \<Rightarrow> py_repr j)"

text \<open>\<open>str(x or "")\<close>.\<close>

definition str_or_empty :: "json \<Rightarrow> str" where
  "str_or_empty j = (if py_truthy j then py_str j else [])"

lemma str_or_empty_simps [simp]:
  "str_or_empty (JStr t) = t" "str_or_empty JNull = []"
  by (simp_all add: str_or_empty_def py_truthy_def py_str_def)

subsection \<open>\<open>json.dumps(value, ensure_ascii=False, separators=(",", ":"))\<close>\<close>

definition json_char :: "char \<Rightarrow> str" where
  "json_char c =
     (if c = CHR 0x22 \<or> c = CHR 0x5C then [CHR 0x5C, c]
      else if c = CHR 0x0A then [CHR 0x5C, CHR ''n'']
      else if c = CHR 0x0D then [CHR 0x5C, CHR ''r'']
      else if c = CHR 0x09 then [CHR 0x5C, CHR ''t'']
      else if c = CHR 0x08 then [CHR 0x5C, CHR ''b'']
      else if c = CHR 0x0C then [CHR 0x5C, CHR ''f'']
      else if py_ord c < 32
      then [CHR 0x5C, CHR ''u'', CHR ''0'', CHR ''0'', hex_digit (py_ord c div 16), hex_digit (py_ord c mod 16)]
      else [c])"

definition json_quote :: "str \<Rightarrow> str" where
  "json_quote t = CHR 0x22 # concat (map json_char t) @ [CHR 0x22]"

text \<open>The flag is \<open>sort_keys\<close>.\<close>

fun json_dumps :: "bool \<Rightarrow> json \<Rightarrow> str" where
  "json_dumps srt JNull = ''null''"
| "json_dumps srt (JBool b) = (if b then ''true'' else ''false'')"
| "json_dumps srt (JInt i) = int_str i"
| "json_dumps srt (JFloat t) = t"
| "json_dumps srt (JStr t) = json_quote t"
| "json_dumps srt (JList js) = ''['' @ py_join '','' (map (json_dumps srt) js) @ '']''"
| "json_dumps srt (JObj d) =
     (let items = map (\<lambda>(k, v). (k, json_dumps srt v)) d;
          ordered = (if srt then sort_key fst items else items)
      in ''{'' @ py_join '','' (map (\<lambda>(k, v). json_quote k @ '':'' @ v) ordered) @ ''}'')"

section \<open>Lemmas on lookups\<close>

lemma jget_None: "dict_get d k = None \<Longrightarrow> jget d k = JNull"
  by (simp add: jget_def)

lemma jget_Some: "dict_get d k = Some j \<Longrightarrow> jget d k = j"
  by (simp add: jget_def)

lemma jget_set: "jget (dict_set k v d) k' = (if k' = k then v else jget d k')"
  by (simp add: jget_def dict_get_set)

lemma int_of_str_int_str: "int_of_str (int_str i) = Some i"
proof -
  let ?ds = "nat_digits (nat (if i < 0 then - i else i))"
  have nsp: "is_digit c \<Longrightarrow> \<not> py_isspace c" for c
    by (auto simp: is_digit_def in_range_def py_isspace_def)
  obtain d ds where ds: "?ds = d # ds" using nat_digits_ne by (cases ?ds) auto
  have dig: "\<forall>c \<in> set ?ds. is_digit c" using nat_digits_all by blast
  have sign: "\<not> py_isspace CHR ''-''" "\<not> is_digit CHR ''-''" "\<not> is_digit CHR ''+''"
    by (simp_all add: py_isspace_def is_digit_def in_range_def)
  have "py_strip (int_str i) = int_str i"
    using dig nsp sign ds by (intro py_strip_id) (auto simp: int_str_def nat_digits_ne last_ConsR)
  then show ?thesis
    using digits_sep_digits [of ?ds False] dig ds digits_val_nat_digits [of "nat (if i < 0 then - i else i)"] sign
    by (auto simp: int_of_str_def int_str_def)
qed

end
