(* ===== verification/Proof_Text.thy ===== *)
theory Proof_Text
  imports Py_Regex
begin

text \<open>
  The lexical guards of \<^verbatim>\<open>src/core/easycrypt/proof_text.py\<close>: masking of comments and
  string literals as EasyCrypt reads them (\<open>mask_ec\<close>, the source's \<^verbatim>\<open>_mask\<close>), sentence
  ends, splitting into commands and tactic chains, the undo-safety test and the search for
  constructs that leave goals unchecked. The lemmas show that masking keeps length, offsets
  and newlines, that comment spans are ordered and blanked, that splitting loses no text,
  and that a keyword which occurs as a whole word outside comments and strings is reported.
\<close>

section \<open>Operator forms that beat a comment opener\<close>

abbreviation dquote :: char where "dquote \<equiv> CHR 0x22"
abbreviation backslash :: char where "backslash \<equiv> CHR 0x5C"
abbreviation lpar :: char where "lpar \<equiv> CHR 0x28"
abbreviation rpar :: char where "rpar \<equiv> CHR 0x29"
abbreviation star :: char where "star \<equiv> CHR 0x2A"
abbreviation space :: char where "space \<equiv> CHR 0x20"
abbreviation tab :: char where "tab \<equiv> CHR 0x09"
abbreviation creturn :: char where "creturn \<equiv> CHR 0x0D"
abbreviation dot :: char where "dot \<equiv> CHR 0x2E"

definition comment_open :: str where "comment_open = [lpar, star]"
definition comment_shut :: str where "comment_shut = [star, rpar]"

definition opchar :: "char \<Rightarrow> bool" where
  "opchar c \<longleftrightarrow> List.member ([CHR ''='', CHR ''<'', CHR ''>'', CHR ''+'', CHR ''-'', star,
     CHR ''/'', backslash, CHR ''%'', CHR ''&'', CHR 0x5E, CHR ''|'', CHR '':'',
     CHR ''#'', CHR ''$'']) c"

definition ichar :: "char \<Rightarrow> bool" where
  "ichar c \<longleftrightarrow> is_alpha c \<or> is_digit c \<or> c = CHR ''_'' \<or> c = quote_char"

definition lexer_blank :: "char \<Rightarrow> bool" where
  "lexer_blank c \<longleftrightarrow> c = space \<or> c = tab \<or> c = creturn"

definition OPCHARS :: re where "OPCHARS = Plus (Cls opchar)"
definition BLANK :: re where "BLANK = Star (Cls lexer_blank)"

definition BINOP :: re where
  "BINOP = Alts [OPCHARS, Seqs [Lit [CHR 0x60], OPCHARS, Lit [CHR 0x60]],
                 Seq (Lit [backslash]) (Plus (Cls ichar))]"

definition PAREN_FORM_SKIPPED :: re where
  "PAREN_FORM_SKIPPED = Seqs [Lit [lpar], Lit [star], BINOP, Lit [star], Lit [rpar]]"

definition PAREN_FORMS :: "re list" where
  "PAREN_FORMS =
     [PAREN_FORM_SKIPPED,
      Seqs [Lit [lpar], BLANK, BINOP, BLANK, Lit [rpar]],
      Seqs [Lit [lpar], BLANK, Lit [quote_char], Plus (Cls is_digit), BLANK, Lit [rpar]],
      Seqs [Lit [lpar], BLANK, Lit [CHR ''%''],
            Alt (Seq (Cls is_lower) (Star (Cls ichar)))
                (Seq (Lit [CHR ''_'']) (Plus (Cls ichar))),
            BLANK, Lit [rpar]]]"

definition paren_form_length :: "str \<Rightarrow> nat \<Rightarrow> nat" where
  "paren_form_length t i =
     foldl (\<lambda>best form. case re_match_end form t i of
              Some j \<Rightarrow> if best < j - i then j - i else best
            | None \<Rightarrow> best) 0 PAREN_FORMS"

section \<open>Masking\<close>

definition blank_char :: "char \<Rightarrow> char" where
  "blank_char c = (if c = newline then newline else space)"

definition blank_text :: "str \<Rightarrow> str" where
  "blank_text t = map blank_char t"

text \<open>The inner comment loop: the offset just past the comment and the depth left open.\<close>

function comment_close :: "str \<Rightarrow> nat \<Rightarrow> nat \<Rightarrow> nat \<times> nat" where
  "comment_close t e d =
     (if e < length t \<and> 0 < d then
        if starts_at comment_open t e then comment_close t (e + 2) (Suc d)
        else if starts_at comment_shut t e then comment_close t (e + 2) (d - 1)
        else comment_close t (Suc e) d
      else (e, d))"
  by pat_completeness auto
termination by (relation "measure (\<lambda>(t, e, d). length t - e)") auto

declare comment_close.simps [simp del]

text \<open>The inner string loop: the offset of the closing quote or past the end.\<close>

function string_close :: "str \<Rightarrow> nat \<Rightarrow> nat" where
  "string_close t e =
     (if e < length t \<and> t ! e \<noteq> dquote
      then string_close t (if t ! e = backslash then e + 2 else Suc e)
      else e)"
  by pat_completeness auto
termination by (relation "measure (\<lambda>(t, e). length t - e)") auto

declare string_close.simps [simp del]

lemma comment_close_mono: "e \<le> fst (comment_close t e d)"
proof (induction t e d rule: comment_close.induct)
  case (1 t e d)
  then show ?case by (auto simp: comment_close.simps [of t e d])
qed

lemma string_close_mono: "e \<le> string_close t e"
proof (induction t e rule: string_close.induct)
  case (1 t e)
  then show ?case by (subst string_close.simps) (auto split: if_splits)
qed

definition opener_length :: "str \<Rightarrow> nat \<Rightarrow> nat" where
  "opener_length t i =
     (if i + 2 < length t \<and> List.member [CHR ''&'', CHR 0x5E] (t ! (i + 2)) then 3 else 2)"

definition form_discarded :: "str \<Rightarrow> nat \<Rightarrow> nat \<Rightarrow> bool" where
  "form_discarded t i len =
     (case re_match_end PAREN_FORM_SKIPPED t i of Some j \<Rightarrow> j - i = len | None \<Rightarrow> False)"

text \<open>One step of the scan: the next offset, the text written for the step, the span of an
  outermost comment and whether that comment stays open.\<close>

datatype mask_step = Emit nat str | Comment nat str bool

definition mask_next :: "str \<Rightarrow> bool \<Rightarrow> nat \<Rightarrow> mask_step" where
  "mask_next t strings i =
     (if starts_at comment_open t i then
        (let operator = paren_form_length t i in
         if opener_length t i < operator then
           (let form = py_slice t i (i + operator) in
            Emit (i + operator) (if form_discarded t i operator then blank_text form else form))
         else
           (let (e, d) = comment_close t (i + 2) 1 in
            Comment e (blank_text (py_slice t i e)) (0 < d)))
      else if t ! i = dquote then
        (let e = min (Suc (string_close t (Suc i))) (length t);
             literal = py_slice t i e in
         Emit e (if strings then blank_text literal else literal))
      else Emit (Suc i) [t ! i])"

fun step_end :: "mask_step \<Rightarrow> nat" where
  "step_end (Emit e _) = e"
| "step_end (Comment e _ _) = e"

fun step_text :: "mask_step \<Rightarrow> str" where
  "step_text (Emit _ s) = s"
| "step_text (Comment _ s _) = s"

lemma mask_next_progress: "i < length t \<Longrightarrow> i < step_end (mask_next t strings i)"
  using comment_close_mono [of "i + 2" t 1] string_close_mono [of "Suc i" t]
  by (auto simp: mask_next_def Let_def opener_length_def split: prod.splits if_splits)

function mask_loop :: "str \<Rightarrow> bool \<Rightarrow> nat \<Rightarrow> str \<Rightarrow> span list \<Rightarrow> bool \<Rightarrow> str \<times> span list \<times> bool"
  where
  "mask_loop t strings i out comments opened =
     (if i < length t then
        case mask_next t strings i of
          Emit e s \<Rightarrow> mask_loop t strings e (out @ s) comments opened
        | Comment e s b \<Rightarrow> mask_loop t strings e (out @ s) (comments @ [(i, e)]) b
      else (out, comments, opened))"
  by pat_completeness auto
termination
proof (relation "measure (\<lambda>(t, strings, i, out, comments, opened). length t - i)", goal_cases)
  case (2 t strings i out comments opened e s)
  then show ?case using mask_next_progress [of i t strings] by simp
next
  case (3 t strings i out comments opened e s b)
  then show ?case using mask_next_progress [of i t strings] by simp
qed simp

declare mask_loop.simps [simp del]

definition mask_ec :: "str \<Rightarrow> bool \<Rightarrow> str \<times> span list \<times> bool" where
  "mask_ec t strings = mask_loop t strings 0 [] [] False"

definition strip_comments :: "str \<Rightarrow> str" where
  "strip_comments t = fst (mask_ec t False)"

definition comment_spans :: "str \<Rightarrow> span list" where
  "comment_spans t = fst (snd (mask_ec t False))"

definition easycrypt_code :: "str \<Rightarrow> str" where
  "easycrypt_code t = fst (mask_ec t True)"

definition has_unterminated_comment :: "str \<Rightarrow> bool" where
  "has_unterminated_comment t = snd (snd (mask_ec t False))"

section \<open>Sentences, commands and tactic chains\<close>

definition final_blank :: "char \<Rightarrow> bool" where
  "final_blank c \<longleftrightarrow> c = space \<or> c = tab \<or> c = newline \<or> c = creturn"

function sentence_ends_from :: "str \<Rightarrow> str \<Rightarrow> nat \<Rightarrow> nat list" where
  "sentence_ends_from t code i =
     (if i < length t then
        if code ! i = dot then
          if starts_at [dot, dot] t i then sentence_ends_from t code (i + 2)
          else if Suc i = length t \<or> final_blank (t ! Suc i)
               then Suc i # sentence_ends_from t code (Suc i)
               else sentence_ends_from t code (Suc i)
        else sentence_ends_from t code (Suc i)
      else [])"
  by pat_completeness auto
termination by (relation "measure (\<lambda>(t, code, i). length t - i)") auto

declare sentence_ends_from.simps [simp del]

definition sentence_ends :: "str \<Rightarrow> str \<Rightarrow> nat list" where
  "sentence_ends t code = sentence_ends_from t code 0"

definition blank_or_tab :: "char \<Rightarrow> bool" where
  "blank_or_tab c \<longleftrightarrow> c = space \<or> c = tab"

definition command_end :: "str \<Rightarrow> nat \<Rightarrow> nat" where
  "command_end t e =
     (let e1 = e + run_length blank_or_tab t e in
      if e1 < length t \<and> t ! e1 = newline then Suc e1 else e1)"

fun split_at_ends :: "str \<Rightarrow> nat list \<Rightarrow> nat \<Rightarrow> str list \<times> nat" where
  "split_at_ends t [] start = ([], start)"
| "split_at_ends t (e # es) start =
     (let e2 = command_end t e; (cs, s) = split_at_ends t es e2
      in (py_slice t start e2 # cs, s))"

definition split_ec_commands :: "str \<Rightarrow> str list" where
  "split_ec_commands t =
     (let (cs, s) = split_at_ends t (sentence_ends t (easycrypt_code t)) 0;
          tail = py_strip (drop s t)
      in cs @ (if tail = [] then [] else [tail]))"

definition split_tactic_chain :: "str \<Rightarrow> str list" where
  "split_tactic_chain t =
     (let tactics = filter (\<lambda>s. s \<noteq> []) (map py_strip (split_ec_commands t))
      in if tactics \<noteq> [] \<and> \<not> ends_with [dot] (last tactics)
         then butlast tactics @ [last tactics @ [dot]] else tactics)"

section \<open>Undo safety\<close>

definition UNDO_UNSAFE_HEADS :: "str list" where
  "UNDO_UNSAFE_HEADS =
     [''pragma'', ''undo'', ''exit'', ''quit'', ''drop'', ''abort'', ''restart'']"

definition head_char :: "char \<Rightarrow> bool" where
  "head_char c \<longleftrightarrow> is_alpha c \<or> c = CHR ''_''"

definition bullet_char :: "char \<Rightarrow> bool" where
  "bullet_char c \<longleftrightarrow> List.member [CHR ''+'', CHR ''-'', star, CHR 0x7B, CHR 0x7D, space, tab,
     creturn, newline] c"

definition sentence_head :: "str \<Rightarrow> str" where
  "sentence_head code =
     (let rest = lstrip_by bullet_char code
      in py_slice rest 0 (case re_match_end (Star (Cls head_char)) rest 0 of
                            Some j \<Rightarrow> j | None \<Rightarrow> 0))"

definition undo_unsafe :: "str \<Rightarrow> bool" where
  "undo_unsafe code \<longleftrightarrow> List.member UNDO_UNSAFE_HEADS (py_lower (sentence_head code))"

fun first_undo_unsafe :: "str list \<Rightarrow> str" where
  "first_undo_unsafe [] = []"
| "first_undo_unsafe (s # ss) =
     (let code = py_strip (strip_comments s) in
      if code = [] then first_undo_unsafe ss
      else if undo_unsafe code then code
      else first_undo_unsafe ss)"

definition undo_unsafe_sentence :: "str \<Rightarrow> str" where
  "undo_unsafe_sentence transaction = first_undo_unsafe (split_ec_commands transaction)"

section \<open>Constructs that leave goals unchecked\<close>

definition token_start :: "char \<Rightarrow> bool" where
  "token_start c \<longleftrightarrow> is_alpha c \<or> c = CHR ''_''"

definition TOKEN_RE :: re where
  "TOKEN_RE = Seq (Cls token_start) (Star (Cls ichar))"

definition UNCHECKED_KEYWORDS :: "str list" where
  "UNCHECKED_KEYWORDS = [''admit'', ''admitted'', ''exit'', ''abort'']"

definition FILE_WIDE_KEYWORDS :: "str list" where
  "FILE_WIDE_KEYWORDS = [''exit'']"

definition UNCHECKED_PRAGMA_RE :: re where
  "UNCHECKED_PRAGMA_RE =
     Seqs [NotBehind ichar, Lit ''pragma'', Plus (Cls py_isspace),
           Opt (Seq (OneOf [CHR ''+'', CHR ''-'']) Spaces),
           Alt (Seqs [Lit ''Proofs'', Spaces, Lit [CHR '':''], Spaces,
                      Grp 1 (Alt (Lit ''weak'') (Lit ''report''))])
               (Grp 2 (Alt (Lit ''reset'') (Lit ''restart''))),
           NotAhead (Cls ichar)]"

definition keywords_in :: "str \<Rightarrow> str list \<Rightarrow> str list" where
  "keywords_in code keywords =
     filter (\<lambda>w. List.member keywords w) (map (match_text code) (re_finditer TOKEN_RE code))"

definition pragmas_in :: "str \<Rightarrow> str list" where
  "pragmas_in code =
     map (\<lambda>m. case match_group code 1 m of
                Some g \<Rightarrow> ''pragma Proofs:'' @ g
              | None \<Rightarrow> ''pragma '' @ (case match_group code 2 m of Some g \<Rightarrow> g | None \<Rightarrow> ''None''))
         (re_finditer UNCHECKED_PRAGMA_RE code)"

definition unchecked_proof_constructs :: "str \<Rightarrow> str list" where
  "unchecked_proof_constructs t =
     (let code = easycrypt_code t in keywords_in code UNCHECKED_KEYWORDS @ pragmas_in code)"

definition file_wide_unchecked_constructs :: "str \<Rightarrow> str list" where
  "file_wide_unchecked_constructs t =
     (let code = easycrypt_code t in keywords_in code FILE_WIDE_KEYWORDS @ pragmas_in code)"

definition tactics_contain_admit :: "str list \<Rightarrow> bool" where
  "tactics_contain_admit tactics = list_ex (\<lambda>t. unchecked_proof_constructs t \<noteq> []) tactics"

section \<open>The mask keeps offsets\<close>

lemma blank_char_newline [simp]: "blank_char c = newline \<longleftrightarrow> c = newline"
  by (simp add: blank_char_def)

lemma length_blank_text [simp]: "length (blank_text t) = length t"
  by (simp add: blank_text_def)

text \<open>A text masks another if every character is kept or blanked.\<close>

definition masks :: "str \<Rightarrow> str \<Rightarrow> bool" where
  "masks u t \<longleftrightarrow> list_all2 (\<lambda>a b. a = b \<or> a = blank_char b) u t"

lemma masks_refl [simp]: "masks t t"
  by (simp add: masks_def list_all2_same)

lemma masks_blank [simp]: "masks (blank_text t) t"
  by (simp add: masks_def blank_text_def list_all2_conv_all_nth)

lemma masks_append: "masks a b \<Longrightarrow> masks c d \<Longrightarrow> masks (a @ c) (b @ d)"
  by (simp add: masks_def list_all2_appendI)

lemma masks_length: "masks u t \<Longrightarrow> length u = length t"
  by (simp add: masks_def list_all2_lengthD)

lemma masks_nth: "masks u t \<Longrightarrow> k < length t \<Longrightarrow> u ! k = t ! k \<or> u ! k = blank_char (t ! k)"
  by (simp add: masks_def list_all2_conv_all_nth)

lemma comment_open_length [simp]: "length comment_open = 2" "comment_open \<noteq> []"
  by (simp_all add: comment_open_def)

lemma comment_shut_length [simp]: "length comment_shut = 2" "comment_shut \<noteq> []"
  by (simp_all add: comment_shut_def)

lemma comment_close_le [offset_bounds]: "e \<le> length t \<Longrightarrow> fst (comment_close t e d) \<le> length t"
proof (induction t e d rule: comment_close.induct)
  case (1 t e d)
  show ?case
    using 1 starts_at_length [of comment_open t e] starts_at_length [of comment_shut t e]
    by (auto simp: comment_close.simps [of t e d])
qed

text \<open>A comment is left open only at the end of the text, and a closed one ends in a closer.\<close>

lemma comment_close_open:
  "comment_close t e d = (e', d') \<Longrightarrow> 0 < d' \<Longrightarrow> length t \<le> e'"
proof (induction t e d rule: comment_close.induct)
  case (1 t e d)
  then show ?case by (auto simp: comment_close.simps [of t e d] split: if_splits)
qed

lemma comment_close_shut:
  "comment_close t e d = (e', 0) \<Longrightarrow> 0 < d \<Longrightarrow> e + 2 \<le> e' \<and> starts_at comment_shut t (e' - 2)"
proof (induction t e d rule: comment_close.induct)
  case (1 t e d)
  show ?case
  proof (cases "e < length t \<and> \<not> starts_at comment_open t e \<and> starts_at comment_shut t e \<and> d = 1")
    case True
    then have "comment_close t e d = comment_close t (e + 2) 0"
      using 1(5) by (subst comment_close.simps) simp
    moreover have "comment_close t (e + 2) 0 = (e + 2, 0)" by (subst comment_close.simps) simp
    ultimately show ?thesis using True 1(4) by auto
  next
    case False
    then show ?thesis using 1 by (auto simp: comment_close.simps [of t e d] split: if_splits)
  qed
qed

lemma foldl_bound:
  assumes "\<And>b x. x \<in> set xs \<Longrightarrow> b \<le> n \<Longrightarrow> f b x \<le> (n::nat)" and "b0 \<le> n"
  shows "foldl f b0 xs \<le> n"
  using assms by (induction xs arbitrary: b0) auto

lemma paren_form_length_le [offset_bounds]:
  assumes "i \<le> length t"
  shows "i + paren_form_length t i \<le> length t"
proof -
  have "paren_form_length t i \<le> length t - i"
    unfolding paren_form_length_def
    by (rule foldl_bound) (use assms in \<open>auto split: option.split dest!: re_match_end_bounds\<close>)
  with assms show ?thesis by simp
qed

lemma opener_length_ge: "2 \<le> opener_length t i"
  by (simp add: opener_length_def)

lemma mask_next_le [offset_bounds]:
  "i < length t \<Longrightarrow> step_end (mask_next t strings i) \<le> length t"
  using comment_close_le [of "i + 2" t 1] paren_form_length_le [of i t]
    starts_at_length [of comment_open t i]
  by (auto simp: mask_next_def Let_def split: prod.splits)

lemma mask_next_masks:
  "i < length t \<Longrightarrow>
     masks (step_text (mask_next t strings i)) (py_slice t i (step_end (mask_next t strings i)))"
  by (auto simp: mask_next_def Let_def py_slice_def take_Suc_conv_app_nth drop_eq_nth_cons
           split: prod.splits)

text \<open>A rule for the scan: an invariant of one step holds of the result.\<close>

lemma mask_loop_rule:
  assumes "P i out cs b"
    and "\<And>i out cs b. i < length t \<Longrightarrow> P i out cs b \<Longrightarrow>
           (case mask_next t strings i of
              Emit e s \<Rightarrow> P e (out @ s) cs b
            | Comment e s b' \<Rightarrow> P e (out @ s) (cs @ [(i, e)]) b')"
    and "i \<le> length t"
  shows "case mask_loop t strings i out cs b of (out', cs', b') \<Rightarrow> P (length t) out' cs' b'"
proof -
  have step: "i < length t \<Longrightarrow> i < step_end (mask_next t strings i) \<and>
     step_end (mask_next t strings i) \<le> length t" for i
    using mask_next_progress mask_next_le by blast
  from assms(1,3) show ?thesis
  proof (induction "length t - i" arbitrary: i out cs b rule: less_induct)
    case less
    show ?case
    proof (cases "i < length t")
      case False
      with less.prems show ?thesis by (simp add: mask_loop.simps [of t strings "length t"])
    next
      case True
      show ?thesis
      proof (cases "mask_next t strings i")
        case (Emit e s)
        with assms(2) [OF True less.prems(1)] step [OF True] True
        show ?thesis
          using less.hyps [of e "out @ s" cs b]
          by (simp add: mask_loop.simps [of t strings i] diff_less_mono2)
      next
        case (Comment e s b')
        with assms(2) [OF True less.prems(1)] step [OF True] True
        show ?thesis
          using less.hyps [of e "out @ s" "cs @ [(i, e)]" b']
          by (simp add: mask_loop.simps [of t strings i] diff_less_mono2)
      qed
    qed
  qed
qed

lemma mask_ec_rule:
  assumes "mask_ec t strings = (out, cs, b)" and "P 0 [] [] False"
    and "\<And>i out cs b. i < length t \<Longrightarrow> P i out cs b \<Longrightarrow>
           (case mask_next t strings i of
              Emit e s \<Rightarrow> P e (out @ s) cs b
            | Comment e s b' \<Rightarrow> P e (out @ s) (cs @ [(i, e)]) b')"
  shows "P (length t) out cs b"
  using mask_loop_rule [where P = P, OF assms(2,3)] assms(1) by (simp add: mask_ec_def)

lemma mask_ec_masks:
  assumes "mask_ec t strings = (out, cs, b)"
  shows "masks out t"
proof -
  let ?P = "\<lambda>i out cs b. i \<le> length t \<and> masks out (take i t)"
  have "?P (length t) out cs b"
  proof (rule mask_ec_rule [where P = ?P, OF assms])
    fix i out cs b
    assume i: "i < length t" and P: "?P i out cs b"
    let ?n = "mask_next t strings i"
    have "i \<le> step_end ?n" "step_end ?n \<le> length t"
      using mask_next_progress [OF i] mask_next_le [OF i] by (auto simp: less_imp_le)
    moreover from this have "masks (out @ step_text ?n) (take (step_end ?n) t)"
      using masks_append [OF conjunct2 [OF P] mask_next_masks [OF i, of strings]]
        py_slice_split [of 0 i "step_end ?n" t] by simp
    ultimately show "case ?n of Emit e s \<Rightarrow> ?P e (out @ s) cs b
                     | Comment e s b' \<Rightarrow> ?P e (out @ s) (cs @ [(i, e)]) b'"
      by (cases ?n) simp_all
  qed simp
  then show ?thesis by simp
qed

lemma masks_easycrypt_code: "masks (easycrypt_code t) t"
  using mask_ec_masks [of t True] by (metis easycrypt_code_def prod.collapse)

lemma masks_strip_comments: "masks (strip_comments t) t"
  using mask_ec_masks [of t False] by (metis strip_comments_def prod.collapse)

lemma length_easycrypt_code [simp]: "length (easycrypt_code t) = length t"
  using masks_easycrypt_code masks_length by blast

lemma length_strip_comments [simp]: "length (strip_comments t) = length t"
  using masks_strip_comments masks_length by blast

lemma easycrypt_code_nth:
  "k < length t \<Longrightarrow> easycrypt_code t ! k = t ! k \<or> easycrypt_code t ! k = blank_char (t ! k)"
  using masks_easycrypt_code masks_nth by blast

lemma easycrypt_code_visible:
  "k < length t \<Longrightarrow> easycrypt_code t ! k \<noteq> space \<Longrightarrow> easycrypt_code t ! k = t ! k"
  using easycrypt_code_nth [of k t] by (auto simp: blank_char_def split: if_splits)

section \<open>Comment spans\<close>

definition spans_ordered :: "span list \<Rightarrow> bool" where
  "spans_ordered spans \<longleftrightarrow>
     sorted_wrt (\<lambda>(a, b) (c, d). b \<le> c) spans \<and> (\<forall>(a, b) \<in> set spans. a < b)"

definition comment_at :: "str \<Rightarrow> str \<Rightarrow> span \<Rightarrow> bool \<Rightarrow> bool" where
  "comment_at t out s opened \<longleftrightarrow>
     (case s of (a, b) \<Rightarrow>
        a + 2 \<le> b \<and> b \<le> length t \<and> starts_at comment_open t a
        \<and> py_slice out a b = blank_text (py_slice t a b)
        \<and> (if opened then b = length t else starts_at comment_shut t (b - 2) \<and> a + 4 \<le> b))"

lemma comment_at_append:
  "length out \<le> length t \<Longrightarrow> b \<le> length out \<Longrightarrow>
     comment_at t out (a, b) opened \<Longrightarrow> comment_at t (out @ s) (a, b) opened"
  by (auto simp: comment_at_def py_slice_def)

text \<open>The invariant of the scan: every span but an open last one is a closed comment.\<close>

definition spans_inv :: "str \<Rightarrow> nat \<Rightarrow> str \<Rightarrow> span list \<Rightarrow> bool \<Rightarrow> bool" where
  "spans_inv t i out cs opened \<longleftrightarrow>
     i \<le> length t \<and> length out = i \<and> spans_ordered cs \<and> (\<forall>(a, b) \<in> set cs. b \<le> i)
     \<and> (opened \<longrightarrow> cs \<noteq> [] \<and> i = length t)
     \<and> (\<forall>s \<in> set cs. comment_at t out s (opened \<and> s = last cs))"

lemma mask_next_length:
  assumes "i < length t"
  shows "length (step_text (mask_next t strings i)) = step_end (mask_next t strings i) - i"
  using masks_length [OF mask_next_masks [OF assms, of strings]] mask_next_le [OF assms, of strings]
  by simp

lemma mask_next_comment:
  assumes "i < length t" and "mask_next t strings i = Comment e s b"
  shows "starts_at comment_open t i \<and> i + 2 \<le> e \<and> e \<le> length t
    \<and> s = blank_text (py_slice t i e)
    \<and> (if b then e = length t else starts_at comment_shut t (e - 2) \<and> i + 4 \<le> e)"
proof -
  obtain d where c: "starts_at comment_open t i" "comment_close t (i + 2) 1 = (e, d)" "b = (0 < d)"
    "s = blank_text (py_slice t i e)"
    using assms(2) by (auto simp: mask_next_def Let_def split: prod.splits if_splits)
  have "e \<le> length t" using mask_next_le [OF assms(1), of strings] assms(2) by simp
  moreover have "i + 2 \<le> e" using comment_close_mono [of "i + 2" t 1] c(2) by simp
  ultimately show ?thesis
    using c comment_close_open [OF c(2)] comment_close_shut [of t "i + 2" 1 e] by (cases d) auto
qed

lemma spans_inv_emit:
  assumes "i < length t" and "spans_inv t i out cs opened" and "mask_next t strings i = Emit e s"
  shows "spans_inv t e (out @ s) cs opened"
proof -
  have "i < e" "e \<le> length t" "length s = e - i"
    using mask_next_progress [OF assms(1), of strings] mask_next_le [OF assms(1), of strings]
      mask_next_length [OF assms(1), of strings] assms(3) by simp_all
  with assms(1,2) show ?thesis
    unfolding spans_inv_def by (fastforce intro: comment_at_append)
qed

lemma spans_inv_comment:
  assumes i: "i < length t" and inv: "spans_inv t i out cs opened"
    and n: "mask_next t strings i = Comment e s b"
  shows "spans_inv t e (out @ s) (cs @ [(i, e)]) b"
proof -
  note c = mask_next_comment [OF i n]
  have len: "length s = e - i" using mask_next_length [OF i, of strings] n by simp
  have cs: "(i, e) \<notin> set cs" "\<not> opened" "length out = i" "spans_ordered cs"
      "\<forall>(a, b) \<in> set cs. b \<le> i" "\<forall>s \<in> set cs. comment_at t out s False"
    using inv i c by (auto simp: spans_inv_def spans_ordered_def)
  have "\<forall>x \<in> set cs. comment_at t (out @ s) x False"
    using cs(3,5,6) i by (fastforce intro: comment_at_append)
  moreover have "comment_at t (out @ s) (i, e) b"
    using c len cs(3) by (auto simp: comment_at_def py_slice_def)
  moreover have "spans_ordered (cs @ [(i, e)])"
    using cs(4,5) c by (fastforce simp: spans_ordered_def sorted_wrt_append)
  ultimately show ?thesis
    using cs c len by (fastforce simp: spans_inv_def)
qed

lemma mask_ec_spans_inv:
  assumes "mask_ec t strings = (out, cs, b)"
  shows "spans_inv t (length t) out cs b"
proof (rule mask_ec_rule [where P = "spans_inv t", OF assms])
  show "spans_inv t 0 [] [] False" by (simp add: spans_inv_def spans_ordered_def)
  fix i out cs b
  assume "i < length t" "spans_inv t i out cs b"
  then show "case mask_next t strings i of Emit e s \<Rightarrow> spans_inv t e (out @ s) cs b
             | Comment e s b' \<Rightarrow> spans_inv t e (out @ s) (cs @ [(i, e)]) b'"
    by (auto intro: spans_inv_emit spans_inv_comment split: mask_step.split)
qed

text \<open>Outside comments only the operator forms that the lexer discards are blanked.\<close>

definition discarded_at :: "str \<Rightarrow> nat \<Rightarrow> bool" where
  "discarded_at t k \<longleftrightarrow> (\<exists>i n. form_discarded t i n \<and> i \<le> k \<and> k < i + n)"

definition in_spans :: "span list \<Rightarrow> nat \<Rightarrow> bool" where
  "in_spans cs k \<longleftrightarrow> (\<exists>(a, b) \<in> set cs. a \<le> k \<and> k < b)"

lemma mask_next_emit_nth:
  assumes "i < length t" and "mask_next t False i = Emit e s" and "k < length s"
  shows "s ! k = t ! (i + k) \<or> discarded_at t (i + k)"
proof -
  have e: "e \<le> length t" "length s = e - i"
    using mask_next_le [OF assms(1), of False] mask_next_length [OF assms(1), of False] assms(2)
    by simp_all
  have "s = py_slice t i e \<or> (\<exists>n. form_discarded t i n \<and> e = i + n)"
    using assms(1,2)
    by (auto simp: mask_next_def Let_def py_slice_def take_Suc_conv_app_nth drop_eq_nth_cons
             split: if_splits prod.splits)
  then show ?thesis
  proof (elim disjE exE conjE)
    assume "s = py_slice t i e"
    then show ?thesis using e assms(3) by (simp add: nth_py_slice)
  next
    fix n
    assume "form_discarded t i n" "e = i + n"
    then have "discarded_at t (i + k)"
      unfolding discarded_at_def using e assms(3) by (intro exI [of _ i] exI [of _ n]) simp
    then show ?thesis ..
  qed
qed

lemma strip_comments_outside:
  assumes "k < length t" and "\<not> in_spans (comment_spans t) k" and "\<not> discarded_at t k"
  shows "strip_comments t ! k = t ! k"
proof -
  obtain out cs b where m: "mask_ec t False = (out, cs, b)" by (cases "mask_ec t False")
  let ?P = "\<lambda>i out cs b. length out = i \<and>
      (\<forall>k < i. out ! k = t ! k \<or> in_spans cs k \<or> discarded_at t k)"
  have "?P (length t) out cs b"
  proof (rule mask_ec_rule [where P = ?P, OF m])
    fix i out cs b
    assume i: "i < length t" and P: "?P i out cs b"
    show "case mask_next t False i of Emit e s \<Rightarrow> ?P e (out @ s) cs b
          | Comment e s b' \<Rightarrow> ?P e (out @ s) (cs @ [(i, e)]) b'"
    proof (cases "mask_next t False i")
      case (Emit e s)
      have "i < e" "length s = e - i"
        using mask_next_progress [OF i, of False] mask_next_length [OF i, of False] Emit by simp_all
      moreover have "(out @ s) ! k = t ! k \<or> in_spans cs k \<or> discarded_at t k" if "k < e" for k
        using that P mask_next_emit_nth [OF i Emit, of "k - i"] \<open>length s = e - i\<close>
        by (cases "k < i") (auto simp: nth_append diff_less_mono)
      ultimately show ?thesis using Emit P by simp
    next
      case (Comment e s b')
      have "i < e" "length s = e - i"
        using mask_next_progress [OF i, of False] mask_next_length [OF i, of False] Comment
        by simp_all
      moreover have "(out @ s) ! k = t ! k \<or> in_spans (cs @ [(i, e)]) k \<or> discarded_at t k"
        if "k < e" for k
        using that P by (cases "k < i") (auto simp: nth_append in_spans_def)
      ultimately show ?thesis using Comment P by simp
    qed
  qed simp
  then show ?thesis using assms m by (auto simp: strip_comments_def comment_spans_def)
qed

section \<open>Sentence ends\<close>

lemma sentence_ends_from_sound:
  "e \<in> set (sentence_ends_from t c i) \<Longrightarrow>
     i < e \<and> e \<le> length t \<and> c ! (e - 1) = dot \<and> (e = length t \<or> final_blank (t ! e))"
proof (induction t c i rule: sentence_ends_from.induct)
  case (1 t c i)
  have "Suc i = length t \<Longrightarrow> length t - Suc 0 = i" by simp
  with 1 show ?case by (auto simp: sentence_ends_from.simps [of t c i] split: if_splits)
qed

lemma sentence_ends_from_sorted: "sorted_wrt (<) (sentence_ends_from t c i)"
proof (induction t c i rule: sentence_ends_from.induct)
  case (1 t c i)
  then show ?case
    using sentence_ends_from_sound [of _ t c "Suc i"]
    by (auto simp: sentence_ends_from.simps [of t c i])
qed

lemma starts_at_two: "starts_at [x, y] t i \<longleftrightarrow> Suc i < length t \<and> t ! i = x \<and> t ! Suc i = y"
proof (cases "Suc i < length t")
  case True
  then have "drop i t = t ! i # t ! Suc i # drop (Suc (Suc i)) t"
    by (simp add: drop_eq_nth_cons)
  with True show ?thesis by (auto simp: starts_at_def)
next
  case False
  then show ?thesis using starts_at_length [of "[x, y]" t i] by auto
qed

lemma sentence_ends_from_complete:
  assumes "k < length t" "c ! k = dot" "k = 0 \<or> t ! (k - 1) \<noteq> dot"
    and "Suc k = length t \<or> final_blank (t ! Suc k)"
  shows "i \<le> k \<Longrightarrow> Suc k \<in> set (sentence_ends_from t c i)"
proof (induction "length t - i" arbitrary: i rule: less_induct)
  case less
  have nodot: "\<not> starts_at [dot, dot] t k"
    using assms(4) by (auto simp: starts_at_two final_blank_def)
  show ?case
  proof (cases "i = k")
    case True
    with nodot assms(1,2,4) show ?thesis by (auto simp: sentence_ends_from.simps [of t c k])
  next
    case False
    then have "i < k" using less.prems by simp
    moreover have "starts_at [dot, dot] t i \<Longrightarrow> k \<noteq> Suc i"
      using assms(3) by (auto simp: starts_at_two)
    ultimately show ?thesis
      using less.hyps [of "Suc i"] less.hyps [of "i + 2"] assms(1)
      by (auto simp: sentence_ends_from.simps [of t c i])
  qed
qed

section \<open>Splitting\<close>

lemma command_end_bounds [offset_bounds]:
  "e \<le> length t \<Longrightarrow> e \<le> command_end t e \<and> command_end t e \<le> length t"
  using run_length_le [of blank_or_tab t e] by (auto simp: command_end_def Let_def)

lemma isspace_simps [simp]:
  "py_isspace space" "py_isspace tab" "py_isspace newline" "\<not> py_isspace dot"
  by (simp_all add: py_isspace_def)

lemma command_end_blank:
  assumes "e \<le> k" and "k < command_end t e"
  shows "k < length t \<and> py_isspace (t ! k)"
proof (cases "k < e + run_length blank_or_tab t e")
  case True
  then have "k < length t \<and> blank_or_tab (t ! k)"
    using run_length_nth [of "k - e" blank_or_tab t e] assms(1) by simp
  then show ?thesis by (auto simp: blank_or_tab_def)
next
  case False
  then have "k = e + run_length blank_or_tab t e" "k < length t" "t ! k = newline"
    using assms by (auto simp: command_end_def Let_def less_Suc_eq split: if_splits)
  then show ?thesis by simp
qed

text \<open>The pieces before the tail are contiguous, and each is a text, a dot and blanks.\<close>

definition ended_piece :: "str \<Rightarrow> bool" where
  "ended_piece c \<longleftrightarrow> (\<exists>pre w. c = pre @ dot # w \<and> list_all py_isspace w)"

definition ends_ok :: "str \<Rightarrow> nat list \<Rightarrow> nat \<Rightarrow> bool" where
  "ends_ok t es i \<longleftrightarrow> sorted_wrt (<) es \<and>
     (\<forall>e \<in> set es. i < e \<and> e \<le> length t \<and> t ! (e - 1) = dot)"

lemma ends_ok_step:
  assumes "ends_ok t (e # es) i"
  shows "ends_ok t es (command_end t e)"
proof -
  have "command_end t e < e'" if "e' \<in> set es" for e'
  proof (rule ccontr)
    assume "\<not> command_end t e < e'"
    moreover have "e < e'" "t ! (e' - 1) = dot" using assms that by (auto simp: ends_ok_def)
    ultimately have "py_isspace (t ! (e' - 1))"
      using command_end_blank [of e "e' - 1" t] by linarith
    with \<open>t ! (e' - 1) = dot\<close> show False by simp
  qed
  with assms show ?thesis by (auto simp: ends_ok_def)
qed

lemma ended_piece_slice:
  assumes "start < e" "e \<le> length t" "t ! (e - 1) = dot"
  shows "ended_piece (py_slice t start (command_end t e))"
proof -
  have b: "e \<le> command_end t e" "command_end t e \<le> length t"
    using command_end_bounds [OF assms(2)] by auto
  have "py_slice t (e - 1) (command_end t e) = dot # py_slice t e (command_end t e)"
    using assms b py_slice_Cons [of "e - 1" "command_end t e" t] by simp
  then have "py_slice t start (command_end t e)
               = py_slice t start (e - 1) @ dot # py_slice t e (command_end t e)"
    using py_slice_split [of start "e - 1" "command_end t e" t] assms b by simp
  moreover have "list_all py_isspace (py_slice t e (command_end t e))"
    using command_end_blank [of e _ t] b
    by (auto simp: list_all_length nth_py_slice)
  ultimately show ?thesis by (auto simp: ended_piece_def)
qed

lemma split_at_ends_lossless:
  assumes "ends_ok t es start" "start \<le> length t" "split_at_ends t es start = (cs, s)"
  shows "s \<le> length t \<and> take start t @ concat cs = take s t \<and> list_all ended_piece cs"
  using assms
proof (induction es arbitrary: start cs)
  case Nil
  then show ?case by simp
next
  case (Cons e es)
  let ?e2 = "command_end t e"
  obtain cs' where cs': "split_at_ends t es ?e2 = (cs', s)" "cs = py_slice t start ?e2 # cs'"
    using Cons.prems(3) by (auto simp: Let_def split: prod.splits)
  have e: "start < e" "e \<le> length t" "t ! (e - 1) = dot"
    using Cons.prems(1) by (auto simp: ends_ok_def)
  have e2: "e \<le> ?e2" "?e2 \<le> length t" using command_end_bounds [OF e(2)] by auto
  have "s \<le> length t \<and> take ?e2 t @ concat cs' = take s t \<and> list_all ended_piece cs'"
    using Cons.IH [OF ends_ok_step [OF Cons.prems(1)] e2(2) cs'(1)] .
  moreover have "take start t @ py_slice t start ?e2 = take ?e2 t"
    using py_slice_split [of 0 start ?e2 t] e e2 by simp
  ultimately show ?case
    using cs'(2) ended_piece_slice [OF e] by (simp flip: append_assoc)
qed

lemma sentence_ends_ok: "ends_ok t (sentence_ends t (easycrypt_code t)) 0"
proof -
  have "t ! (e - 1) = dot"
    if "e \<in> set (sentence_ends_from t (easycrypt_code t) 0)" for e
  proof -
    have "0 < e \<and> e \<le> length t \<and> easycrypt_code t ! (e - 1) = dot"
      using sentence_ends_from_sound [OF that] by simp
    then show ?thesis using easycrypt_code_visible [of "e - 1" t] by auto
  qed
  then show ?thesis
    using sentence_ends_from_sorted [of t "easycrypt_code t" 0]
      sentence_ends_from_sound [of _ t "easycrypt_code t" 0]
    by (auto simp: ends_ok_def sentence_ends_def)
qed

lemma split_ec_commands_shape:
  obtains body rest where "split_ec_commands t = body @ (if py_strip rest = [] then [] else [py_strip rest])"
    and "concat body @ rest = t" and "list_all ended_piece body"
proof -
  obtain cs s where cs: "split_at_ends t (sentence_ends t (easycrypt_code t)) 0 = (cs, s)"
    by force
  have "s \<le> length t \<and> concat cs = take s t \<and> list_all ended_piece cs"
    using split_at_ends_lossless [OF sentence_ends_ok _ cs] by simp
  then have "concat cs @ drop s t = t" "list_all ended_piece cs" by auto
  moreover have "split_ec_commands t
      = cs @ (if py_strip (drop s t) = [] then [] else [py_strip (drop s t)])"
    using cs by (simp add: split_ec_commands_def Let_def)
  ultimately show thesis using that by blast
qed

lemma ended_piece_strip:
  assumes "ended_piece c"
  shows "py_strip c \<noteq> [] \<and> ends_with [dot] (py_strip c)"
proof -
  obtain pre w where c: "c = (pre @ [dot]) @ w" "list_all py_isspace w"
    using assms by (auto simp: ended_piece_def)
  have "\<exists>q. py_lstrip c = (q @ [dot]) @ w"
    using c(1) by (auto simp: py_lstrip_def lstrip_by_def dropWhile_append)
  then obtain q where q: "py_lstrip c = (q @ [dot]) @ w" by blast
  have "rstrip_by py_isspace ((q @ [dot]) @ w) = q @ [dot]"
    using c(2) by (simp add: rstrip_by_def dropWhile_append list_all_iff)
  then show ?thesis using q by (simp add: py_strip_def py_rstrip_def ends_with_iff)
qed

lemma split_tactic_chain_shape:
  obtains ts last_tactic where
    "split_tactic_chain t = ts @ last_tactic"
    and "\<forall>x \<in> set ts. x \<noteq> [] \<and> py_strip x = x \<and> ends_with [dot] x"
    and "last_tactic = [] \<or> (\<exists>x. last_tactic = [x] \<and> py_strip x = x \<and> ends_with [dot] x)"
proof -
  obtain body rest where b:
      "split_ec_commands t = body @ (if py_strip rest = [] then [] else [py_strip rest])"
      "list_all ended_piece body"
    using split_ec_commands_shape .
  define ts where "ts = map py_strip body"
  have ts: "\<forall>x \<in> set ts. x \<noteq> [] \<and> py_strip x = x \<and> ends_with [dot] x"
    using b(2) ended_piece_strip by (auto simp: ts_def list_all_iff)
  then have keep: "filter (\<lambda>s. s \<noteq> []) ts = ts" by (simp add: filter_id_conv)
  show thesis
  proof (cases "py_strip rest = []")
    case True
    then have "filter (\<lambda>s. s \<noteq> []) (map py_strip (split_ec_commands t)) = ts"
      using b(1) keep by (simp add: ts_def)
    moreover have "ts \<noteq> [] \<Longrightarrow> ends_with [dot] (last ts)" using ts by simp
    ultimately have "split_tactic_chain t = ts @ []"
      by (auto simp: split_tactic_chain_def Let_def)
    then show thesis using that ts by blast
  next
    case False
    let ?r = "py_strip rest"
    define x where "x = (if ends_with [dot] ?r then ?r else ?r @ [dot])"
    have "filter (\<lambda>s. s \<noteq> []) (map py_strip (split_ec_commands t)) = ts @ [?r]"
      using b(1) keep False by (simp add: ts_def)
    then have "split_tactic_chain t = ts @ [x]"
      by (simp add: split_tactic_chain_def Let_def x_def)
    moreover have "ends_with [dot] x" by (simp add: x_def ends_with_iff)
    moreover have "py_strip x = x"
      using False py_strip_ends [OF False] by (auto simp: x_def intro!: py_strip_id)
    ultimately show thesis using that [of ts "[x]"] ts by blast
  qed
qed

section \<open>Tokens\<close>

lemma token_start_ichar: "token_start c \<Longrightarrow> ichar c"
  by (auto simp: token_start_def ichar_def)

lemma re_match_TOKEN:
  "re_match TOKEN_RE c p =
     (if p < length c \<and> token_start (c ! p) then Some (Suc p + run_length ichar c (Suc p), [])
      else None)"
  by (simp add: TOKEN_RE_def re_match_Cls_Star)

lemma token_match_stays_left:
  assumes "p < i" "i \<le> length c" "\<not> ichar (c ! (i - 1))" "re_match TOKEN_RE c p = Some (j, g)"
  shows "j < i"
proof (rule ccontr)
  assume "\<not> j < i"
  have j: "token_start (c ! p)" "j = Suc p + run_length ichar c (Suc p)"
    using assms(4) by (auto simp: re_match_TOKEN split: if_splits)
  show False
  proof (cases "p = i - 1")
    case True
    with j(1) assms(3) show False by (simp add: token_start_ichar)
  next
    case False
    then have "i - 1 - Suc p < run_length ichar c (Suc p)"
      using assms(1) j(2) \<open>\<not> j < i\<close> by linarith
    then have "ichar (c ! (Suc p + (i - 1 - Suc p)))" using run_length_nth by blast
    moreover have "Suc p + (i - 1 - Suc p) = i - 1" using False assms(1) by linarith
    ultimately show False using assms(3) by metis
  qed
qed

lemma finditer_token:
  assumes "i < length c" "token_start (c ! i)" "i = 0 \<or> \<not> ichar (c ! (i - 1))"
  shows "p \<le> i \<Longrightarrow>
    (i, Suc i + run_length ichar c (Suc i), []) \<in> set (re_finditer_from TOKEN_RE c p)"
proof (induction "i - p" arbitrary: p rule: less_induct)
  case less
  show ?case
  proof (cases "p = i")
    case True
    then show ?thesis using assms by (simp add: re_finditer_from.simps [of _ c i] re_match_TOKEN)
  next
    case False
    then have p: "p < i" "\<not> length c < p" "\<not> ichar (c ! (i - 1))" using less.prems assms by auto
    show ?thesis
    proof (cases "re_match TOKEN_RE c p")
      case None
      then show ?thesis
        using less.hyps [of "Suc p"] p by (simp add: re_finditer_from.simps [of _ c p])
    next
      case (Some m)
      obtain j g where m: "m = (j, g)" by force
      have "j < i" using token_match_stays_left [OF p(1) _ p(3)] Some m assms(1) by simp
      then have "max j (Suc p) \<le> i" "i - max j (Suc p) < i - p" using p(1) by auto
      from less.hyps [OF this(2,1)] show ?thesis
        using Some m p by (simp add: re_finditer_from.simps [of _ c p])
    qed
  qed
qed

text \<open>A whole-word occurrence of a word in a text.\<close>

definition word_occurs :: "str \<Rightarrow> str \<Rightarrow> nat \<Rightarrow> bool" where
  "word_occurs w c i \<longleftrightarrow>
     starts_at w c i \<and> (i = 0 \<or> \<not> ichar (c ! (i - 1)))
     \<and> (i + length w < length c \<longrightarrow> \<not> ichar (c ! (i + length w)))"

definition is_identifier :: "str \<Rightarrow> bool" where
  "is_identifier w \<longleftrightarrow> w \<noteq> [] \<and> token_start (hd w) \<and> list_all ichar w"

lemma run_length_word:
  assumes "starts_at w c i" "is_identifier w"
    and "i + length w < length c \<longrightarrow> \<not> ichar (c ! (i + length w))"
  shows "Suc i + run_length ichar c (Suc i) = i + length w"
proof -
  have w: "w \<noteq> []" "i + length w \<le> length c"
    using assms(1,2) starts_at_length [of w c i] by (auto simp: is_identifier_def)
  obtain u where u: "drop i c = w @ u" using assms(1) by (auto simp: starts_at_def starts_with_iff)
  obtain x w' where x: "w = x # w'" using w(1) by (cases w) auto
  have "drop (Suc i) c = w' @ u" using u x by (metis drop_Suc list.sel(3) append_Cons tl_drop)
  moreover have "list_all ichar w'" using assms(2) x by (simp add: is_identifier_def)
  moreover have "takeWhile ichar u = []"
  proof (cases u)
    case (Cons y ys)
    have "length (drop i c) = length w + length u" using u by simp
    then have l: "i + length w < length c" using Cons w by simp
    then have "y = c ! (i + length w)"
      using Cons u nth_drop [of i c "length w"] by (simp add: nth_append)
    with l have "i + length w < length c \<and> y = c ! (i + length w)" ..
    then show ?thesis using assms(3) Cons by simp
  qed simp
  ultimately have "run_length ichar c (Suc i) = length w'"
    by (simp add: run_length_def takeWhile_append2 list_all_iff takeWhile_append)
  then show ?thesis using x by simp
qed

lemma keyword_found:
  assumes "word_occurs w c i" "is_identifier w" "w \<in> set ks"
  shows "w \<in> set (keywords_in c ks)"
proof -
  have s: "starts_at w c i" "w \<noteq> []" "i + length w \<le> length c"
    using assms(1,2) starts_at_length [of w c i] by (auto simp: word_occurs_def is_identifier_def)
  have "token_start (c ! i)"
    using starts_at_nth [OF s(1), of 0] s(2) assms(2) by (simp add: is_identifier_def hd_conv_nth)
  moreover have "i < length c" using s by (cases w) auto
  ultimately have "(i, Suc i + run_length ichar c (Suc i), []) \<in> set (re_finditer TOKEN_RE c)"
    using finditer_token [of i c 0] assms(1) by (simp add: re_finditer_def word_occurs_def)
  then have "(i, i + length w, []) \<in> set (re_finditer TOKEN_RE c)"
    using run_length_word [OF s(1) assms(2)] assms(1) by (metis word_occurs_def)
  moreover have "match_text c (i, i + length w, []) = w"
    using s(1) by (auto simp: match_text_def py_slice_def starts_at_def starts_with_iff)
  ultimately show ?thesis using assms(3) by (force simp: keywords_in_def)
qed

lemma unchecked_keyword_found:
  assumes "word_occurs w (easycrypt_code t) i" "w \<in> set UNCHECKED_KEYWORDS"
  shows "w \<in> set (unchecked_proof_constructs t)"
proof -
  have "is_identifier w" using assms(2)
    by (auto simp: UNCHECKED_KEYWORDS_def is_identifier_def token_start_def ichar_def is_alpha_def
        is_lower_def in_range_def)
  then show ?thesis
    using keyword_found [OF assms(1) _ assms(2)]
    by (simp add: unchecked_proof_constructs_def Let_def)
qed

section \<open>Properties\<close>

text \<open>Masking keeps positions: both masks have the length of the source, and at every
  offset the character is the source's own or a blank, with newlines exactly where the source
  has them, so offsets and line numbers found in the mask are valid in the source.\<close>

lemma mask_keeps_positions:
  assumes "k < length t"
  shows "length (strip_comments t) = length t \<and> length (easycrypt_code t) = length t
    \<and> (\<forall>u \<in> {strip_comments t, easycrypt_code t}.
          (u ! k = t ! k \<or> u ! k = space) \<and> (u ! k = newline \<longleftrightarrow> t ! k = newline))"
  using masks_nth [OF masks_easycrypt_code assms] masks_nth [OF masks_strip_comments assms]
  by (auto simp: blank_char_def split: if_splits)

text \<open>The reported comment spans are disjoint and in source order, each starts with a
  comment opener, lies inside the source and is blanked in the mask; each ends with a comment
  closer unless it is the last one and the source ends inside it, which is exactly when
  \<^verbatim>\<open>has_unterminated_comment\<close> holds.\<close>

lemma comment_spans_are_comments:
  "spans_ordered (comment_spans t)
   \<and> (\<forall>s \<in> set (comment_spans t).
        comment_at t (strip_comments t) s
          (has_unterminated_comment t \<and> s = last (comment_spans t)))
   \<and> (has_unterminated_comment t \<longrightarrow> comment_spans t \<noteq> [])"
  using mask_ec_spans_inv [of t False "strip_comments t" "comment_spans t" "has_unterminated_comment t"]
  by (simp add: spans_inv_def strip_comments_def comment_spans_def has_unterminated_comment_def)

text \<open>Nothing else is blanked: an offset that lies in no comment span and in no operator
  form that the lexer discards keeps its character in \<^verbatim>\<open>strip_comments\<close>.\<close>

lemma strip_comments_keeps_code:
  assumes "k < length t" "\<not> in_spans (comment_spans t) k" "\<not> discarded_at t k"
  shows "strip_comments t ! k = t ! k"
  using strip_comments_outside [OF assms] .

text \<open>C35. The sentence ends of a source are strictly increasing offsets inside it; each lies
  just past a dot that is neither in a comment nor in a string literal and is followed by a
  blank, a newline or the end. Conversely every such dot that does not follow another dot is
  reported.\<close>

theorem sentence_ends_exact:
  "sorted_wrt (<) (sentence_ends t (easycrypt_code t))
   \<and> (\<forall>e \<in> set (sentence_ends t (easycrypt_code t)).
        0 < e \<and> e \<le> length t \<and> easycrypt_code t ! (e - 1) = dot \<and> t ! (e - 1) = dot
        \<and> (e = length t \<or> final_blank (t ! e)))
   \<and> (\<forall>k < length t. easycrypt_code t ! k = dot \<longrightarrow> (k = 0 \<or> t ! (k - 1) \<noteq> dot) \<longrightarrow>
        (Suc k = length t \<or> final_blank (t ! Suc k)) \<longrightarrow>
        Suc k \<in> set (sentence_ends t (easycrypt_code t)))"
  using sentence_ends_from_sorted [of t "easycrypt_code t" 0]
    sentence_ends_from_sound [of _ t "easycrypt_code t" 0] sentence_ends_ok [of t]
    sentence_ends_from_complete [of _ t "easycrypt_code t" 0]
  by (auto simp: sentence_ends_def ends_ok_def)

theorem sentence_ends_exact_witness:
  "Suc 3 \<in> set (sentence_ends ''qed.'' (easycrypt_code ''qed.''))"
proof -
  have c: "easycrypt_code ''qed.'' ! 3 = dot" by code_simp
  show ?thesis
    by (rule sentence_ends_exact [of "''qed.''", THEN conjunct2, THEN conjunct2, rule_format])
       (use c in simp_all)
qed



text \<open>Every tactic of a chain request is a stripped, non-empty text that ends in a dot, so
  the backend receives complete sentences only.\<close>

lemma split_tactic_chain_sentences:
  assumes "x \<in> set (split_tactic_chain t)"
  shows "x \<noteq> [] \<and> py_strip x = x \<and> ends_with [dot] x"
proof -
  obtain ts last_tactic where "split_tactic_chain t = ts @ last_tactic"
    "\<forall>x \<in> set ts. x \<noteq> [] \<and> py_strip x = x \<and> ends_with [dot] x"
    "last_tactic = [] \<or> (\<exists>x. last_tactic = [x] \<and> py_strip x = x \<and> ends_with [dot] x)"
    using split_tactic_chain_shape .
  with assms show ?thesis by (auto simp: ends_with_iff)
qed

text \<open>A transaction passes the undo test exactly when no sentence of it, with comments
  and leading bullets taken off, starts with a command that EasyCrypt's undo cannot revert; a
  refused transaction is refused with such a sentence.\<close>

lemma undo_unsafe_sentence_exact:
  "(undo_unsafe_sentence tr = [] \<longleftrightarrow>
      (\<forall>s \<in> set (split_ec_commands tr). \<not> undo_unsafe (py_strip (strip_comments s))))
   \<and> (undo_unsafe_sentence tr \<noteq> [] \<longrightarrow>
        undo_unsafe (undo_unsafe_sentence tr)
        \<and> (\<exists>s \<in> set (split_ec_commands tr). undo_unsafe_sentence tr = py_strip (strip_comments s)))"
proof -
  have nil: "\<not> undo_unsafe []" by code_simp
  have "(first_undo_unsafe ss = [] \<longleftrightarrow>
          (\<forall>s \<in> set ss. \<not> undo_unsafe (py_strip (strip_comments s))))
        \<and> (first_undo_unsafe ss \<noteq> [] \<longrightarrow> undo_unsafe (first_undo_unsafe ss)
             \<and> (\<exists>s \<in> set ss. first_undo_unsafe ss = py_strip (strip_comments s)))" for ss
    using nil by (induction ss) (auto simp: Let_def)
  then show ?thesis by (simp add: undo_unsafe_sentence_def)
qed

text \<open>C8. No unchecked goal slips through: when one of the keywords \<^verbatim>\<open>admit\<close>, \<^verbatim>\<open>admitted\<close>,
  \<^verbatim>\<open>exit\<close> or \<^verbatim>\<open>abort\<close> occurs as a whole word in the source outside comments and string
  literals, \<^verbatim>\<open>unchecked_proof_constructs\<close> reports it, and a tactic list that contains such
  a source is flagged.\<close>

theorem unchecked_keyword_reported:
  assumes "word_occurs w (easycrypt_code t) i" "w \<in> set UNCHECKED_KEYWORDS"
  shows "w \<in> set (unchecked_proof_constructs t)
    \<and> (t \<in> set tactics \<longrightarrow> tactics_contain_admit tactics)"
  using unchecked_keyword_found [OF assms] by (force simp: tactics_contain_admit_def list_ex_iff)

theorem unchecked_keyword_reported_witness:
  "''admit'' \<in> set (unchecked_proof_constructs ''by (* ok *) admit.'')"
proof -
  have "easycrypt_code ''by (* ok *) admit.'' = ''by          admit.''" by code_simp
  moreover have "word_occurs ''admit'' ''by          admit.'' 12" by code_simp
  ultimately show ?thesis
    using unchecked_keyword_reported [of "''admit''" "''by (* ok *) admit.''" 12]
    by (simp add: UNCHECKED_KEYWORDS_def)
qed

end
