(* ===== verification/Event_Guard.thy ===== *)
theory Event_Guard
  imports Py_Dict "HOL-Library.List_Lexorder" "HOL-Library.Char_ord"
begin

text \<open>
  The provider-neutral event lifecycle of
  \<^verbatim>\<open>src/workflow/provider/provider_event_lifecycle.py\<close> and the tool identities of
  \<^verbatim>\<open>src/workflow/proof_tool/proof_tool_contract.py\<close>: the guard state, one definition per
  method (\<open>observe_order\<close>, \<open>observe_tool_started\<close>, \<open>observe_tool_completed\<close>, \<open>observe\<close>,
  \<open>finish\<close>), and the audit of a recorded invocation. An event kind is a datatype, so the
  source's branch for an unknown kind has no counterpart; the raw tool arguments that an event
  carries are read by no method of the guard and are left out. The theorems give the meaning
  of a clean audit as a property of the event sequence alone.
\<close>

section \<open>Tool identities\<close>

record tool_identity =
  ti_server :: str
  ti_tool :: str

datatype guard_error = ValueError str | RuntimeError str | TypeError str

definition ToolIdentity :: "str \<Rightarrow> str \<Rightarrow> guard_error + tool_identity" where
  "ToolIdentity server tool =
     (if py_strip server = [] then Inl (ValueError ''tool server identity must be a non-empty string'')
      else if py_strip tool = [] then Inl (ValueError ''tool name identity must be a non-empty string'')
      else Inr \<lparr>ti_server = py_strip server, ti_tool = py_strip tool\<rparr>)"

definition PROOF_TOOL_IDENTITY :: tool_identity where
  "PROOF_TOOL_IDENTITY = \<lparr>ti_server = ''proof_node_manager'', ti_tool = ''submit_proof_intent''\<rparr>"

definition SOURCE_READ_TOOL_IDENTITY :: tool_identity where
  "SOURCE_READ_TOOL_IDENTITY =
     \<lparr>ti_server = ''proof_node_manager'', ti_tool = ''read_easycrypt_source''\<rparr>"

definition SOURCE_SEARCH_TOOL_IDENTITY :: tool_identity where
  "SOURCE_SEARCH_TOOL_IDENTITY =
     \<lparr>ti_server = ''proof_node_manager'', ti_tool = ''search_easycrypt_source''\<rparr>"

definition DECLARATION_RESOLVE_TOOL_IDENTITY :: tool_identity where
  "DECLARATION_RESOLVE_TOOL_IDENTITY =
     \<lparr>ti_server = ''proof_node_manager'', ti_tool = ''resolve_easycrypt_declaration''\<rparr>"

definition manifest_tool_identities :: "bool \<Rightarrow> tool_identity list" where
  "manifest_tool_identities source_navigation_enabled =
     (if source_navigation_enabled
      then [PROOF_TOOL_IDENTITY, SOURCE_READ_TOOL_IDENTITY, SOURCE_SEARCH_TOOL_IDENTITY,
            DECLARATION_RESOLVE_TOOL_IDENTITY]
      else [PROOF_TOOL_IDENTITY])"

section \<open>Events, policies, state\<close>

datatype agent_event_kind =
    INVOCATION_STARTED | TURN_STARTED | TOOL_STARTED | TOOL_COMPLETED | MESSAGE_COMPLETED
  | PASSIVE | PROVIDER_NOTICE | TERMINAL_COMPLETED | TERMINAL_FAILED | PROVIDER_ERROR

fun kind_value :: "agent_event_kind \<Rightarrow> str" where
  "kind_value INVOCATION_STARTED = ''invocation_started''"
| "kind_value TURN_STARTED = ''turn_started''"
| "kind_value TOOL_STARTED = ''tool_started''"
| "kind_value TOOL_COMPLETED = ''tool_completed''"
| "kind_value MESSAGE_COMPLETED = ''message_completed''"
| "kind_value PASSIVE = ''passive''"
| "kind_value PROVIDER_NOTICE = ''provider_notice''"
| "kind_value TERMINAL_COMPLETED = ''terminal_completed''"
| "kind_value TERMINAL_FAILED = ''terminal_failed''"
| "kind_value PROVIDER_ERROR = ''provider_error''"

definition HOST_METADATA_CAPABILITY :: str where
  "HOST_METADATA_CAPABILITY = ''host_metadata''"

record agent_event =
  ev_invocation_id :: str
  ev_provider :: str
  ev_kind :: agent_event_kind
  ev_raw_event_type :: str
  ev_session_id :: str
  ev_item_id :: str
  ev_tool :: "tool_identity option"
  ev_capability :: str
  ev_host_metadata_arguments_valid :: "bool option"
  ev_host_metadata_result_empty :: "bool option"

record capability_policy =
  allowed_tools :: "tool_identity list"
  allowed_provider_capabilities :: "str list"
  allow_empty_host_metadata :: bool
  allow_all_known_tools :: bool

definition proof_eval_policy :: "bool \<Rightarrow> bool \<Rightarrow> capability_policy" where
  "proof_eval_policy source_navigation_enabled allow_empty =
     \<lparr>allowed_tools = manifest_tool_identities source_navigation_enabled,
      allowed_provider_capabilities = [],
      allow_empty_host_metadata = allow_empty, allow_all_known_tools = False\<rparr>"

record lifecycle_requirements =
  require_invocation_started :: bool
  require_turn_started :: bool
  require_terminal :: bool
  require_completed_message :: bool
  require_process_exit :: bool
  fail_on_provider_error :: bool

definition default_requirements :: lifecycle_requirements where
  "default_requirements =
     \<lparr>require_invocation_started = True, require_turn_started = False, require_terminal = True,
      require_completed_message = True, require_process_exit = True,
      fail_on_provider_error = True\<rparr>"

definition tool_policy_only :: lifecycle_requirements where
  "tool_policy_only =
     \<lparr>require_invocation_started = False, require_turn_started = False, require_terminal = False,
      require_completed_message = False, require_process_exit = False,
      fail_on_provider_error = True\<rparr>"

record pending_tool =
  pt_tool :: tool_identity
  pt_capability :: str

record guard =
  g_invocation_id :: str
  g_provider :: str
  g_policy :: capability_policy
  g_requirements :: lifecycle_requirements
  g_pending :: "(str, pending_tool) dict"
  g_seen_item_ids :: "str list"
  g_violations :: "str list"
  g_invocation_started :: nat
  g_turn_started :: nat
  g_completed_messages :: nat
  g_terminals :: "agent_event_kind list"
  g_proof_tool_started :: nat
  g_proof_tool_completed :: nat
  g_source_reads :: nat
  g_source_searches :: nat
  g_declaration_resolutions :: nat
  g_host_metadata_calls :: nat
  g_provider_errors :: nat
  g_events_observed :: nat
  g_provider_notices :: "str list"
  g_finished :: bool

definition new_guard ::
  "str \<Rightarrow> str \<Rightarrow> capability_policy \<Rightarrow> lifecycle_requirements \<Rightarrow> guard" where
  "new_guard invocation_id provider policy requirements =
     \<lparr>g_invocation_id = invocation_id, g_provider = provider, g_policy = policy,
      g_requirements = requirements, g_pending = [], g_seen_item_ids = [], g_violations = [],
      g_invocation_started = 0, g_turn_started = 0, g_completed_messages = 0, g_terminals = [],
      g_proof_tool_started = 0, g_proof_tool_completed = 0, g_source_reads = 0,
      g_source_searches = 0, g_declaration_resolutions = 0, g_host_metadata_calls = 0,
      g_provider_errors = 0, g_events_observed = 0, g_provider_notices = [],
      g_finished = False\<rparr>"

definition guard_init ::
  "str \<Rightarrow> str \<Rightarrow> capability_policy \<Rightarrow> lifecycle_requirements \<Rightarrow> guard_error + guard" where
  "guard_init invocation_id provider policy requirements =
     (if invocation_id = [] then Inl (ValueError ''event lifecycle requires an invocation identity'')
      else if provider = [] then Inl (ValueError ''event lifecycle requires a provider name'')
      else Inr (new_guard invocation_id provider policy requirements))"

section \<open>Violation messages\<close>

definition V_AFTER_FINAL :: str where
  "V_AFTER_FINAL = ''event observed after invocation finalization''"
definition V_INVOCATION :: str where
  "V_INVOCATION = ''provider event crossed invocation identity''"
definition V_PROVIDER :: str where
  "V_PROVIDER = ''provider event changed provider identity''"
definition V_AFTER_TERMINAL :: str where
  "V_AFTER_TERMINAL = ''provider event arrived after terminal event''"
definition V_NO_SESSION :: str where
  "V_NO_SESSION = ''provider invocation is missing session identity''"
definition V_TWO_STARTS :: str where
  "V_TWO_STARTS = ''provider invocation started more than once''"
definition V_TWO_TURNS :: str where
  "V_TWO_TURNS = ''provider turn started more than once''"
definition V_TWO_TERMINALS :: str where
  "V_TWO_TERMINALS = ''provider emitted more than one terminal event''"
definition V_LATE_START :: str where
  "V_LATE_START = ''provider invocation start arrived after other events''"
definition V_TURN_EARLY :: str where
  "V_TURN_EARLY = ''provider turn started before invocation start''"
definition V_TURN_ORDER :: str where
  "V_TURN_ORDER = ''provider turn start was out of order''"
definition V_BEFORE_START :: str where
  "V_BEFORE_START = ''provider event arrived before invocation start''"
definition V_BEFORE_TURN :: str where
  "V_BEFORE_TURN = ''provider event arrived before turn start''"
definition V_TERMINAL_PENDING :: str where
  "V_TERMINAL_PENDING = ''provider terminal arrived before tool calls completed''"
definition V_TERMINAL_SILENT :: str where
  "V_TERMINAL_SILENT = ''provider terminal arrived before completed agent message''"
definition V_START_NO_ITEM :: str where
  "V_START_NO_ITEM = ''provider tool start is missing item identity''"
definition V_ITEM_REUSED :: str where
  "V_ITEM_REUSED = ''provider tool item identity was reused''"
definition V_START_NO_TOOL :: str where
  "V_START_NO_TOOL = ''provider tool start is missing tool identity''"
definition V_META_DISABLED :: str where
  "V_META_DISABLED = ''provider host metadata capability is disabled''"
definition V_META_ARGS :: str where
  "V_META_ARGS = ''provider host metadata arguments are invalid''"
definition V_DISABLED_TOOL :: str where
  "V_DISABLED_TOOL = ''provider attempted a disabled tool: ''"
definition V_DONE_NO_ITEM :: str where
  "V_DONE_NO_ITEM = ''provider tool completion is missing item identity''"
definition V_DONE_UNMATCHED :: str where
  "V_DONE_UNMATCHED = ''provider tool completed without matching start''"
definition V_TOOL_CHANGED :: str where
  "V_TOOL_CHANGED = ''provider tool identity changed before completion''"
definition V_CAPABILITY_CHANGED :: str where
  "V_CAPABILITY_CHANGED = ''provider tool capability changed before completion''"
definition V_META_CONTENT :: str where
  "V_META_CONTENT = ''provider host metadata returned non-empty or invalid content''"
definition V_PENDING :: str where
  "V_PENDING = ''provider tool calls did not complete: ''"
definition V_ONE_START :: str where
  "V_ONE_START = ''expected exactly one invocation-start event''"
definition V_ONE_TURN :: str where
  "V_ONE_TURN = ''expected exactly one turn-start event''"
definition V_ONE_TERMINAL :: str where
  "V_ONE_TERMINAL = ''expected exactly one terminal turn event''"
definition V_NO_MESSAGE :: str where
  "V_NO_MESSAGE = ''expected at least one completed agent message''"
definition V_NO_EXIT :: str where
  "V_NO_EXIT = ''provider process exit is missing''"
definition V_COMPLETED_NONZERO :: str where
  "V_COMPLETED_NONZERO = ''provider completed turn but process exited nonzero''"
definition V_FAILED_ZERO :: str where
  "V_FAILED_ZERO = ''provider failed turn but process exited successfully''"
definition V_PROVIDER_ERROR :: str where
  "V_PROVIDER_ERROR = ''provider error event was observed''"

lemma strip_cons_nonblank: "\<not> py_isspace c \<Longrightarrow> py_strip (c # cs) \<noteq> []"
  by (simp add: py_strip_Nil_iff)

lemmas message_defs =
  V_AFTER_FINAL_def V_INVOCATION_def V_PROVIDER_def V_AFTER_TERMINAL_def V_NO_SESSION_def
  V_TWO_STARTS_def V_TWO_TURNS_def V_TWO_TERMINALS_def V_LATE_START_def V_TURN_EARLY_def
  V_TURN_ORDER_def V_BEFORE_START_def V_BEFORE_TURN_def V_TERMINAL_PENDING_def
  V_TERMINAL_SILENT_def V_START_NO_ITEM_def V_ITEM_REUSED_def V_START_NO_TOOL_def
  V_META_DISABLED_def V_META_ARGS_def V_DISABLED_TOOL_def V_DONE_NO_ITEM_def
  V_DONE_UNMATCHED_def V_TOOL_CHANGED_def V_CAPABILITY_CHANGED_def V_META_CONTENT_def
  V_PENDING_def V_ONE_START_def V_ONE_TURN_def V_ONE_TERMINAL_def V_NO_MESSAGE_def V_NO_EXIT_def
  V_COMPLETED_NONZERO_def V_FAILED_ZERO_def V_PROVIDER_ERROR_def

lemma pe_not_space: "\<not> py_isspace CHR ''p''" "\<not> py_isspace CHR ''e''"
  by (simp_all add: py_isspace_def)

lemma messages_nonblank [simp]:
  "py_strip V_AFTER_FINAL \<noteq> []" "py_strip V_INVOCATION \<noteq> []" "py_strip V_PROVIDER \<noteq> []"
  "py_strip V_AFTER_TERMINAL \<noteq> []" "py_strip V_NO_SESSION \<noteq> []" "py_strip V_TWO_STARTS \<noteq> []"
  "py_strip V_TWO_TURNS \<noteq> []" "py_strip V_TWO_TERMINALS \<noteq> []" "py_strip V_LATE_START \<noteq> []"
  "py_strip V_TURN_EARLY \<noteq> []" "py_strip V_TURN_ORDER \<noteq> []" "py_strip V_BEFORE_START \<noteq> []"
  "py_strip V_BEFORE_TURN \<noteq> []" "py_strip V_TERMINAL_PENDING \<noteq> []"
  "py_strip V_TERMINAL_SILENT \<noteq> []" "py_strip V_START_NO_ITEM \<noteq> []"
  "py_strip V_ITEM_REUSED \<noteq> []" "py_strip V_START_NO_TOOL \<noteq> []" "py_strip V_META_DISABLED \<noteq> []"
  "py_strip V_META_ARGS \<noteq> []" "py_strip (V_DISABLED_TOOL @ x) \<noteq> []"
  "py_strip V_DONE_NO_ITEM \<noteq> []" "py_strip V_DONE_UNMATCHED \<noteq> []"
  "py_strip V_TOOL_CHANGED \<noteq> []" "py_strip V_CAPABILITY_CHANGED \<noteq> []"
  "py_strip V_META_CONTENT \<noteq> []" "py_strip (V_PENDING @ x) \<noteq> []" "py_strip V_ONE_START \<noteq> []"
  "py_strip V_ONE_TURN \<noteq> []" "py_strip V_ONE_TERMINAL \<noteq> []" "py_strip V_NO_MESSAGE \<noteq> []"
  "py_strip V_NO_EXIT \<noteq> []" "py_strip V_COMPLETED_NONZERO \<noteq> []" "py_strip V_FAILED_ZERO \<noteq> []"
  "py_strip V_PROVIDER_ERROR \<noteq> []"
  unfolding message_defs append_Cons by (rule strip_cons_nonblank, rule pe_not_space)+

section \<open>The guard's methods\<close>

definition record_violation :: "str \<Rightarrow> guard \<Rightarrow> guard" where
  "record_violation reason g =
     (if py_strip reason = [] then g
      else g\<lparr>g_violations := g_violations g @ [py_strip reason]\<rparr>)"

text \<open>\<open>if b: self.record_violation(v)\<close>.\<close>

definition check :: "bool \<Rightarrow> str \<Rightarrow> guard \<Rightarrow> guard" where
  "check b v g = (if b then record_violation v g else g)"

definition has_pending_tool_calls :: "guard \<Rightarrow> bool" where
  "has_pending_tool_calls g = (g_pending g \<noteq> [])"

definition is_terminal :: "agent_event_kind \<Rightarrow> bool" where
  "is_terminal k \<longleftrightarrow> k = TERMINAL_COMPLETED \<or> k = TERMINAL_FAILED"

definition observe_order :: "agent_event_kind \<Rightarrow> guard \<Rightarrow> guard" where
  "observe_order k g =
     (if k = INVOCATION_STARTED then check (g_events_observed g \<noteq> 0) V_LATE_START g
      else if k = TURN_STARTED then
        check (g_turn_started g \<noteq> 0 \<or> g_completed_messages g \<noteq> 0 \<or> g_terminals g \<noteq> []) V_TURN_ORDER
          (check (g_invocation_started g \<noteq> 1) V_TURN_EARLY g)
      else
        (let g1 = check (require_invocation_started (g_requirements g)
                         \<and> g_invocation_started g \<noteq> 1) V_BEFORE_START g;
             g2 = check (require_turn_started (g_requirements g)
                         \<and> g_turn_started g \<noteq> 1) V_BEFORE_TURN g1
         in if is_terminal k then
              check (require_completed_message (g_requirements g) \<and> g_completed_messages g < 1
                     \<and> k \<noteq> TERMINAL_FAILED) V_TERMINAL_SILENT
                (check (g_pending g \<noteq> []) V_TERMINAL_PENDING g2)
            else g2))"

definition count_proof_tool_started :: "tool_identity \<Rightarrow> guard \<Rightarrow> guard" where
  "count_proof_tool_started tool g =
     (if tool = PROOF_TOOL_IDENTITY
      then g\<lparr>g_proof_tool_started := Suc (g_proof_tool_started g)\<rparr> else g)"

definition observe_tool_started :: "agent_event \<Rightarrow> guard \<Rightarrow> guard" where
  "observe_tool_started ev g =
     (if ev_item_id ev = [] then record_violation V_START_NO_ITEM g
      else if ev_item_id ev \<in> set (g_seen_item_ids g) then record_violation V_ITEM_REUSED g
      else case ev_tool ev of
        None \<Rightarrow> record_violation V_START_NO_TOOL g
      | Some tool \<Rightarrow>
          (let g1 = g\<lparr>g_seen_item_ids := g_seen_item_ids g @ [ev_item_id ev],
                      g_pending := dict_set (ev_item_id ev)
                        \<lparr>pt_tool = tool, pt_capability = ev_capability ev\<rparr> (g_pending g)\<rparr>;
               pol = g_policy g
           in if allow_all_known_tools pol then count_proof_tool_started tool g1
              else if ev_capability ev = HOST_METADATA_CAPABILITY then
                check (ev_host_metadata_arguments_valid ev \<noteq> Some True) V_META_ARGS
                  (check (\<not> allow_empty_host_metadata pol) V_META_DISABLED g1)
              else if tool \<in> set (allowed_tools pol) then count_proof_tool_started tool g1
              else if ev_capability ev \<in> set (allowed_provider_capabilities pol) then g1
              else record_violation
                     (V_DISABLED_TOOL @ ti_server tool @ '':'' @ ti_tool tool) g1))"

definition count_tool_completed :: "tool_identity \<Rightarrow> guard \<Rightarrow> guard" where
  "count_tool_completed tool g =
     (if tool = PROOF_TOOL_IDENTITY
      then g\<lparr>g_proof_tool_completed := Suc (g_proof_tool_completed g)\<rparr>
      else if tool = SOURCE_READ_TOOL_IDENTITY
      then g\<lparr>g_source_reads := Suc (g_source_reads g)\<rparr>
      else if tool = SOURCE_SEARCH_TOOL_IDENTITY
      then g\<lparr>g_source_searches := Suc (g_source_searches g)\<rparr>
      else if tool = DECLARATION_RESOLVE_TOOL_IDENTITY
      then g\<lparr>g_declaration_resolutions := Suc (g_declaration_resolutions g)\<rparr>
      else g)"

definition observe_tool_completed :: "agent_event \<Rightarrow> guard \<Rightarrow> guard" where
  "observe_tool_completed ev g =
     (if ev_item_id ev = [] then record_violation V_DONE_NO_ITEM g
      else case dict_get (g_pending g) (ev_item_id ev) of
        None \<Rightarrow> record_violation V_DONE_UNMATCHED g
      | Some pending \<Rightarrow>
          (let g1 = g\<lparr>g_pending := dict_del (ev_item_id ev) (g_pending g)\<rparr>;
               g2 = check (ev_tool ev \<noteq> None \<and> ev_tool ev \<noteq> Some (pt_tool pending))
                      V_TOOL_CHANGED g1;
               g3 = check (ev_capability ev \<noteq> [] \<and> ev_capability ev \<noteq> pt_capability pending)
                      V_CAPABILITY_CHANGED g2
           in if allow_all_known_tools (g_policy g) then count_tool_completed (pt_tool pending) g3
              else if pt_capability pending = HOST_METADATA_CAPABILITY then
                (if ev_host_metadata_result_empty ev \<noteq> Some True
                 then record_violation V_META_CONTENT g3
                 else g3\<lparr>g_host_metadata_calls := Suc (g_host_metadata_calls g3)\<rparr>)
              else count_tool_completed (pt_tool pending) g3))"

definition observe_kind :: "agent_event \<Rightarrow> guard \<Rightarrow> guard" where
  "observe_kind ev g =
     (case ev_kind ev of
        INVOCATION_STARTED \<Rightarrow>
          (let g1 = g\<lparr>g_invocation_started := Suc (g_invocation_started g)\<rparr>
           in check (1 < g_invocation_started g1) V_TWO_STARTS
                (check (ev_session_id ev = []) V_NO_SESSION g1))
      | TURN_STARTED \<Rightarrow>
          (let g1 = g\<lparr>g_turn_started := Suc (g_turn_started g)\<rparr>
           in check (1 < g_turn_started g1) V_TWO_TURNS g1)
      | TOOL_STARTED \<Rightarrow> observe_tool_started ev g
      | TOOL_COMPLETED \<Rightarrow> observe_tool_completed ev g
      | MESSAGE_COMPLETED \<Rightarrow> g\<lparr>g_completed_messages := Suc (g_completed_messages g)\<rparr>
      | TERMINAL_COMPLETED \<Rightarrow>
          (let g1 = g\<lparr>g_terminals := g_terminals g @ [TERMINAL_COMPLETED]\<rparr>
           in check (1 < length (g_terminals g1)) V_TWO_TERMINALS g1)
      | TERMINAL_FAILED \<Rightarrow>
          (let g1 = g\<lparr>g_terminals := g_terminals g @ [TERMINAL_FAILED]\<rparr>
           in check (1 < length (g_terminals g1)) V_TWO_TERMINALS g1)
      | PROVIDER_ERROR \<Rightarrow> g\<lparr>g_provider_errors := Suc (g_provider_errors g)\<rparr>
      | PASSIVE \<Rightarrow> g
      | PROVIDER_NOTICE \<Rightarrow> g)"

text \<open>A decision is \<open>(allowed, reason)\<close>.\<close>

type_synonym decision = "bool \<times> str"

definition observe :: "agent_event \<Rightarrow> guard \<Rightarrow> guard \<times> decision" where
  "observe ev g =
     (let reject = (\<lambda>g'. (g', (False, last (g_violations g')))) in
      if g_finished g then reject (record_violation V_AFTER_FINAL g)
      else if ev_invocation_id ev \<noteq> g_invocation_id g then reject (record_violation V_INVOCATION g)
      else if ev_provider ev \<noteq> g_provider g then reject (record_violation V_PROVIDER g)
      else if ev_kind ev = PROVIDER_NOTICE then
        (g\<lparr>g_provider_notices := g_provider_notices g @ [ev_raw_event_type ev]\<rparr>, (True, []))
      else
        (let g1 = check (g_terminals g \<noteq> []) V_AFTER_TERMINAL g;
             g2 = observe_kind ev (observe_order (ev_kind ev) g1);
             g3 = g2\<lparr>g_events_observed := Suc (g_events_observed g2)\<rparr>
         in if length (g_violations g3) = length (g_violations g) then (g3, (True, []))
            else reject g3))"

record event_audit =
  au_invocation_id :: str
  au_provider :: str
  au_proof_tool_started :: nat
  au_proof_tool_completed :: nat
  au_source_reads :: nat
  au_source_searches :: nat
  au_declaration_resolutions :: nat
  au_host_metadata_calls :: nat
  au_provider_errors :: nat
  au_terminal_kind :: str
  au_process_exit :: "int option"
  au_violations :: "str list"
  au_provider_notices :: "str list"

definition audit_valid :: "event_audit \<Rightarrow> bool" where
  "audit_valid a \<longleftrightarrow> au_violations a = []"

definition single_terminal :: "guard \<Rightarrow> agent_event_kind option" where
  "single_terminal g = (case g_terminals g of [k] \<Rightarrow> Some k | _ \<Rightarrow> None)"

definition finish_checks :: "int option \<Rightarrow> bool \<Rightarrow> guard \<Rightarrow> guard" where
  "finish_checks process_exit cancelled g =
     (let req = g_requirements g;
          terminal = single_terminal g;
          exited = (\<not> cancelled \<and> process_exit \<noteq> None \<and> terminal \<noteq> None);
          g1 = check (g_pending g \<noteq> [])
                 (V_PENDING @ py_join '', '' (sort (dict_keys (g_pending g)))) g;
          g2 = check (require_invocation_started req \<and> g_invocation_started g \<noteq> 1) V_ONE_START g1;
          g3 = check (require_turn_started req \<and> g_turn_started g \<noteq> 1) V_ONE_TURN g2;
          g4 = check (\<not> cancelled \<and> require_terminal req \<and> length (g_terminals g) \<noteq> 1)
                 V_ONE_TERMINAL g3;
          g5 = check (\<not> cancelled \<and> require_completed_message req \<and> g_completed_messages g < 1
                      \<and> g_terminals g \<noteq> [TERMINAL_FAILED]) V_NO_MESSAGE g4;
          g6 = check (require_process_exit req \<and> process_exit = None) V_NO_EXIT g5;
          g7 = check (exited \<and> terminal = Some TERMINAL_COMPLETED \<and> process_exit \<noteq> Some 0)
                 V_COMPLETED_NONZERO g6;
          g8 = check (exited \<and> terminal = Some TERMINAL_FAILED \<and> process_exit = Some 0)
                 V_FAILED_ZERO g7
      in check (g_provider_errors g \<noteq> 0 \<and> fail_on_provider_error req) V_PROVIDER_ERROR g8)"

definition finish ::
  "int option \<Rightarrow> bool \<Rightarrow> guard \<Rightarrow> guard_error + (guard \<times> event_audit)" where
  "finish process_exit cancelled g =
     (if g_finished g then Inl (RuntimeError ''provider invocation was finalized more than once'')
      else
        (let g' = finish_checks process_exit cancelled (g\<lparr>g_finished := True\<rparr>)
         in Inr (g',
              \<lparr>au_invocation_id = g_invocation_id g', au_provider = g_provider g',
               au_proof_tool_started = g_proof_tool_started g',
               au_proof_tool_completed = g_proof_tool_completed g',
               au_source_reads = g_source_reads g', au_source_searches = g_source_searches g',
               au_declaration_resolutions = g_declaration_resolutions g',
               au_host_metadata_calls = g_host_metadata_calls g',
               au_provider_errors = g_provider_errors g',
               au_terminal_kind =
                 (case single_terminal g' of Some k \<Rightarrow> kind_value k | None \<Rightarrow> []),
               au_process_exit = process_exit, au_violations = g_violations g',
               au_provider_notices = g_provider_notices g'\<rparr>)))"

definition observe_all :: "agent_event list \<Rightarrow> guard \<Rightarrow> guard" where
  "observe_all evs g = foldl (\<lambda>g ev. fst (observe ev g)) g evs"

text \<open>
  A normalizer is an object with state: it maps a raw record to canonical events and
  violations, or raises (a tool identity may not be blank). The audit runs a normalizer and the
  guard over the records of one invocation.
\<close>

type_synonym ('n, 'raw) normalizer =
  "'n \<Rightarrow> 'raw \<Rightarrow> guard_error + ('n \<times> agent_event list \<times> str list)"

fun audit_records ::
  "('n, 'raw) normalizer \<Rightarrow> 'n \<Rightarrow> 'raw list \<Rightarrow> guard \<Rightarrow> guard_error + guard" where
  "audit_records norm_ev n [] g = Inr g"
| "audit_records norm_ev n (raw # raws) g =
     (case norm_ev n raw of
        Inl err \<Rightarrow> Inl err
      | Inr (n', evs, reasons) \<Rightarrow>
          (let g1 = foldl (\<lambda>g r. record_violation r g) g reasons
           in audit_records norm_ev n' raws (observe_all evs g1)))"

definition audit_normalized_invocation ::
  "('n, 'raw) normalizer \<Rightarrow> 'n \<Rightarrow> 'raw list \<Rightarrow> guard
     \<Rightarrow> int option \<Rightarrow> bool \<Rightarrow> guard_error + (guard \<times> event_audit)" where
  "audit_normalized_invocation norm_ev n raws g process_exit cancelled =
     (case audit_records norm_ev n raws g of
        Inl err \<Rightarrow> Inl err
      | Inr g' \<Rightarrow> finish process_exit cancelled g')"

section \<open>Violations are only appended\<close>

lemma record_violation_frame [simp]:
  "g_invocation_id (record_violation v g) = g_invocation_id g"
  "g_provider (record_violation v g) = g_provider g"
  "g_policy (record_violation v g) = g_policy g"
  "g_requirements (record_violation v g) = g_requirements g"
  "g_pending (record_violation v g) = g_pending g"
  "g_seen_item_ids (record_violation v g) = g_seen_item_ids g"
  "g_invocation_started (record_violation v g) = g_invocation_started g"
  "g_turn_started (record_violation v g) = g_turn_started g"
  "g_completed_messages (record_violation v g) = g_completed_messages g"
  "g_terminals (record_violation v g) = g_terminals g"
  "g_proof_tool_started (record_violation v g) = g_proof_tool_started g"
  "g_proof_tool_completed (record_violation v g) = g_proof_tool_completed g"
  "g_source_reads (record_violation v g) = g_source_reads g"
  "g_source_searches (record_violation v g) = g_source_searches g"
  "g_declaration_resolutions (record_violation v g) = g_declaration_resolutions g"
  "g_host_metadata_calls (record_violation v g) = g_host_metadata_calls g"
  "g_provider_errors (record_violation v g) = g_provider_errors g"
  "g_events_observed (record_violation v g) = g_events_observed g"
  "g_provider_notices (record_violation v g) = g_provider_notices g"
  "g_finished (record_violation v g) = g_finished g"
  by (simp_all add: record_violation_def)

lemma check_frame [simp]:
  "g_invocation_id (check b v g) = g_invocation_id g"
  "g_provider (check b v g) = g_provider g"
  "g_policy (check b v g) = g_policy g"
  "g_requirements (check b v g) = g_requirements g"
  "g_pending (check b v g) = g_pending g"
  "g_seen_item_ids (check b v g) = g_seen_item_ids g"
  "g_invocation_started (check b v g) = g_invocation_started g"
  "g_turn_started (check b v g) = g_turn_started g"
  "g_completed_messages (check b v g) = g_completed_messages g"
  "g_terminals (check b v g) = g_terminals g"
  "g_proof_tool_started (check b v g) = g_proof_tool_started g"
  "g_proof_tool_completed (check b v g) = g_proof_tool_completed g"
  "g_source_reads (check b v g) = g_source_reads g"
  "g_source_searches (check b v g) = g_source_searches g"
  "g_declaration_resolutions (check b v g) = g_declaration_resolutions g"
  "g_host_metadata_calls (check b v g) = g_host_metadata_calls g"
  "g_provider_errors (check b v g) = g_provider_errors g"
  "g_events_observed (check b v g) = g_events_observed g"
  "g_provider_notices (check b v g) = g_provider_notices g"
  "g_finished (check b v g) = g_finished g"
  by (simp_all add: check_def)

lemma record_violation_dirty [simp]:
  "py_strip v \<noteq> [] \<Longrightarrow> g_violations (record_violation v g) = g_violations g @ [py_strip v]"
  by (simp add: record_violation_def)

lemma check_clean [simp]:
  "py_strip v \<noteq> [] \<Longrightarrow> g_violations (check b v g) = [] \<longleftrightarrow> g_violations g = [] \<and> \<not> b"
  by (auto simp: check_def)

definition extends :: "guard \<Rightarrow> guard \<Rightarrow> bool" where
  "extends g g' \<longleftrightarrow> prefix (g_violations g) (g_violations g')"

lemma extends_refl [simp]: "extends g g"
  by (simp add: extends_def)

lemma extends_trans: "extends g g' \<Longrightarrow> extends g' g'' \<Longrightarrow> extends g g''"
  unfolding extends_def by (rule prefix_order.trans)

lemma extends_clean: "extends g g' \<Longrightarrow> g_violations g' = [] \<Longrightarrow> g_violations g = []"
  by (simp add: extends_def)

lemma extends_eq: "g_violations g' = g_violations g \<Longrightarrow> extends g g'"
  by (simp add: extends_def)

lemma extends_record [simp]: "extends g (record_violation v g)"
  by (simp add: extends_def record_violation_def)

lemma extends_check [simp]: "extends g (check b v g)"
  by (simp add: check_def)

lemma extends_check_step: "extends g g' \<Longrightarrow> extends g (check b v g')"
  by (rule extends_trans) auto

lemma extends_record_step: "extends g g' \<Longrightarrow> extends g (record_violation v g')"
  by (rule extends_trans) auto

lemma extends_order [simp]: "extends g (observe_order k g)"
  by (auto simp: observe_order_def Let_def intro!: extends_check_step)

lemma count_tool_completed_frame [simp]:
  "g_violations (count_tool_completed t g) = g_violations g"
  "g_pending (count_tool_completed t g) = g_pending g"
  "g_seen_item_ids (count_tool_completed t g) = g_seen_item_ids g"
  "g_invocation_started (count_tool_completed t g) = g_invocation_started g"
  "g_turn_started (count_tool_completed t g) = g_turn_started g"
  "g_completed_messages (count_tool_completed t g) = g_completed_messages g"
  "g_terminals (count_tool_completed t g) = g_terminals g"
  "g_provider_errors (count_tool_completed t g) = g_provider_errors g"
  "g_events_observed (count_tool_completed t g) = g_events_observed g"
  "g_finished (count_tool_completed t g) = g_finished g"
  "g_invocation_id (count_tool_completed t g) = g_invocation_id g"
  "g_provider (count_tool_completed t g) = g_provider g"
  "g_policy (count_tool_completed t g) = g_policy g"
  "g_requirements (count_tool_completed t g) = g_requirements g"
  by (simp_all add: count_tool_completed_def)

lemma count_proof_tool_started_frame [simp]:
  "g_violations (count_proof_tool_started t g) = g_violations g"
  "g_pending (count_proof_tool_started t g) = g_pending g"
  "g_seen_item_ids (count_proof_tool_started t g) = g_seen_item_ids g"
  "g_invocation_started (count_proof_tool_started t g) = g_invocation_started g"
  "g_turn_started (count_proof_tool_started t g) = g_turn_started g"
  "g_completed_messages (count_proof_tool_started t g) = g_completed_messages g"
  "g_terminals (count_proof_tool_started t g) = g_terminals g"
  "g_provider_errors (count_proof_tool_started t g) = g_provider_errors g"
  "g_events_observed (count_proof_tool_started t g) = g_events_observed g"
  "g_finished (count_proof_tool_started t g) = g_finished g"
  "g_invocation_id (count_proof_tool_started t g) = g_invocation_id g"
  "g_provider (count_proof_tool_started t g) = g_provider g"
  "g_policy (count_proof_tool_started t g) = g_policy g"
  "g_requirements (count_proof_tool_started t g) = g_requirements g"
  by (simp_all add: count_proof_tool_started_def)

lemma extends_count [simp]:
  "extends g (count_proof_tool_started t g') = extends g g'"
  "extends g (count_tool_completed t g') = extends g g'"
  by (simp_all add: extends_def)

lemma extends_update [simp]:
  "extends g (g'\<lparr>g_pending := p\<rparr>) = extends g g'"
  "extends g (g'\<lparr>g_seen_item_ids := ids\<rparr>) = extends g g'"
  "extends g (g'\<lparr>g_invocation_started := n\<rparr>) = extends g g'"
  "extends g (g'\<lparr>g_turn_started := n\<rparr>) = extends g g'"
  "extends g (g'\<lparr>g_completed_messages := n\<rparr>) = extends g g'"
  "extends g (g'\<lparr>g_terminals := ks\<rparr>) = extends g g'"
  "extends g (g'\<lparr>g_provider_errors := n\<rparr>) = extends g g'"
  "extends g (g'\<lparr>g_host_metadata_calls := n\<rparr>) = extends g g'"
  "extends g (g'\<lparr>g_events_observed := n\<rparr>) = extends g g'"
  "extends g (g'\<lparr>g_provider_notices := ns\<rparr>) = extends g g'"
  by (simp_all add: extends_def)

lemma extends_started: "extends g (observe_tool_started ev g)"
  by (auto simp: observe_tool_started_def Let_def
           intro!: extends_check_step extends_record_step split: option.split)

lemma extends_completed: "extends g (observe_tool_completed ev g)"
  by (auto simp: observe_tool_completed_def Let_def
           intro!: extends_check_step extends_record_step split: option.split)

lemma extends_kind: "extends g (observe_kind ev g)"
  by (auto simp: observe_kind_def Let_def extends_started extends_completed
           intro!: extends_check_step split: agent_event_kind.split)

lemma extends_observe: "extends g (fst (observe ev g))"
proof -
  have "extends g (observe_kind ev (observe_order k (check b v g)))" for k b v
    using extends_trans [OF extends_check extends_trans [OF extends_order extends_kind]] .
  then show ?thesis by (simp add: observe_def Let_def)
qed

lemma extends_observe_all: "extends g (observe_all evs g)"
  unfolding observe_all_def
  by (induction evs arbitrary: g) (auto intro: extends_trans [OF extends_observe])

lemma extends_finish_checks: "extends g (finish_checks x c g)"
  by (auto simp: finish_checks_def Let_def intro!: extends_check_step)

section \<open>The protocol, as a property of the event sequence\<close>

definition count_kind :: "agent_event_kind \<Rightarrow> agent_event list \<Rightarrow> nat" where
  "count_kind k evs = length (filter (\<lambda>e. ev_kind e = k) evs)"

definition started_ids :: "agent_event list \<Rightarrow> str list" where
  "started_ids evs = map ev_item_id (filter (\<lambda>e. ev_kind e = TOOL_STARTED) evs)"

definition completed_ids :: "agent_event list \<Rightarrow> str list" where
  "completed_ids evs = map ev_item_id (filter (\<lambda>e. ev_kind e = TOOL_COMPLETED) evs)"

definition start_of :: "agent_event list \<Rightarrow> str \<Rightarrow> agent_event option" where
  "start_of evs i = find (\<lambda>e. ev_kind e = TOOL_STARTED \<and> ev_item_id e = i) evs"

definition terminals_of :: "agent_event list \<Rightarrow> agent_event_kind list" where
  "terminals_of evs = filter is_terminal (map ev_kind evs)"

text \<open>A tool start the policy allows.\<close>

definition tool_permitted :: "capability_policy \<Rightarrow> agent_event \<Rightarrow> bool" where
  "tool_permitted pol e \<longleftrightarrow>
     (case ev_tool e of None \<Rightarrow> False | Some tool \<Rightarrow>
        allow_all_known_tools pol
        \<or> (if ev_capability e = HOST_METADATA_CAPABILITY
            then allow_empty_host_metadata pol \<and> ev_host_metadata_arguments_valid e = Some True
            else tool \<in> set (allowed_tools pol)
                 \<or> ev_capability e \<in> set (allowed_provider_capabilities pol)))"

text \<open>A completion agrees with the start it answers.\<close>

definition completion_agrees :: "capability_policy \<Rightarrow> agent_event \<Rightarrow> agent_event \<Rightarrow> bool" where
  "completion_agrees pol s e \<longleftrightarrow>
     (ev_tool e = None \<or> ev_tool e = ev_tool s)
     \<and> (ev_capability e = [] \<or> ev_capability e = ev_capability s)
     \<and> (\<not> allow_all_known_tools pol \<and> ev_capability s = HOST_METADATA_CAPABILITY
         \<longrightarrow> ev_host_metadata_result_empty e = Some True)"

text \<open>What an event may be after the events \<open>pre\<close>.\<close>

definition event_ok ::
  "lifecycle_requirements \<Rightarrow> capability_policy \<Rightarrow> agent_event list \<Rightarrow> agent_event \<Rightarrow> bool" where
  "event_ok req pol pre e \<longleftrightarrow>
     terminals_of pre = []
     \<and> (case ev_kind e of
          INVOCATION_STARTED \<Rightarrow> pre = [] \<and> ev_session_id e \<noteq> []
        | TURN_STARTED \<Rightarrow> count_kind INVOCATION_STARTED pre = 1
            \<and> count_kind TURN_STARTED pre = 0 \<and> count_kind MESSAGE_COMPLETED pre = 0
        | k \<Rightarrow>
            (require_invocation_started req \<longrightarrow> count_kind INVOCATION_STARTED pre = 1)
            \<and> (require_turn_started req \<longrightarrow> count_kind TURN_STARTED pre = 1)
            \<and> (k = TOOL_STARTED \<longrightarrow>
                 ev_item_id e \<noteq> [] \<and> ev_item_id e \<notin> set (started_ids pre) \<and> tool_permitted pol e)
            \<and> (k = TOOL_COMPLETED \<longrightarrow>
                 ev_item_id e \<noteq> [] \<and> ev_item_id e \<notin> set (completed_ids pre)
                 \<and> (\<exists>s. start_of pre (ev_item_id e) = Some s \<and> completion_agrees pol s e))
            \<and> (is_terminal k \<longrightarrow>
                 set (started_ids pre) \<subseteq> set (completed_ids pre)
                 \<and> (require_completed_message req \<longrightarrow> k \<noteq> TERMINAL_FAILED \<longrightarrow>
                      0 < count_kind MESSAGE_COMPLETED pre)))"

definition trace_ok :: "lifecycle_requirements \<Rightarrow> capability_policy \<Rightarrow> agent_event list \<Rightarrow> bool" where
  "trace_ok req pol evs \<longleftrightarrow> (\<forall>n < length evs. event_ok req pol (take n evs) (evs ! n))"

definition ending_ok ::
  "lifecycle_requirements \<Rightarrow> agent_event list \<Rightarrow> int option \<Rightarrow> bool \<Rightarrow> bool" where
  "ending_ok req evs process_exit cancelled \<longleftrightarrow>
     set (started_ids evs) \<subseteq> set (completed_ids evs)
     \<and> (require_invocation_started req \<longrightarrow> count_kind INVOCATION_STARTED evs = 1)
     \<and> (require_turn_started req \<longrightarrow> count_kind TURN_STARTED evs = 1)
     \<and> (\<not> cancelled \<and> require_terminal req \<longrightarrow> length (terminals_of evs) = 1)
     \<and> (\<not> cancelled \<and> require_completed_message req \<and> terminals_of evs \<noteq> [TERMINAL_FAILED]
         \<longrightarrow> 0 < count_kind MESSAGE_COMPLETED evs)
     \<and> (require_process_exit req \<longrightarrow> process_exit \<noteq> None)
     \<and> (\<not> cancelled \<and> process_exit \<noteq> None \<longrightarrow>
          (terminals_of evs = [TERMINAL_COMPLETED] \<longrightarrow> process_exit = Some 0)
          \<and> (terminals_of evs = [TERMINAL_FAILED] \<longrightarrow> process_exit \<noteq> Some 0))
     \<and> (fail_on_provider_error req \<longrightarrow> count_kind PROVIDER_ERROR evs = 0)"

definition protocol_events :: "agent_event list \<Rightarrow> agent_event list" where
  "protocol_events evs = filter (\<lambda>e. ev_kind e \<noteq> PROVIDER_NOTICE) evs"

definition bound_to :: "str \<Rightarrow> str \<Rightarrow> agent_event \<Rightarrow> bool" where
  "bound_to iid prov e \<longleftrightarrow> ev_invocation_id e = iid \<and> ev_provider e = prov"

section \<open>The guard decides the protocol\<close>

text \<open>The state of a guard that has accepted the protocol events \<open>evs\<close> without a violation.\<close>

definition tracks :: "guard \<Rightarrow> agent_event list \<Rightarrow> bool" where
  "tracks g evs \<longleftrightarrow>
     \<not> g_finished g \<and> g_violations g = []
     \<and> g_invocation_started g = count_kind INVOCATION_STARTED evs
     \<and> g_turn_started g = count_kind TURN_STARTED evs
     \<and> g_completed_messages g = count_kind MESSAGE_COMPLETED evs
     \<and> g_provider_errors g = count_kind PROVIDER_ERROR evs
     \<and> g_terminals g = terminals_of evs
     \<and> g_events_observed g = length evs
     \<and> g_seen_item_ids g = started_ids evs
     \<and> dict_wf (g_pending g)
     \<and> (\<forall>i. dict_get (g_pending g) i =
           (if i \<in> set (completed_ids evs) then None
            else case start_of evs i of None \<Rightarrow> None | Some s \<Rightarrow>
              map_option (\<lambda>t. \<lparr>pt_tool = t, pt_capability = ev_capability s\<rparr>) (ev_tool s)))
     \<and> (\<forall>i s. start_of evs i = Some s \<longrightarrow> ev_tool s \<noteq> None)
     \<and> set (completed_ids evs) \<subseteq> set (started_ids evs)"

lemma count_kind_snoc [simp]:
  "count_kind k (evs @ [e]) = count_kind k evs + (if ev_kind e = k then 1 else 0)"
  by (simp add: count_kind_def)

lemma started_ids_snoc [simp]:
  "started_ids (evs @ [e]) = started_ids evs @ (if ev_kind e = TOOL_STARTED then [ev_item_id e] else [])"
  by (simp add: started_ids_def)

lemma completed_ids_snoc [simp]:
  "completed_ids (evs @ [e]) =
     completed_ids evs @ (if ev_kind e = TOOL_COMPLETED then [ev_item_id e] else [])"
  by (simp add: completed_ids_def)

lemma terminals_of_snoc [simp]:
  "terminals_of (evs @ [e]) = terminals_of evs @ (if is_terminal (ev_kind e) then [ev_kind e] else [])"
  by (simp add: terminals_of_def)

lemma find_append:
  "find P (xs @ ys) = (case find P xs of Some x \<Rightarrow> Some x | None \<Rightarrow> find P ys)"
  by (induction xs) auto

lemma start_of_snoc:
  "start_of (evs @ [e]) i =
     (case start_of evs i of Some s \<Rightarrow> Some s
      | None \<Rightarrow> if ev_kind e = TOOL_STARTED \<and> ev_item_id e = i then Some e else None)"
  by (simp add: start_of_def find_append split: option.split)

lemma start_of_None: "start_of evs i = None \<longleftrightarrow> i \<notin> set (started_ids evs)"
  by (auto simp: start_of_def started_ids_def find_None_iff)

lemma trace_ok_snoc [simp]:
  "trace_ok req pol (evs @ [e]) \<longleftrightarrow> trace_ok req pol evs \<and> event_ok req pol evs e"
  by (auto simp: trace_ok_def less_Suc_eq nth_append)

lemma trace_ok_Nil [simp]: "trace_ok req pol []"
  by (simp add: trace_ok_def)

lemma tracks_pending_Nil:
  assumes "tracks g evs"
  shows "g_pending g = [] \<longleftrightarrow> set (started_ids evs) \<subseteq> set (completed_ids evs)"
proof -
  have "g_pending g = [] \<longleftrightarrow> (\<forall>i. dict_get (g_pending g) i = None)"
    by (rule dict_Nil_get)
  also have "\<dots> \<longleftrightarrow> (\<forall>i. i \<in> set (started_ids evs) \<longrightarrow> i \<in> set (completed_ids evs))"
  proof (rule iff_allI)
    fix i
    show "dict_get (g_pending g) i = None \<longleftrightarrow> (i \<in> set (started_ids evs) \<longrightarrow> i \<in> set (completed_ids evs))"
      using assms by (cases "start_of evs i") (auto simp: tracks_def start_of_None [symmetric])
  qed
  finally show ?thesis by auto
qed

lemma tracks_get_pending:
  assumes "tracks g evs"
  shows "dict_get (g_pending g) i = Some p \<longleftrightarrow>
    i \<notin> set (completed_ids evs) \<and>
    (\<exists>s t. start_of evs i = Some s \<and> ev_tool s = Some t \<and> p = \<lparr>pt_tool = t, pt_capability = ev_capability s\<rparr>)"
  using assms by (cases "start_of evs i") (auto simp: tracks_def)

lemma tracks_tool: "tracks g evs \<Longrightarrow> start_of evs i = Some s \<Longrightarrow> \<exists>t. ev_tool s = Some t"
  by (auto simp: tracks_def)

text \<open>The guard's state after the order check of an acceptable event, and before counting it.\<close>

lemma observe_unfold:
  assumes "tracks g evs" "bound_to (g_invocation_id g) (g_provider g) e" "ev_kind e \<noteq> PROVIDER_NOTICE"
  shows "fst (observe e g) =
    (let g2 = observe_kind e (observe_order (ev_kind e) (check (g_terminals g \<noteq> []) V_AFTER_TERMINAL g))
     in g2\<lparr>g_events_observed := Suc (g_events_observed g2)\<rparr>)"
  using assms by (simp add: observe_def Let_def tracks_def bound_to_def)

lemma check_not [simp]: "\<not> b \<Longrightarrow> check b v g = g"
  by (simp add: check_def)

lemma order_clean:
  assumes "tracks g evs"
  shows "g_violations (observe_order k (check (g_terminals g \<noteq> []) V_AFTER_TERMINAL g)) = [] \<longleftrightarrow>
    terminals_of evs = []
    \<and> (if k = INVOCATION_STARTED then evs = []
       else if k = TURN_STARTED then count_kind INVOCATION_STARTED evs = 1
         \<and> count_kind TURN_STARTED evs = 0 \<and> count_kind MESSAGE_COMPLETED evs = 0
       else (require_invocation_started (g_requirements g) \<longrightarrow> count_kind INVOCATION_STARTED evs = 1)
         \<and> (require_turn_started (g_requirements g) \<longrightarrow> count_kind TURN_STARTED evs = 1)
         \<and> (is_terminal k \<longrightarrow> set (started_ids evs) \<subseteq> set (completed_ids evs)
              \<and> (require_completed_message (g_requirements g) \<longrightarrow> k \<noteq> TERMINAL_FAILED \<longrightarrow>
                   0 < count_kind MESSAGE_COMPLETED evs)))"
  using assms tracks_pending_Nil [OF assms]
  by (auto simp: observe_order_def Let_def tracks_def)

lemma order_clean_id:
  "g_violations (observe_order k g) = [] \<Longrightarrow> observe_order k g = g"
  by (simp add: observe_order_def Let_def split: if_splits)

lemma ordered_clean_id:
  assumes "g_violations (observe_order k (check b V_AFTER_TERMINAL g)) = []"
  shows "observe_order k (check b V_AFTER_TERMINAL g) = g"
proof -
  have "g_violations (check b V_AFTER_TERMINAL g) = []"
    using assms extends_clean [OF extends_order] by blast
  then show ?thesis using order_clean_id [OF assms] by simp
qed

lemma started_clean:
  assumes "tracks g evs"
  shows "g_violations (observe_tool_started e g) = [] \<longleftrightarrow>
    ev_item_id e \<noteq> [] \<and> ev_item_id e \<notin> set (started_ids evs) \<and> tool_permitted (g_policy g) e"
  using assms
  by (auto simp: observe_tool_started_def Let_def tool_permitted_def tracks_def split: option.split)

lemma completed_clean:
  assumes "tracks g evs"
  shows "g_violations (observe_tool_completed e g) = [] \<longleftrightarrow>
    ev_item_id e \<noteq> [] \<and> ev_item_id e \<notin> set (completed_ids evs)
    \<and> (\<exists>s. start_of evs (ev_item_id e) = Some s \<and> completion_agrees (g_policy g) s e)"
proof (cases "dict_get (g_pending g) (ev_item_id e)")
  case None
  moreover have False
    if "ev_item_id e \<notin> set (completed_ids evs)" and s: "start_of evs (ev_item_id e) = Some s" for s
  proof -
    obtain t where "ev_tool s = Some t" using tracks_tool [OF assms s] by blast
    then have "dict_get (g_pending g) (ev_item_id e)
        = Some \<lparr>pt_tool = t, pt_capability = ev_capability s\<rparr>"
      using tracks_get_pending [OF assms] that s by blast
    with None show False by simp
  qed
  ultimately show ?thesis by (auto simp: observe_tool_completed_def)
next
  case (Some p)
  then obtain s t where "ev_item_id e \<notin> set (completed_ids evs)"
      "start_of evs (ev_item_id e) = Some s" "ev_tool s = Some t"
      "p = \<lparr>pt_tool = t, pt_capability = ev_capability s\<rparr>"
    using tracks_get_pending [OF assms] by blast
  moreover have "g_violations g = []" using assms by (simp add: tracks_def)
  ultimately show ?thesis
    using Some by (auto simp: observe_tool_completed_def Let_def completion_agrees_def)
qed

lemma kind_clean:
  assumes "tracks g evs"
  shows "g_violations (observe_kind e g) = [] \<longleftrightarrow>
    (case ev_kind e of
       INVOCATION_STARTED \<Rightarrow> count_kind INVOCATION_STARTED evs = 0 \<and> ev_session_id e \<noteq> []
     | TURN_STARTED \<Rightarrow> count_kind TURN_STARTED evs = 0
     | TOOL_STARTED \<Rightarrow> g_violations (observe_tool_started e g) = []
     | TOOL_COMPLETED \<Rightarrow> g_violations (observe_tool_completed e g) = []
     | TERMINAL_COMPLETED \<Rightarrow> terminals_of evs = []
     | TERMINAL_FAILED \<Rightarrow> terminals_of evs = []
     | _ \<Rightarrow> True)"
proof -
  have "g_violations g = []" "g_invocation_started g = count_kind INVOCATION_STARTED evs"
    "g_turn_started g = count_kind TURN_STARTED evs" "g_terminals g = terminals_of evs"
    using assms by (simp_all add: tracks_def)
  then show ?thesis by (cases "ev_kind e") (auto simp: observe_kind_def Let_def)
qed

lemma observe_clean:
  assumes t: "tracks g evs" and e: "bound_to (g_invocation_id g) (g_provider g) e"
    and k: "ev_kind e \<noteq> PROVIDER_NOTICE"
  shows "g_violations (fst (observe e g)) = [] \<longleftrightarrow>
    event_ok (g_requirements g) (g_policy g) evs e"
proof -
  let ?g1 = "observe_order (ev_kind e) (check (g_terminals g \<noteq> []) V_AFTER_TERMINAL g)"
  have "g_violations (fst (observe e g)) = [] \<longleftrightarrow>
      g_violations ?g1 = [] \<and> g_violations (observe_kind e g) = []"
    unfolding observe_unfold [OF t e k] Let_def
    using ordered_clean_id [of "ev_kind e" "g_terminals g \<noteq> []" g] extends_clean [OF extends_kind]
    by (metis (no_types, lifting) guard.surjective guard.update_convs(19) guard.select_convs(7))
  also have "\<dots> \<longleftrightarrow> event_ok (g_requirements g) (g_policy g) evs e"
    unfolding order_clean [OF t] kind_clean [OF t] started_clean [OF t] completed_clean [OF t]
      event_ok_def
    using k by (cases "ev_kind e") (auto simp: is_terminal_def count_kind_def)
  finally show ?thesis .
qed

lemma started_state:
  assumes "ev_item_id e \<noteq> []" "ev_item_id e \<notin> set (g_seen_item_ids g)" "ev_tool e = Some t"
  shows "g_pending (observe_tool_started e g) =
      dict_set (ev_item_id e) \<lparr>pt_tool = t, pt_capability = ev_capability e\<rparr> (g_pending g)"
    and "g_seen_item_ids (observe_tool_started e g) = g_seen_item_ids g @ [ev_item_id e]"
  using assms by (simp_all add: observe_tool_started_def Let_def)

lemma completed_state:
  assumes "ev_item_id e \<noteq> []" "dict_get (g_pending g) (ev_item_id e) = Some p"
  shows "g_pending (observe_tool_completed e g) = dict_del (ev_item_id e) (g_pending g)"
    and "g_seen_item_ids (observe_tool_completed e g) = g_seen_item_ids g"
  using assms by (simp_all add: observe_tool_completed_def Let_def)

lemma tool_frame [simp]:
  "g_finished (observe_tool_started e g) = g_finished g"
  "g_invocation_started (observe_tool_started e g) = g_invocation_started g"
  "g_turn_started (observe_tool_started e g) = g_turn_started g"
  "g_completed_messages (observe_tool_started e g) = g_completed_messages g"
  "g_provider_errors (observe_tool_started e g) = g_provider_errors g"
  "g_terminals (observe_tool_started e g) = g_terminals g"
  "g_events_observed (observe_tool_started e g) = g_events_observed g"
  "g_finished (observe_tool_completed e g) = g_finished g"
  "g_invocation_started (observe_tool_completed e g) = g_invocation_started g"
  "g_turn_started (observe_tool_completed e g) = g_turn_started g"
  "g_completed_messages (observe_tool_completed e g) = g_completed_messages g"
  "g_provider_errors (observe_tool_completed e g) = g_provider_errors g"
  "g_terminals (observe_tool_completed e g) = g_terminals g"
  "g_events_observed (observe_tool_completed e g) = g_events_observed g"
  by (simp_all add: observe_tool_started_def observe_tool_completed_def Let_def split: option.split)

lemma tracks_started:
  assumes t: "tracks g evs" and k: "ev_kind e = TOOL_STARTED"
    and ok: "event_ok req pol evs e" and v: "g_violations (observe_tool_started e g) = []"
  shows "tracks (observe_tool_started e g\<lparr>g_events_observed := Suc (g_events_observed g)\<rparr>) (evs @ [e])"
proof -
  obtain tl where tl: "ev_item_id e \<noteq> []" "ev_item_id e \<notin> set (started_ids evs)" "ev_tool e = Some tl"
    using ok k by (auto simp: event_ok_def tool_permitted_def split: option.splits)
  have seen: "g_seen_item_ids g = started_ids evs" "set (completed_ids evs) \<subseteq> set (started_ids evs)"
    using t by (simp_all add: tracks_def)
  note st = started_state [OF tl(1) _ tl(3), of g, unfolded seen(1), OF tl(2)]
  have "start_of evs (ev_item_id e) = None" using tl(2) by (simp add: start_of_None)
  then have so: "start_of (evs @ [e]) i = (if i = ev_item_id e then Some e else start_of evs i)" for i
    using k by (auto simp: start_of_snoc split: option.split)
  show ?thesis
    using t v st tl seen k unfolding tracks_def
    by (auto simp: so dict_get_set dict_wf_set is_terminal_def)
qed

lemma tracks_completed:
  assumes t: "tracks g evs" and k: "ev_kind e = TOOL_COMPLETED"
    and ok: "event_ok req pol evs e" and v: "g_violations (observe_tool_completed e g) = []"
  shows "tracks (observe_tool_completed e g\<lparr>g_events_observed := Suc (g_events_observed g)\<rparr>) (evs @ [e])"
proof -
  obtain s where s: "ev_item_id e \<noteq> []" "ev_item_id e \<notin> set (completed_ids evs)"
      "start_of evs (ev_item_id e) = Some s"
    using ok k by (auto simp: event_ok_def)
  obtain p where "dict_get (g_pending g) (ev_item_id e) = Some p"
    using tracks_get_pending [OF t, of "ev_item_id e"] tracks_tool [OF t s(3)] s by blast
  note st = completed_state [OF s(1) this]
  have so: "start_of (evs @ [e]) i = start_of evs i" for i
    using k by (auto simp: start_of_snoc split: option.split)
  have "ev_item_id e \<in> set (started_ids evs)" using s(3) start_of_None by (metis option.distinct(1))
  then show ?thesis
    using t v st k unfolding tracks_def
    by (auto simp: so dict_get_del dict_wf_del is_terminal_def)
qed

lemma tracks_step:
  assumes t: "tracks g evs" and e: "bound_to (g_invocation_id g) (g_provider g) e"
    and k: "ev_kind e \<noteq> PROVIDER_NOTICE" and v: "g_violations (fst (observe e g)) = []"
  shows "tracks (fst (observe e g)) (evs @ [e])"
proof -
  let ?g1 = "observe_order (ev_kind e) (check (g_terminals g \<noteq> []) V_AFTER_TERMINAL g)"
  let ?g = "observe_kind e g"
  have "g_violations (observe_kind e ?g1) = []"
    using v unfolding observe_unfold [OF t e k] Let_def by simp
  then have "g_violations ?g1 = []" by (rule extends_clean [OF extends_kind])
  then have "?g1 = g" by (rule ordered_clean_id)
  then have g: "fst (observe e g) = ?g\<lparr>g_events_observed := Suc (g_events_observed ?g)\<rparr>"
    unfolding observe_unfold [OF t e k] Let_def by simp
  have v': "g_violations ?g = []" using v unfolding g by simp
  have ok: "event_ok (g_requirements g) (g_policy g) evs e" using observe_clean [OF t e k] v by simp
  consider "ev_kind e = TOOL_STARTED" | "ev_kind e = TOOL_COMPLETED"
    | "ev_kind e \<noteq> TOOL_STARTED" "ev_kind e \<noteq> TOOL_COMPLETED" by blast
  then show ?thesis
  proof cases
    case 1
    then show ?thesis
      using tracks_started [OF t 1 ok] v' unfolding g by (simp add: observe_kind_def)
  next
    case 2
    then show ?thesis
      using tracks_completed [OF t 2 ok] v' unfolding g by (simp add: observe_kind_def)
  next
    case 3
    then have "start_of (evs @ [e]) i = start_of evs i" for i
      by (simp add: start_of_snoc split: option.split)
    then show ?thesis
      using t v' 3 k unfolding g tracks_def
      by (cases "ev_kind e") (simp_all add: observe_kind_def Let_def is_terminal_def)
  qed
qed

lemma tool_ids_frame [simp]:
  "g_invocation_id (observe_tool_started e g) = g_invocation_id g"
  "g_provider (observe_tool_started e g) = g_provider g"
  "g_policy (observe_tool_started e g) = g_policy g"
  "g_requirements (observe_tool_started e g) = g_requirements g"
  "g_invocation_id (observe_tool_completed e g) = g_invocation_id g"
  "g_provider (observe_tool_completed e g) = g_provider g"
  "g_policy (observe_tool_completed e g) = g_policy g"
  "g_requirements (observe_tool_completed e g) = g_requirements g"
  by (simp_all add: observe_tool_started_def observe_tool_completed_def Let_def split: option.split)

lemma observe_order_frame [simp]:
  "g_finished (observe_order k g) = g_finished g"
  "g_invocation_id (observe_order k g) = g_invocation_id g"
  "g_provider (observe_order k g) = g_provider g"
  "g_policy (observe_order k g) = g_policy g"
  "g_requirements (observe_order k g) = g_requirements g"
  by (simp_all add: observe_order_def Let_def)

lemma observe_kind_frame [simp]:
  "g_finished (observe_kind e g) = g_finished g"
  "g_invocation_id (observe_kind e g) = g_invocation_id g"
  "g_provider (observe_kind e g) = g_provider g"
  "g_policy (observe_kind e g) = g_policy g"
  "g_requirements (observe_kind e g) = g_requirements g"
  by (cases "ev_kind e"; simp add: observe_kind_def Let_def)+

lemma observe_frame [simp]:
  "g_finished (fst (observe e g)) = g_finished g"
  "g_invocation_id (fst (observe e g)) = g_invocation_id g"
  "g_provider (fst (observe e g)) = g_provider g"
  "g_policy (fst (observe e g)) = g_policy g"
  "g_requirements (fst (observe e g)) = g_requirements g"
  by (simp_all add: observe_def Let_def)

lemma observe_all_Nil [simp]: "observe_all [] g = g"
  by (simp add: observe_all_def)

lemma observe_all_snoc [simp]: "observe_all (evs @ [e]) g = fst (observe e (observe_all evs g))"
  by (simp add: observe_all_def)

lemma observe_all_append: "observe_all (a @ b) g = observe_all b (observe_all a g)"
  by (simp add: observe_all_def)

lemma observe_all_frame [simp]:
  "g_finished (observe_all evs g) = g_finished g"
  "g_invocation_id (observe_all evs g) = g_invocation_id g"
  "g_provider (observe_all evs g) = g_provider g"
  "g_policy (observe_all evs g) = g_policy g"
  "g_requirements (observe_all evs g) = g_requirements g"
  by (induction evs rule: rev_induct) simp_all

lemma new_guard_frame [simp]:
  "g_finished (new_guard iid prov pol req) = False"
  "g_invocation_id (new_guard iid prov pol req) = iid"
  "g_provider (new_guard iid prov pol req) = prov"
  "g_policy (new_guard iid prov pol req) = pol"
  "g_requirements (new_guard iid prov pol req) = req"
  by (simp_all add: new_guard_def)

lemma tracks_new: "tracks (new_guard iid prov pol req) []"
  by (simp add: tracks_def new_guard_def count_kind_def terminals_of_def started_ids_def
      completed_ids_def start_of_def dict_get_def dict_wf_def)

lemma observe_unbound:
  "\<not> bound_to (g_invocation_id g) (g_provider g) e \<Longrightarrow> g_violations (fst (observe e g)) \<noteq> []"
  by (simp add: observe_def Let_def bound_to_def)

lemma observe_notice:
  assumes "tracks g evs" "bound_to (g_invocation_id g) (g_provider g) e" "ev_kind e = PROVIDER_NOTICE"
  shows "tracks (fst (observe e g)) evs" "g_violations (fst (observe e g)) = []"
  using assms by (simp_all add: observe_def Let_def bound_to_def tracks_def)

text \<open>A run is clean exactly when the events belong to the invocation and follow the protocol.\<close>

lemma observe_all_clean:
  fixes iid prov pol req
  defines "g0 \<equiv> new_guard iid prov pol req"
  shows "(g_violations (observe_all evs g0) = [] \<longleftrightarrow>
           (\<forall>e \<in> set evs. bound_to iid prov e) \<and> trace_ok req pol (protocol_events evs))
    \<and> (g_violations (observe_all evs g0) = [] \<longrightarrow> tracks (observe_all evs g0) (protocol_events evs))"
proof (induction evs rule: rev_induct)
  case Nil
  then show ?case using tracks_new [of iid prov pol req]
    by (simp add: g0_def protocol_events_def new_guard_def)
next
  case (snoc e evs)
  let ?g = "observe_all evs g0"
  show ?case
  proof (cases "g_violations ?g = []")
    case False
    then have "g_violations (fst (observe e ?g)) \<noteq> []" using extends_clean [OF extends_observe] by blast
    with False snoc show ?thesis by (auto simp: protocol_events_def)
  next
    case True
    then have t: "tracks ?g (protocol_events evs)" using snoc by blast
    show ?thesis
    proof (cases "bound_to iid prov e")
      case unbound: False
      then have "g_violations (fst (observe e ?g)) \<noteq> []"
        using observe_unbound [of ?g e] by (simp add: g0_def)
      with unbound show ?thesis by simp
    next
      case bound: True
      then have b: "bound_to (g_invocation_id ?g) (g_provider ?g) e" by (simp add: g0_def)
      show ?thesis
      proof (cases "ev_kind e = PROVIDER_NOTICE")
        case notice: True
        then show ?thesis
          using observe_notice [OF t b notice] snoc True bound by (simp add: protocol_events_def)
      next
        case k: False
        then show ?thesis
          using observe_clean [OF t b k] tracks_step [OF t b k] snoc True bound
          by (auto simp: protocol_events_def g0_def)
      qed
    qed
  qed
qed

lemma single_terminal_iff: "single_terminal g = Some k \<longleftrightarrow> g_terminals g = [k]"
  by (auto simp: single_terminal_def split: list.splits)

lemma finish_checks_clean:
  "g_violations (finish_checks x c g) = [] \<longleftrightarrow> g_violations g = [] \<and> g_pending g = []
      \<and> \<not> (require_invocation_started (g_requirements g) \<and> g_invocation_started g \<noteq> 1)
      \<and> \<not> (require_turn_started (g_requirements g) \<and> g_turn_started g \<noteq> 1)
      \<and> \<not> (\<not> c \<and> require_terminal (g_requirements g) \<and> length (g_terminals g) \<noteq> 1)
      \<and> \<not> (\<not> c \<and> require_completed_message (g_requirements g) \<and> g_completed_messages g < 1
           \<and> g_terminals g \<noteq> [TERMINAL_FAILED])
      \<and> \<not> (require_process_exit (g_requirements g) \<and> x = None)
      \<and> \<not> ((\<not> c \<and> x \<noteq> None \<and> single_terminal g \<noteq> None)
            \<and> single_terminal g = Some TERMINAL_COMPLETED \<and> x \<noteq> Some 0)
      \<and> \<not> ((\<not> c \<and> x \<noteq> None \<and> single_terminal g \<noteq> None)
            \<and> single_terminal g = Some TERMINAL_FAILED \<and> x = Some 0)
      \<and> \<not> (g_provider_errors g \<noteq> 0 \<and> fail_on_provider_error (g_requirements g))"
  unfolding finish_checks_def Let_def
  by (simp only: check_clean messages_nonblank conj_assoc not_not not_False_eq_True)

lemma finish_clean:
  assumes "tracks g evs"
  shows "g_violations (finish_checks x c (g\<lparr>g_finished := True\<rparr>)) = [] \<longleftrightarrow>
    ending_ok (g_requirements g) evs x c"
proof -
  have st: "single_terminal (g\<lparr>g_finished := True\<rparr>) = single_terminal g"
    by (simp add: single_terminal_def)
  have fr:
    "g_violations (g\<lparr>g_finished := True\<rparr>) = g_violations g"
    "g_pending (g\<lparr>g_finished := True\<rparr>) = g_pending g"
    "g_invocation_started (g\<lparr>g_finished := True\<rparr>) = g_invocation_started g"
    "g_turn_started (g\<lparr>g_finished := True\<rparr>) = g_turn_started g"
    "g_completed_messages (g\<lparr>g_finished := True\<rparr>) = g_completed_messages g"
    "g_terminals (g\<lparr>g_finished := True\<rparr>) = g_terminals g"
    "g_provider_errors (g\<lparr>g_finished := True\<rparr>) = g_provider_errors g"
    "g_requirements (g\<lparr>g_finished := True\<rparr>) = g_requirements g"
    by simp_all
  have f: "g_violations g = []" "g_terminals g = terminals_of evs"
    "g_invocation_started g = count_kind INVOCATION_STARTED evs"
    "g_turn_started g = count_kind TURN_STARTED evs"
    "g_completed_messages g = count_kind MESSAGE_COMPLETED evs"
    "g_provider_errors g = count_kind PROVIDER_ERROR evs"
    using assms by (simp_all add: tracks_def)
  have tm: "single_terminal g = Some k \<longleftrightarrow> terminals_of evs = [k]" for k
    using single_terminal_iff [of g k] f(2) by simp
  have T: "((\<not> c \<and> x \<noteq> None \<and> single_terminal g \<noteq> None) \<and> single_terminal g = Some k \<and> P) \<longleftrightarrow>
      (\<not> c \<and> x \<noteq> None) \<and> terminals_of evs = [k] \<and> P" for k P
    using tm [of k] by auto
  show ?thesis
    unfolding finish_checks_clean ending_ok_def st
    unfolding fr T f tracks_pending_Nil [OF assms] less_one neq0_conv [symmetric]
    by argo
qed

lemma finish_audit:
  assumes "\<not> g_finished g"
  shows "\<exists>g' a. finish x c g = Inr (g', a) \<and> g_finished g' \<and> au_violations a = g_violations g'
    \<and> g_violations g' = g_violations (finish_checks x c (g\<lparr>g_finished := True\<rparr>))"
  using assms by (simp add: finish_def Let_def finish_checks_def)

lemma audit_valid_trace:
  assumes "finish x c (observe_all evs (new_guard iid prov pol req)) = Inr (g', a)"
  shows "audit_valid a \<longleftrightarrow>
    (\<forall>e \<in> set evs. bound_to iid prov e) \<and> trace_ok req pol (protocol_events evs)
    \<and> ending_ok req (protocol_events evs) x c"
proof -
  let ?g = "observe_all evs (new_guard iid prov pol req)"
  have v: "audit_valid a \<longleftrightarrow> g_violations (finish_checks x c (?g\<lparr>g_finished := True\<rparr>)) = []"
    using assms finish_audit [of ?g x c] by (auto simp: audit_valid_def finish_def split: if_splits)
  show ?thesis
  proof (cases "g_violations ?g = []")
    case True
    then have "tracks ?g (protocol_events evs)" using observe_all_clean [of evs iid prov pol req] by blast
    from finish_clean [OF this] show ?thesis
      using v True observe_all_clean [of evs iid prov pol req] by simp
  next
    case False
    then have "\<not> audit_valid a"
      using v extends_clean [OF extends_finish_checks, of x c "?g\<lparr>g_finished := True\<rparr>"] by auto
    then show ?thesis using False observe_all_clean [of evs iid prov pol req] by blast
  qed
qed

lemma observe_all_open: "g_violations g = [] \<Longrightarrow> \<not> g_finished (observe_all evs (new_guard iid prov pol req))"
  by simp

text \<open>What a normalizer yields over a list of records.\<close>

fun normalized ::
  "('n, 'raw) normalizer \<Rightarrow> 'n \<Rightarrow> 'raw list \<Rightarrow> guard_error + (agent_event list \<times> str list)" where
  "normalized norm_ev n [] = Inr ([], [])"
| "normalized norm_ev n (raw # raws) =
     (case norm_ev n raw of
        Inl err \<Rightarrow> Inl err
      | Inr (n', evs, reasons) \<Rightarrow>
          map_sum id (\<lambda>(evs', reasons'). (evs @ evs', reasons @ reasons')) (normalized norm_ev n' raws))"

lemma extends_reasons: "extends g (foldl (\<lambda>g r. record_violation r g) g reasons)"
  by (induction reasons arbitrary: g) (auto intro: extends_trans [OF extends_record])

lemma reasons_clean:
  "g_violations (foldl (\<lambda>g r. record_violation r g) g reasons) = [] \<longleftrightarrow>
     g_violations g = [] \<and> (\<forall>r \<in> set reasons. py_strip r = [])"
proof (induction reasons arbitrary: g)
  case (Cons r rs)
  show ?case using Cons [of "record_violation r g"] by (auto simp: record_violation_def)
qed simp

lemma reasons_blank:
  "\<forall>r \<in> set reasons. py_strip r = [] \<Longrightarrow> foldl (\<lambda>g r. record_violation r g) g reasons = g"
  by (induction reasons) (auto simp: record_violation_def)

lemma extends_audit_records: "audit_records norm_ev n raws g = Inr g' \<Longrightarrow> extends g g'"
proof (induction raws arbitrary: n g)
  case (Cons raw raws)
  from Cons.prems obtain n' evs reasons where nr: "norm_ev n raw = Inr (n', evs, reasons)"
    by (auto split: sum.splits)
  with Cons.prems have "audit_records norm_ev n' raws
      (observe_all evs (foldl (\<lambda>g r. record_violation r g) g reasons)) = Inr g'" by simp
  from extends_trans [OF extends_trans [OF extends_reasons extends_observe_all] Cons.IH [OF this]]
  show ?case .
qed simp

lemma reasons_frame [simp]:
  "g_finished (foldl (\<lambda>g r. record_violation r g) g reasons) = g_finished g"
  by (induction reasons arbitrary: g) simp_all

lemma audit_records_finished:
  "audit_records norm_ev n raws g = Inr g' \<Longrightarrow> g_finished g' = g_finished g"
proof (induction raws arbitrary: n g)
  case (Cons raw raws)
  from Cons.prems obtain n' evs reasons where "norm_ev n raw = Inr (n', evs, reasons)"
    by (auto split: sum.splits)
  with Cons show ?case by force
qed simp

lemma audit_records_raises:
  "(\<exists>err. audit_records norm_ev n raws g = Inl err) \<longleftrightarrow> (\<exists>err. normalized norm_ev n raws = Inl err)"
proof (induction raws arbitrary: n g)
  case (Cons raw raws)
  show ?case
  proof (cases "norm_ev n raw")
    case (Inr r)
    obtain n' evs reasons where r: "r = (n', evs, reasons)" by (cases r)
    show ?thesis
      using Cons.IH [of n' "observe_all evs (foldl (\<lambda>g r. record_violation r g) g reasons)"]
      by (cases "normalized norm_ev n' raws") (simp_all add: Inr r)
  qed simp
qed simp

lemma normalized_Cons_Inr:
  assumes "normalized norm_ev n (raw # raws) = Inr (evs, reasons)"
  obtains n' e1 r1 e2 r2 where "norm_ev n raw = Inr (n', e1, r1)"
    "normalized norm_ev n' raws = Inr (e2, r2)" "evs = e1 @ e2" "reasons = r1 @ r2"
proof -
  from assms obtain n' e1 r1 where nr: "norm_ev n raw = Inr (n', e1, r1)" by (auto split: sum.splits)
  with assms obtain e2 r2 where "normalized norm_ev n' raws = Inr (e2, r2)"
    by (cases "normalized norm_ev n' raws") auto
  with that [OF nr] assms nr show thesis by simp
qed

lemma audit_records_clean:
  assumes "normalized norm_ev n raws = Inr (evs, reasons)"
  shows "\<exists>g'. audit_records norm_ev n raws g = Inr g'
    \<and> (g_violations g' = [] \<longleftrightarrow>
        (\<forall>r \<in> set reasons. py_strip r = []) \<and> g_violations (observe_all evs g) = [])
    \<and> (g_violations g' = [] \<longrightarrow> g' = observe_all evs g)"
  using assms
proof (induction raws arbitrary: n g evs reasons)
  case (Cons raw raws)
  from Cons.prems obtain n' e1 r1 e2 r2 where nr: "norm_ev n raw = Inr (n', e1, r1)"
    and rest: "normalized norm_ev n' raws = Inr (e2, r2)"
    and split: "evs = e1 @ e2" "reasons = r1 @ r2" by (rule normalized_Cons_Inr)
  let ?g1 = "foldl (\<lambda>g r. record_violation r g) g r1"
  obtain g' where g': "audit_records norm_ev n' raws (observe_all e1 ?g1) = Inr g'"
    and IH: "g_violations g' = [] \<longleftrightarrow>
        (\<forall>r \<in> set r2. py_strip r = []) \<and> g_violations (observe_all e2 (observe_all e1 ?g1)) = []"
      "g_violations g' = [] \<longrightarrow> g' = observe_all e2 (observe_all e1 ?g1)"
    using Cons.IH [OF rest, of "observe_all e1 ?g1"] by blast
  have run: "audit_records norm_ev n (raw # raws) g = Inr g'" using g' by (simp add: nr)
  show ?case
  proof (cases "\<forall>r \<in> set r1. py_strip r = []")
    case True
    with IH run show ?thesis
      by (simp only: split observe_all_append reasons_blank [OF True] set_append ball_Un simp_thms sum.inject ex_simps) blast
  next
    case False
    then have "g_violations ?g1 \<noteq> []" by (simp add: reasons_clean)
    then have "g_violations g' \<noteq> []"
      using extends_clean [OF extends_trans [OF extends_observe_all extends_audit_records [OF g']]] by blast
    with False run show ?thesis by (auto simp: split)
  qed
qed simp

lemma audit_normalized_Inr:
  assumes "audit_normalized_invocation norm_ev n raws g x c = Inr (g', a)"
  obtains evs reasons where "normalized norm_ev n raws = Inr (evs, reasons)"
proof -
  from assms obtain g1 where "audit_records norm_ev n raws g = Inr g1"
    by (auto simp: audit_normalized_invocation_def split: sum.splits)
  then have "\<nexists>err. normalized norm_ev n raws = Inl err"
    using audit_records_raises [of norm_ev n raws g] by auto
  with that show thesis by (cases "normalized norm_ev n raws") auto
qed

lemma audit_valid_normalized:
  assumes "audit_normalized_invocation norm_ev n raws (new_guard iid prov pol req) x c = Inr (g', a)"
    and "normalized norm_ev n raws = Inr (evs, reasons)"
  shows "audit_valid a \<longleftrightarrow> (\<forall>r \<in> set reasons. py_strip r = [])
    \<and> (\<forall>e \<in> set evs. bound_to iid prov e) \<and> trace_ok req pol (protocol_events evs)
    \<and> ending_ok req (protocol_events evs) x c"
proof -
  let ?start = "new_guard iid prov pol req"
  obtain g where g: "audit_records norm_ev n raws ?start = Inr g"
    and rc: "g_violations g = [] \<longleftrightarrow>
        (\<forall>r \<in> set reasons. py_strip r = []) \<and> g_violations (observe_all evs ?start) = []"
      "g_violations g = [] \<longrightarrow> g = observe_all evs ?start"
    using audit_records_clean [OF assms(2), of ?start] by blast
  have fin: "finish x c g = Inr (g', a)" using assms(1) g by (simp add: audit_normalized_invocation_def)
  show ?thesis
  proof (cases "g_violations g = []")
    case True
    then have "finish x c (observe_all evs ?start) = Inr (g', a)" using fin rc by metis
    from audit_valid_trace [OF this] True rc show ?thesis by blast
  next
    case False
    have "au_violations a = g_violations (finish_checks x c (g\<lparr>g_finished := True\<rparr>))"
      using fin by (auto simp: finish_def Let_def split: if_splits)
    then have "\<not> audit_valid a"
      using False extends_clean [OF extends_finish_checks, of x c "g\<lparr>g_finished := True\<rparr>"]
      by (auto simp: audit_valid_def)
    with False rc show ?thesis using observe_all_clean [of evs iid prov pol req] by blast
  qed
qed

section \<open>What the protocol gives\<close>

lemma trace_ok_tools:
  assumes "trace_ok req pol evs"
  shows "distinct (started_ids evs) \<and> distinct (completed_ids evs)
    \<and> set (completed_ids evs) \<subseteq> set (started_ids evs)
    \<and> (\<forall>e \<in> set evs. ev_kind e = TOOL_STARTED \<longrightarrow> tool_permitted pol e)"
  using assms
proof (induction evs rule: rev_induct)
  case (snoc e evs)
  then have ok: "event_ok req pol evs e" by simp
  have "ev_kind e = TOOL_COMPLETED \<Longrightarrow> ev_item_id e \<in> set (started_ids evs)"
    using ok start_of_None [of evs "ev_item_id e"] by (auto simp: event_ok_def)
  moreover have "started_ids [] = []" "completed_ids [] = []"
    by (simp_all add: started_ids_def completed_ids_def)
  moreover have "started_ids [e] = (if ev_kind e = TOOL_STARTED then [ev_item_id e] else [])"
    "completed_ids [e] = (if ev_kind e = TOOL_COMPLETED then [ev_item_id e] else [])"
    by (simp_all add: started_ids_def completed_ids_def)
  ultimately show ?case using snoc ok by (cases "ev_kind e") (auto simp: event_ok_def)
qed (simp add: started_ids_def completed_ids_def)

lemma trace_ok_terminal_last:
  assumes "trace_ok req pol evs" and "terminals_of evs \<noteq> []"
  shows "evs \<noteq> [] \<and> is_terminal (ev_kind (last evs)) \<and> terminals_of (butlast evs) = []"
  using assms by (cases evs rule: rev_cases) (auto simp: event_ok_def terminals_of_def [of "[]"] split: if_splits)

lemma trace_ok_first:
  assumes "trace_ok req pol evs" and "require_invocation_started req" and "evs \<noteq> []"
  shows "ev_kind (hd evs) = INVOCATION_STARTED"
proof -
  from assms(1,3) have "event_ok req pol [] (hd evs)"
    by (auto simp: trace_ok_def hd_conv_nth dest: spec [of _ 0])
  with assms(2) show ?thesis
    by (cases "ev_kind (hd evs)") (auto simp: event_ok_def count_kind_def)
qed

lemma ending_ok_nonempty:
  "ending_ok req evs x c \<Longrightarrow> require_invocation_started req \<Longrightarrow> evs \<noteq> []"
  by (auto simp: ending_ok_def count_kind_def)

lemma ending_ok_exit:
  assumes "ending_ok req evs x c" and "\<not> c" and "require_process_exit req"
  shows "(terminals_of evs = [TERMINAL_COMPLETED] \<longrightarrow> x = Some 0)
    \<and> (terminals_of evs = [TERMINAL_FAILED] \<longrightarrow> x \<noteq> Some 0)"
  using assms unfolding ending_ok_def by blast

lemma observe_reject_reason:
  "\<not> fst (snd (observe ev g)) \<Longrightarrow> snd (snd (observe ev g)) = last (g_violations (fst (observe ev g)))"
  by (auto simp: observe_def Let_def split: if_splits)

lemma prefix_length_eq: "prefix xs ys \<Longrightarrow> length ys = length xs \<longleftrightarrow> ys = xs"
  by (auto simp: prefix_def)

lemma observe_verdict_length:
  "fst (snd (observe ev g)) \<longleftrightarrow> length (g_violations (fst (observe ev g))) = length (g_violations g)"
  by (simp add: observe_def Let_def)

section \<open>Properties\<close>

text \<open>C5. The lifecycle guard decides the event protocol. Feed any sequence of canonical events to a
  new guard and finalize it: finalization returns an audit, and the audit is valid exactly when
  every event carries the guard's invocation and provider, every event other than a notice is
  allowed after the events before it (session start first, tools started once and within the
  policy, completions answering an open start with the same identity, nothing after a terminal
  event) and the sequence ends the way the requirements and the exit status ask.\<close>
theorem audit_decides_protocol:
  "\<exists>g' a. finish process_exit cancelled (observe_all evs (new_guard iid prov pol req)) = Inr (g', a)
     \<and> (audit_valid a \<longleftrightarrow>
          (\<forall>e \<in> set evs. bound_to iid prov e) \<and> trace_ok req pol (protocol_events evs)
          \<and> ending_ok req (protocol_events evs) process_exit cancelled)"
proof -
  let ?g = "observe_all evs (new_guard iid prov pol req)"
  have "\<not> g_finished ?g" by simp
  from finish_audit [OF this, of process_exit cancelled] obtain g' a
    where fin: "finish process_exit cancelled ?g = Inr (g', a)" by blast
  with audit_valid_trace [OF fin] show ?thesis by blast
qed

definition sample_event :: "agent_event_kind \<Rightarrow> agent_event" where
  "sample_event k = \<lparr>ev_invocation_id = ''i1'', ev_provider = ''codex'', ev_kind = k,
     ev_raw_event_type = ''t'', ev_session_id = ''s'', ev_item_id = [], ev_tool = None,
     ev_capability = [], ev_host_metadata_arguments_valid = None,
     ev_host_metadata_result_empty = None\<rparr>"

definition sample_tool_event :: "agent_event_kind \<Rightarrow> agent_event" where
  "sample_tool_event k = (sample_event k)\<lparr>ev_item_id := ''call1'', ev_tool := Some PROOF_TOOL_IDENTITY\<rparr>"

definition sample_run :: "agent_event list" where
  "sample_run = [sample_event INVOCATION_STARTED, sample_tool_event TOOL_STARTED,
     sample_tool_event TOOL_COMPLETED, sample_event MESSAGE_COMPLETED, sample_event TERMINAL_COMPLETED]"

lemmas sample_defs = sample_run_def sample_tool_event_def sample_event_def

theorem audit_decides_protocol_witness:
  "\<exists>g' a. finish (Some 1) False (observe_all sample_run
       (new_guard ''i1'' ''codex'' (proof_eval_policy False False) default_requirements)) = Inr (g', a)
     \<and> \<not> audit_valid a"
proof -
  have "\<not> ending_ok default_requirements (protocol_events sample_run) (Some 1) False"
    by (simp add: sample_defs protocol_events_def ending_ok_def terminals_of_def is_terminal_def
        default_requirements_def)
  then show ?thesis
    using audit_decides_protocol [of "Some 1" False sample_run "''i1''" "''codex''"
        "proof_eval_policy False False" default_requirements] by auto
qed

lemma valid_audit_shape:
  assumes audit: "audit_normalized_invocation norm_ev n raws
      (new_guard iid prov (proof_eval_policy nav meta) default_requirements) process_exit cancelled
      = Inr (g', a)"
    and valid: "audit_valid a"
    and events: "normalized norm_ev n raws = Inr (evs, reasons)"
  shows "\<exists>first rest. protocol_events evs = first # rest \<and> ev_kind first = INVOCATION_STARTED"
    and "distinct (started_ids (protocol_events evs)) \<and> distinct (completed_ids (protocol_events evs))
      \<and> set (completed_ids (protocol_events evs)) = set (started_ids (protocol_events evs))"
    and "\<forall>e \<in> set evs. ev_kind e = TOOL_STARTED \<longrightarrow>
      (\<exists>tool. ev_tool e = Some tool
        \<and> (tool \<in> set (manifest_tool_identities nav) \<or> meta \<and> ev_capability e = HOST_METADATA_CAPABILITY))"
    and "\<not> cancelled \<longrightarrow> is_terminal (ev_kind (last (protocol_events evs)))
      \<and> terminals_of (butlast (protocol_events evs)) = []
      \<and> (ev_kind (last (protocol_events evs)) = TERMINAL_COMPLETED \<longleftrightarrow> process_exit = Some 0)"
proof -
  let ?ps = "protocol_events evs"
  from valid audit_valid_normalized [OF audit events]
  have t: "trace_ok default_requirements (proof_eval_policy nav meta) ?ps"
    and e: "ending_ok default_requirements ?ps process_exit cancelled" by auto
  have ne: "?ps \<noteq> []" using ending_ok_nonempty [OF e] by (simp add: default_requirements_def)
  with trace_ok_first [OF t] show "\<exists>first rest. ?ps = first # rest \<and> ev_kind first = INVOCATION_STARTED"
    by (cases ?ps) (auto simp: default_requirements_def)
  show "distinct (started_ids ?ps) \<and> distinct (completed_ids ?ps)
      \<and> set (completed_ids ?ps) = set (started_ids ?ps)"
    using trace_ok_tools [OF t] e by (auto simp: ending_ok_def)
  have p: "\<forall>e \<in> set ?ps. ev_kind e = TOOL_STARTED \<longrightarrow> tool_permitted (proof_eval_policy nav meta) e"
    using trace_ok_tools [OF t] by blast
  show "\<forall>e \<in> set evs. ev_kind e = TOOL_STARTED \<longrightarrow> (\<exists>tool. ev_tool e = Some tool
      \<and> (tool \<in> set (manifest_tool_identities nav) \<or> meta \<and> ev_capability e = HOST_METADATA_CAPABILITY))"
  proof (intro ballI impI)
    fix e assume "e \<in> set evs" and "ev_kind e = TOOL_STARTED"
    with p have "tool_permitted (proof_eval_policy nav meta) e" by (simp add: protocol_events_def)
    then show "\<exists>tool. ev_tool e = Some tool
      \<and> (tool \<in> set (manifest_tool_identities nav) \<or> meta \<and> ev_capability e = HOST_METADATA_CAPABILITY)"
      by (auto simp: tool_permitted_def proof_eval_policy_def split: option.splits if_splits)
  qed
  show "\<not> cancelled \<longrightarrow> is_terminal (ev_kind (last ?ps)) \<and> terminals_of (butlast ?ps) = []
      \<and> (ev_kind (last ?ps) = TERMINAL_COMPLETED \<longleftrightarrow> process_exit = Some 0)"
  proof
    assume c: "\<not> cancelled"
    with e have one: "length (terminals_of ?ps) = 1" by (simp add: ending_ok_def default_requirements_def)
    then have "terminals_of ?ps \<noteq> []" by auto
    note lst = trace_ok_terminal_last [OF t this]
    have "terminals_of ?ps = [ev_kind (last ?ps)]"
      using terminals_of_snoc [of "butlast ?ps" "last ?ps"] lst by simp
    moreover from e c have
      "terminals_of ?ps = [TERMINAL_COMPLETED] \<longrightarrow> process_exit = Some 0"
      "terminals_of ?ps = [TERMINAL_FAILED] \<longrightarrow> process_exit \<noteq> Some 0"
      using ending_ok_exit [OF e c] by (auto simp: default_requirements_def)
    moreover have "ev_kind (last ?ps) \<in> {TERMINAL_COMPLETED, TERMINAL_FAILED}"
      using lst by (auto simp: is_terminal_def)
    ultimately show "is_terminal (ev_kind (last ?ps)) \<and> terminals_of (butlast ?ps) = []
        \<and> (ev_kind (last ?ps) = TERMINAL_COMPLETED \<longleftrightarrow> process_exit = Some 0)"
      using lst by auto
  qed
qed

text \<open>A valid audit of a proof invocation, as a live runner applies it (normalizer and guard over the
  raw records, default requirements, proof-evaluation policy): the first protocol event starts
  the session; no tool item is started twice, and the completed items are exactly the started
  ones, each completed once; every tool that started is one of the manifest's tools or the
  permitted empty host-metadata call; and unless the invocation was cancelled, the last protocol
  event is the only terminal one and agrees with the exit status of the process.\<close>
lemma valid_audit_is_proof_run:
  assumes "audit_normalized_invocation norm_ev n raws
      (new_guard iid prov (proof_eval_policy nav meta) default_requirements) process_exit cancelled
      = Inr (g', a)"
    and "audit_valid a"
    and "normalized norm_ev n raws = Inr (evs, reasons)"
  shows "(\<exists>first rest. protocol_events evs = first # rest \<and> ev_kind first = INVOCATION_STARTED)
    \<and> distinct (started_ids (protocol_events evs)) \<and> distinct (completed_ids (protocol_events evs))
    \<and> set (completed_ids (protocol_events evs)) = set (started_ids (protocol_events evs))
    \<and> (\<forall>e \<in> set evs. ev_kind e = TOOL_STARTED \<longrightarrow>
        (\<exists>tool. ev_tool e = Some tool
          \<and> (tool \<in> set (manifest_tool_identities nav)
             \<or> meta \<and> ev_capability e = HOST_METADATA_CAPABILITY)))
    \<and> (\<not> cancelled \<longrightarrow> is_terminal (ev_kind (last (protocol_events evs)))
        \<and> terminals_of (butlast (protocol_events evs)) = []
        \<and> (ev_kind (last (protocol_events evs)) = TERMINAL_COMPLETED \<longleftrightarrow> process_exit = Some 0))"
  using valid_audit_shape [OF assms] by (intro conjI) blast+

text \<open>C18. Decisions and violations agree. Observing an event appends to the violations and never removes
  one; the event is allowed exactly when nothing was appended, and a rejection gives the last
  violation as its reason. Nothing is accepted after finalization, which raises when repeated.\<close>
theorem observe_decision_exact:
  "prefix (g_violations g) (g_violations (fst (observe ev g)))
   \<and> (fst (snd (observe ev g)) \<longleftrightarrow> g_violations (fst (observe ev g)) = g_violations g)
   \<and> (fst (snd (observe ev g))
       \<or> snd (snd (observe ev g)) = last (g_violations (fst (observe ev g))))
   \<and> (if g_finished g
      then \<not> fst (snd (observe ev g))
        \<and> finish x c g = Inl (RuntimeError ''provider invocation was finalized more than once'')
      else \<exists>g' a. finish x c g = Inr (g', a) \<and> g_finished g' \<and> au_violations a = g_violations g')"
proof (intro conjI)
  have p: "prefix (g_violations g) (g_violations (fst (observe ev g)))"
    using extends_observe [of g ev] by (simp add: extends_def)
  show "prefix (g_violations g) (g_violations (fst (observe ev g)))" by (rule p)
  show "fst (snd (observe ev g)) \<longleftrightarrow> g_violations (fst (observe ev g)) = g_violations g"
    using observe_verdict_length [of ev g] prefix_length_eq [OF p] by simp
  show "fst (snd (observe ev g)) \<or> snd (snd (observe ev g)) = last (g_violations (fst (observe ev g)))"
    using observe_reject_reason by blast
  show "if g_finished g
      then \<not> fst (snd (observe ev g))
        \<and> finish x c g = Inl (RuntimeError ''provider invocation was finalized more than once'')
      else \<exists>g' a. finish x c g = Inr (g', a) \<and> g_finished g' \<and> au_violations a = g_violations g'"
    using finish_audit [of g x c] by (auto simp: observe_def finish_def)
qed

end
