(* ===== verification/Lemma_Decls.thy ===== *)
theory Lemma_Decls
  imports Proof_Text
begin

text \<open>
  \<open>core/easycrypt/lemma_decls.py\<close>, the one resolver for the declaration of a lemma and its own
  proof, with its two users \<open>find_target_proof_block\<close> (\<open>core/easycrypt/eval_source_prep.py\<close>) and
  \<open>workflow/interleaved/proof_source.py\<close>. All matching runs on \<^const>\<open>easycrypt_code\<close>, whose
  offsets are the source's.
\<close>

definition DECLARATION_KEYWORDS :: re where
  "DECLARATION_KEYWORDS = Alts (map Lit [''lemma'', ''theorem'', ''equiv'', ''hoare'', ''ehoare'', ''phoare''])"

definition word_or_quote :: "char \<Rightarrow> bool" where
  "word_or_quote c \<longleftrightarrow> py_word c \<or> c = quote_char"

definition Spaces1 :: re where
  "Spaces1 = Plus (Cls py_isspace)"

definition BY_RE :: re where
  "BY_RE = Seqs [NotBehind word_or_quote, Lit ''by'', NotAhead (Cls word_or_quote)]"

definition QED_SENTENCE_RE :: re where
  "QED_SENTENCE_RE = Seqs [Lit ''qed'', Spaces, Cls (\<lambda>c. c = dot)]"

definition EMPTY_PROOF_MARKER_RE :: re where
  "EMPTY_PROOF_MARKER_RE =
     Seqs [NotBehind word_or_quote, Alt (Lit ''proof'') (Lit ''qed''), Cls (\<lambda>c. c = dot)]"

definition PROOF_OPENER_RE :: re where
  "PROOF_OPENER_RE =
     Seqs [Lit ''proof'', Spaces, Cls (\<lambda>c. c = dot), Ahead (Alt (Cls py_isspace) Dollar)]"

definition DECLARATION_SENTENCE_RE :: re where
  "DECLARATION_SENTENCE_RE =
     Seqs [Opt (Seq (Alts (map Lit [''local'', ''declare'', ''global''])) Spaces1),
           Alts (map Lit [''lemma'', ''theorem'', ''axiom'', ''equiv'', ''op'', ''pred'', ''type'',
             ''module'', ''clone'', ''require'', ''section'', ''theory'', ''abstract'', ''end'',
             ''realize'']),
           NotAhead (Cls word_or_quote)]"

definition lemma_decl_re :: "str \<Rightarrow> re" where
  "lemma_decl_re lemma_name =
     Seqs [NotBehind word_or_quote, WordB, Opt (Seq (Lit ''local'') Spaces1), DECLARATION_KEYWORDS,
           Spaces1, Lit lemma_name,
           Ahead (Alt (Cls (\<lambda>c. py_isspace c \<or> c = CHR '':'' \<or> c = CHR ''('' \<or> c = CHR ''['')) Dollar),
           NotAhead (Seq Spaces (Alts (map Lit [''='', ''<-'', ''<=''])))]"

section \<open>Declarations and their proofs\<close>

datatype proof_kind = By_Proof | Qed_Proof | Open_Proof

record lemma_proof =
  lp_kind :: proof_kind
  lp_start :: nat
  lp_end :: nat

record lemma_declaration =
  ld_start :: nat
  ld_name_end :: nat
  ld_statement_end :: "nat option"
  ld_proof :: "lemma_proof option"

text \<open>\<open>bisect_right(ends, x)\<close> on an increasing list.\<close>

definition bisect_right :: "nat list \<Rightarrow> nat \<Rightarrow> nat" where
  "bisect_right es x = length (takeWhile (\<lambda>e. e \<le> x) es)"

text \<open>The start of the sentence that follows \<open>last_end\<close> and ends at \<open>end\<close>.\<close>

definition sentence_start :: "str \<Rightarrow> nat \<Rightarrow> nat \<Rightarrow> nat" where
  "sentence_start code last_end e = e - length (py_lstrip (py_slice code last_end e))"

text \<open>The loop over the sentences after the statement: \<open>last_end\<close> and \<open>proof_start\<close> are the loop
  variables, the result is the proof found.\<close>

fun proof_scan :: "str \<Rightarrow> nat list \<Rightarrow> nat \<Rightarrow> nat option \<Rightarrow> lemma_proof option" where
  "proof_scan code [] last_end proof_start =
     map_option (\<lambda>s. \<lparr>lp_kind = Open_Proof, lp_start = s, lp_end = last_end\<rparr>) proof_start"
| "proof_scan code (e # es) last_end proof_start =
     (let start = sentence_start code last_end e;
          sentence = py_slice code start e;
          proof_start' = (case proof_start of None \<Rightarrow> start | Some s \<Rightarrow> s)
      in if re_match DECLARATION_SENTENCE_RE sentence 0 \<noteq> None
         then map_option (\<lambda>s. \<lparr>lp_kind = Open_Proof, lp_start = s, lp_end = last_end\<rparr>) proof_start
         else if re_fullmatch QED_SENTENCE_RE sentence
         then Some \<lparr>lp_kind = Qed_Proof, lp_start = proof_start', lp_end = e\<rparr>
         else proof_scan code es e (Some proof_start'))"

definition declaration_at :: "str \<Rightarrow> nat list \<Rightarrow> nat \<Rightarrow> nat \<Rightarrow> lemma_declaration" where
  "declaration_at code es start name_end =
     (let index = bisect_right es name_end in
      if index = length es
      then \<lparr>ld_start = start, ld_name_end = name_end, ld_statement_end = None, ld_proof = None\<rparr>
      else
        (let statement_end = es ! index;
             proof =
               (case re_search BY_RE (take (statement_end - 1) code) name_end of
                  Some (b, _, _) \<Rightarrow> Some \<lparr>lp_kind = By_Proof, lp_start = b, lp_end = statement_end\<rparr>
                | None \<Rightarrow> proof_scan code (drop (Suc index) es) statement_end None)
         in \<lparr>ld_start = start, ld_name_end = name_end, ld_statement_end = Some statement_end,
             ld_proof = proof\<rparr>))"

definition lemma_declarations :: "str \<Rightarrow> str \<Rightarrow> lemma_declaration list" where
  "lemma_declarations content lemma_name =
     (let code = easycrypt_code content; es = sentence_ends content code
      in map (\<lambda>(a, b, _). declaration_at code es a b) (re_finditer (lemma_decl_re lemma_name) code))"

definition has_checked_proof :: "str \<Rightarrow> lemma_declaration \<Rightarrow> bool" where
  "has_checked_proof content d =
     (case ld_proof d of
        None \<Rightarrow> False
      | Some p \<Rightarrow>
          if lp_kind p = Open_Proof then False
          else if unchecked_proof_constructs (py_slice content (ld_start d) (lp_end p)) \<noteq> [] then False
          else py_strip (re_sub EMPTY_PROOF_MARKER_RE []
                 (easycrypt_code (py_slice content (lp_start p) (lp_end p)))) \<noteq> [])"

text \<open>\<open>code.rfind(pat, a, b)\<close>; \<open>None\<close> for -1.\<close>

definition rfind_in :: "str \<Rightarrow> str \<Rightarrow> nat \<Rightarrow> nat \<Rightarrow> nat option" where
  "rfind_in pat t a b =
     find (\<lambda>i. i + length pat \<le> b \<and> starts_at pat t i) (rev [a..<Suc b])"

definition proof_tactics_span :: "str \<Rightarrow> lemma_declaration \<Rightarrow> span option" where
  "proof_tactics_span content d =
     (case ld_proof d of
        None \<Rightarrow> None
      | Some p \<Rightarrow>
          if lp_kind p = By_Proof then Some (lp_start p + length ''by'', lp_end p)
          else
            (let code = easycrypt_code content;
                 start = (case re_match_end PROOF_OPENER_RE code (lp_start p) of
                            Some e \<Rightarrow> e + length (takeWhile py_isspace (py_slice content e (lp_end p)))
                          | None \<Rightarrow> lp_start p);
                 e = (if lp_kind p = Qed_Proof
                      then (case rfind_in ''qed'' code start (lp_end p) of
                              Some q \<Rightarrow> max start q | None \<Rightarrow> start)
                      else lp_end p)
             in Some (start, e)))"

definition target_declaration :: "str \<Rightarrow> str \<Rightarrow> lemma_declaration option" where
  "target_declaration content lemma_name =
     (let ds = lemma_declarations content lemma_name in
      case find (\<lambda>d. \<not> has_checked_proof content d) ds of
        Some d \<Rightarrow> Some d
      | None \<Rightarrow> (case ds of [] \<Rightarrow> None | d # _ \<Rightarrow> Some d))"

definition lemma_decl_matches :: "str \<Rightarrow> str \<Rightarrow> py_match list" where
  "lemma_decl_matches content lemma_name =
     re_finditer (lemma_decl_re lemma_name) (easycrypt_code content)"

definition lemma_decl_lines :: "str \<Rightarrow> str \<Rightarrow> nat list" where
  "lemma_decl_lines content lemma_name =
     map (\<lambda>m. count_list (take (fst m) content) newline + 1) (lemma_decl_matches content lemma_name)"

section \<open>The target's proof block and body\<close>

definition find_target_proof_block :: "str \<Rightarrow> str \<Rightarrow> span option" where
  "find_target_proof_block content lemma_name =
     (case target_declaration content lemma_name of
        None \<Rightarrow> None
      | Some d \<Rightarrow>
          (case ld_proof d of
             None \<Rightarrow> None
           | Some p \<Rightarrow> if lp_kind p = By_Proof then None else Some (lp_start p, lp_end p)))"

datatype source_error = SourceValueError str

text \<open>\<open>(?i)\<close> applied to a literal.\<close>

definition LitI :: "str \<Rightarrow> re" where
  "LitI t = Seqs (map (\<lambda>c. Cls (\<lambda>x. py_lower_char x = c)) t)"

definition PROOF_DOT_I :: re where
  "PROOF_DOT_I = Seqs [WordB, LitI ''proof'', Spaces, Cls (\<lambda>c. c = dot)]"

definition QED_DOT_I :: re where
  "QED_DOT_I = Seqs [WordB, LitI ''qed'', Spaces, Cls (\<lambda>c. c = dot)]"

definition proof_body_span :: "str \<Rightarrow> str \<Rightarrow> source_error + (str \<times> span)" where
  "proof_body_span content lemma =
     (case find_target_proof_block content lemma of
        None \<Rightarrow> Inl (SourceValueError (''could not find proof block for '' @ lemma))
      | Some (start, e) \<Rightarrow>
          (let block_text = py_slice content start e in
           case (re_search PROOF_DOT_I block_text 0, re_finditer QED_DOT_I block_text) of
             (Some (_, proof_end, _), q # qs) \<Rightarrow>
               if fst (last (q # qs)) < proof_end
               then Inl (SourceValueError (lemma @ '' has no proof./qed. block''))
               else (let body_start = start + proof_end; body_end = start + fst (last (q # qs))
                     in Inr (py_slice content body_start body_end, (body_start, body_end)))
           | _ \<Rightarrow> Inl (SourceValueError (lemma @ '' has no proof./qed. block''))))"

definition lemma_prefix_projection :: "str \<Rightarrow> str \<Rightarrow> source_error + str" where
  "lemma_prefix_projection content lemma =
     (case find_target_proof_block content lemma of
        None \<Rightarrow> Inl (SourceValueError (''could not project proof block for '' @ lemma))
      | Some (start, _) \<Rightarrow>
          Inr (take start content @ ''proof.'' @ [newline] @ ''  admit.'' @ [newline] @ ''qed.''))"

section \<open>The sentences of a proof\<close>

text \<open>The \<open>k\<close>-th sentence and what it is.\<close>

definition sentence_at :: "str \<Rightarrow> nat list \<Rightarrow> nat \<Rightarrow> str" where
  "sentence_at code es k = py_lstrip (py_slice code (es ! (k - 1)) (es ! k))"

definition declares :: "str \<Rightarrow> bool" where
  "declares sentence \<longleftrightarrow> re_match DECLARATION_SENTENCE_RE sentence 0 \<noteq> None"

definition closes :: "str \<Rightarrow> bool" where
  "closes sentence \<longleftrightarrow> re_fullmatch QED_SENTENCE_RE sentence"

definition tactic_sentence :: "str \<Rightarrow> nat list \<Rightarrow> nat \<Rightarrow> bool" where
  "tactic_sentence code es k \<longleftrightarrow> \<not> declares (sentence_at code es k) \<and> \<not> closes (sentence_at code es k)"

lemma py_lstrip_suffix: "\<exists>u. t = u @ py_lstrip t \<and> list_all py_isspace u"
proof (intro exI conjI)
  show "t = takeWhile py_isspace t @ py_lstrip t" by (simp add: py_lstrip_def lstrip_by_def)
  show "list_all py_isspace (takeWhile py_isspace t)" by (auto simp: list_all_iff dest: set_takeWhileD)
qed

lemma sentence_start_bounds:
  assumes "a \<le> e" "e \<le> length code"
  shows "a \<le> sentence_start code a e" "sentence_start code a e \<le> e"
    "py_slice code (sentence_start code a e) e = py_lstrip (py_slice code a e)"
proof -
  obtain u where u: "py_slice code a e = u @ py_lstrip (py_slice code a e)"
    using py_lstrip_suffix by blast
  have l: "length (py_slice code a e) = e - a" using assms by (simp add: py_slice_def)
  then have lu: "length u + length (py_lstrip (py_slice code a e)) = e - a"
    using u by (metis length_append)
  then show "a \<le> sentence_start code a e" "sentence_start code a e \<le> e"
    using assms by (simp_all add: sentence_start_def)
  have "sentence_start code a e = a + length u" using lu assms by (simp add: sentence_start_def)
  then have "py_slice code (sentence_start code a e) e = drop (length u) (py_slice code a e)"
    by (simp add: py_slice_def drop_take add.commute)
  also have "\<dots> = py_lstrip (py_slice code a e)"
    using u append_eq_conv_conj [of u "py_lstrip (py_slice code a e)" "py_slice code a e"] by simp
  finally show "py_slice code (sentence_start code a e) e = py_lstrip (py_slice code a e)" .
qed

text \<open>The ends of the sentences of a source, as the scan uses them.\<close>

definition ends_of :: "str \<Rightarrow> nat list \<Rightarrow> bool" where
  "ends_of code es \<longleftrightarrow> sorted_wrt (<) es \<and> list_all (\<lambda>e. 0 < e \<and> e \<le> length code \<and> code ! (e - 1) = dot) es"

lemma ends_of_nth:
  "ends_of code es \<Longrightarrow> k < length es \<Longrightarrow> 0 < es ! k \<and> es ! k \<le> length code \<and> code ! (es ! k - 1) = dot"
  by (simp add: ends_of_def list_all_length)

lemma ends_of_less: "ends_of code es \<Longrightarrow> j < k \<Longrightarrow> k < length es \<Longrightarrow> es ! j < es ! k"
  by (simp add: ends_of_def sorted_wrt_nth_less)

lemma ends_of_sentence_ends: "ends_of (easycrypt_code t) (sentence_ends t (easycrypt_code t))"
  using sentence_ends_from_sorted [of t "easycrypt_code t" 0]
    sentence_ends_from_sound [of _ t "easycrypt_code t" 0]
  by (auto simp: ends_of_def list_all_iff sentence_ends_def)

lemma dot_not_space [simp]: "\<not> py_isspace dot"
  by (simp add: py_isspace_def)

lemma sentence_start_less:
  assumes es: "ends_of code es" and k: "Suc k < length es"
  shows "sentence_start code (es ! k) (es ! Suc k) < es ! Suc k"
proof -
  let ?t = "py_slice code (es ! k) (es ! Suc k)"
  have b: "es ! k < es ! Suc k" "es ! Suc k \<le> length code" "code ! (es ! Suc k - 1) = dot"
    using ends_of_less [OF es _ k] ends_of_nth [OF es k] by auto
  have l: "length ?t = es ! Suc k - es ! k" using b by (simp add: py_slice_def)
  then have ne: "?t \<noteq> []" using b(1) by (metis length_0_conv zero_less_diff less_irrefl)
  have "?t ! (es ! Suc k - es ! k - 1) = code ! (es ! Suc k - 1)" using b by (simp add: py_slice_def)
  then have "last ?t = dot" using b ne by (simp add: last_conv_nth l)
  moreover obtain u where u: "?t = u @ py_lstrip ?t" "list_all py_isspace u" using py_lstrip_suffix by blast
  ultimately have "py_lstrip ?t \<noteq> []"
    using ne by (metis append_Nil2 dot_not_space last_in_set list_all_iff)
  then show ?thesis using b by (simp add: sentence_start_def)
qed

definition scan_result_ok ::
  "str \<Rightarrow> nat list \<Rightarrow> nat \<Rightarrow> nat option \<Rightarrow> lemma_proof option \<Rightarrow> bool" where
  "scan_result_ok code es i ps r \<longleftrightarrow>
     (case r of
        None \<Rightarrow> ps = None \<and> (Suc i = length es \<or> declares (sentence_at code es (Suc i)))
      | Some p \<Rightarrow>
          (\<exists>m < length es. i \<le> m \<and> lp_end p = es ! m \<and> (ps = None \<longrightarrow> i < m)
            \<and> lp_start p = (case ps of Some s \<Rightarrow> s | None \<Rightarrow> sentence_start code (es ! i) (es ! Suc i))
            \<and> (\<forall>k. i < k \<and> k < m \<longrightarrow> tactic_sentence code es k)
            \<and> (case lp_kind p of
                 By_Proof \<Rightarrow> False
               | Qed_Proof \<Rightarrow> i < m \<and> closes (sentence_at code es m)
               | Open_Proof \<Rightarrow> (i < m \<longrightarrow> tactic_sentence code es m)
                   \<and> (Suc m = length es \<or> declares (sentence_at code es (Suc m))))))"

lemma scan_result_ok_Some:
  "scan_result_ok code es i ps (Some p) \<longleftrightarrow>
     (\<exists>m < length es. i \<le> m \<and> lp_end p = es ! m \<and> (ps = None \<longrightarrow> i < m)
            \<and> lp_start p = (case ps of Some s \<Rightarrow> s | None \<Rightarrow> sentence_start code (es ! i) (es ! Suc i))
            \<and> (\<forall>k. i < k \<and> k < m \<longrightarrow> tactic_sentence code es k)
            \<and> (case lp_kind p of
                 By_Proof \<Rightarrow> False
               | Qed_Proof \<Rightarrow> i < m \<and> closes (sentence_at code es m)
               | Open_Proof \<Rightarrow> (i < m \<longrightarrow> tactic_sentence code es m)
                   \<and> (Suc m = length es \<or> declares (sentence_at code es (Suc m)))))"
  by (simp add: scan_result_ok_def)

lemma scan_result_ok_next:
  assumes "scan_result_ok code es (Suc i) (Some s) r" and "tactic_sentence code es (Suc i)"
    and "s = (case ps of Some s \<Rightarrow> s | None \<Rightarrow> sentence_start code (es ! i) (es ! Suc i))"
  shows "scan_result_ok code es i ps r"
proof (cases r)
  case None
  with assms(1) show ?thesis by (simp add: scan_result_ok_def)
next
  case (Some p)
  with assms(1) obtain m where m: "m < length es" "Suc i \<le> m" "lp_end p = es ! m" "lp_start p = s"
    "\<forall>k. Suc i < k \<and> k < m \<longrightarrow> tactic_sentence code es k"
    "case lp_kind p of By_Proof \<Rightarrow> False | Qed_Proof \<Rightarrow> Suc i < m \<and> closes (sentence_at code es m)
       | Open_Proof \<Rightarrow> (Suc i < m \<longrightarrow> tactic_sentence code es m)
           \<and> (Suc m = length es \<or> declares (sentence_at code es (Suc m)))"
    by (auto simp: scan_result_ok_Some)
  have "\<forall>k. i < k \<and> k < m \<longrightarrow> tactic_sentence code es k"
    using m(5) assms(2) by (metis Suc_lessI)
  moreover have "Suc i < m \<or> m = Suc i" using m(2) by auto
  ultimately show ?thesis
    unfolding Some scan_result_ok_Some
    using m assms(2,3) by (intro exI [of _ m]) (auto split: proof_kind.splits)
qed

lemma proof_scan_exact:
  assumes "ends_of code es" and "i < length es"
  shows "scan_result_ok code es i ps (proof_scan code (drop (Suc i) es) (es ! i) ps)"
  using assms(2)
proof (induction "length es - i" arbitrary: i ps)
  case (Suc n)
  show ?case
  proof (cases "Suc i < length es")
    case False
    then have "Suc i = length es" using Suc.prems by simp
    then show ?thesis
      by (cases ps) (auto simp: scan_result_ok_def intro!: exI [of _ i])
  next
    case True
    let ?start = "sentence_start code (es ! i) (es ! Suc i)"
    let ?s = "case ps of Some s \<Rightarrow> s | None \<Rightarrow> ?start"
    have d: "drop (Suc i) es = es ! Suc i # drop (Suc (Suc i)) es" using True by (simp add: Cons_nth_drop_Suc)
    have sent: "py_slice code ?start (es ! Suc i) = sentence_at code es (Suc i)"
      using sentence_start_bounds(3) ends_of_less [OF assms(1), of i "Suc i"] ends_of_nth [OF assms(1) True] True
      by (simp add: sentence_at_def)
    have IH: "scan_result_ok code es (Suc i) (Some ?s) (proof_scan code (drop (Suc (Suc i)) es) (es ! Suc i) (Some ?s))"
      using Suc.hyps(1) [of "Suc i"] Suc.hyps(2) True by simp
    consider "declares (sentence_at code es (Suc i))"
      | "\<not> declares (sentence_at code es (Suc i))" "closes (sentence_at code es (Suc i))"
      | "tactic_sentence code es (Suc i)" by (auto simp: tactic_sentence_def)
    then show ?thesis
    proof cases
      case 1
      then have "proof_scan code (drop (Suc i) es) (es ! i) ps
          = map_option (\<lambda>s. \<lparr>lp_kind = Open_Proof, lp_start = s, lp_end = es ! i\<rparr>) ps"
        by (simp add: d sent Let_def declares_def)
      with 1 True show ?thesis by (cases ps) (auto simp: scan_result_ok_def intro!: exI [of _ i])
    next
      case 2
      then show ?thesis
        using True by (auto simp: d sent Let_def declares_def closes_def scan_result_ok_def
            split: option.split intro!: exI [of _ "Suc i"])
    next
      case 3
      then have "proof_scan code (drop (Suc i) es) (es ! i) ps
          = proof_scan code (drop (Suc (Suc i)) es) (es ! Suc i) (Some ?s)"
        by (simp add: d sent Let_def tactic_sentence_def declares_def closes_def)
      with scan_result_ok_next [OF IH 3] show ?thesis by simp
    qed
  qed
qed simp

section \<open>Declarations\<close>

lemma bisect_right_split:
  assumes "sorted_wrt (<) es"
  shows "k < bisect_right es x \<Longrightarrow> es ! k \<le> x"
    and "bisect_right es x \<le> k \<Longrightarrow> k < length es \<Longrightarrow> x < es ! k"
proof -
  show "es ! k \<le> x" if "k < bisect_right es x"
    using that nth_mem [of k "takeWhile (\<lambda>e. e \<le> x) es"] takeWhile_nth [of k "\<lambda>e. e \<le> x" es]
    by (auto simp: bisect_right_def dest: set_takeWhileD)
  assume b: "bisect_right es x \<le> k" and k: "k < length es"
  let ?i = "bisect_right es x"
  have "x < es ! ?i" using nth_length_takeWhile [of "\<lambda>e. e \<le> x" es] b k by (simp add: bisect_right_def)
  moreover have "es ! ?i \<le> es ! k"
    using b k assms sorted_wrt_nth_less [of "(<)" es ?i k] by (cases "?i = k") auto
  ultimately show "x < es ! k" by simp
qed

text \<open>What a declaration found at a match of the name is: \<open>es\<close> are the sentence ends.\<close>

definition declaration_ok :: "str \<Rightarrow> nat list \<Rightarrow> lemma_declaration \<Rightarrow> bool" where
  "declaration_ok code es d \<longleftrightarrow>
     (case ld_statement_end d of
        None \<Rightarrow> ld_proof d = None \<and> list_all (\<lambda>e. e \<le> ld_name_end d) es
      | Some s \<Rightarrow>
          (\<exists>i < length es. s = es ! i \<and> ld_name_end d < s
            \<and> (\<forall>k < i. es ! k \<le> ld_name_end d)
            \<and> (case ld_proof d of
                 Some p \<Rightarrow>
                   if lp_kind p = By_Proof
                   then ld_name_end d \<le> lp_start p \<and> lp_start p < s \<and> lp_end p = s
                     \<and> (\<exists>b. re_match BY_RE (take (s - 1) code) (lp_start p) = Some b)
                   else scan_result_ok code es i None (ld_proof d)
               | None \<Rightarrow> scan_result_ok code es i None None)))"

lemma declaration_at_ok:
  assumes es: "ends_of code es" and n: "name_end \<le> length code"
  shows "declaration_ok code es (declaration_at code es start name_end)"
proof -
  let ?i = "bisect_right es name_end"
  have srt: "sorted_wrt (<) es" using es by (simp add: ends_of_def)
  have le: "?i \<le> length es" by (simp add: bisect_right_def length_takeWhile_le)
  show ?thesis
  proof (cases "?i = length es")
    case True
    then have "list_all (\<lambda>e. e \<le> name_end) es"
      using bisect_right_split(1) [OF srt, of _ name_end] by (simp add: list_all_length)
    with True show ?thesis by (simp add: declaration_at_def declaration_ok_def)
  next
    case False
    with le have i: "?i < length es" by simp
    let ?s = "es ! ?i"
    have s: "name_end < ?s" "\<forall>k < ?i. es ! k \<le> name_end"
      using bisect_right_split [OF srt] i by auto
    show ?thesis
    proof (cases "re_search BY_RE (take (?s - 1) code) name_end")
      case None
      have r: "scan_result_ok code es ?i None (proof_scan code (drop (Suc ?i) es) ?s None)"
        by (rule proof_scan_exact [OF es i])
      moreover have "p \<in> set_option (proof_scan code (drop (Suc ?i) es) ?s None) \<Longrightarrow> lp_kind p \<noteq> By_Proof" for p
        using r by (auto simp: scan_result_ok_def split: proof_kind.splits)
      ultimately show ?thesis
        using None False i s
        by (auto simp: declaration_at_def declaration_ok_def Let_def split: option.split intro!: exI [of _ ?i])
    next
      case (Some m)
      obtain a b g where m: "m = (a, b, g)" by (cases m)
      have len: "?s - 1 \<le> length code" "0 < ?s" using ends_of_nth [OF es i] by auto
      have "name_end \<le> length (take (?s - 1) code)" using s(1) len n by simp
      from re_search_bounds [OF Some [unfolded m] this] len
      have "name_end \<le> a" "a < ?s" by auto
      with Some m False i s re_search_match [OF Some [unfolded m]] show ?thesis
        by (auto simp: declaration_at_def declaration_ok_def Let_def intro!: exI [of _ ?i])
    qed
  qed
qed

lemma lemma_declarations_mem:
  assumes "d \<in> set (lemma_declarations content name)"
  obtains g where "re_match (lemma_decl_re name) (easycrypt_code content) (ld_start d) = Some (ld_name_end d, g)"
    and "ld_start d \<le> ld_name_end d" and "ld_name_end d \<le> length content"
    and "declaration_ok (easycrypt_code content) (sentence_ends content (easycrypt_code content)) d"
proof -
  let ?code = "easycrypt_code content"
  let ?es = "sentence_ends content ?code"
  from assms obtain a b g where m: "(a, b, g) \<in> set (re_finditer (lemma_decl_re name) ?code)"
    and d: "d = declaration_at ?code ?es a b"
    by (auto simp: lemma_declarations_def Let_def)
  have f: "ld_start d = a" "ld_name_end d = b" by (simp_all add: d declaration_at_def Let_def)
  from re_finditer_match [OF m] have "re_match (lemma_decl_re name) ?code a = Some (b, g)" "a \<le> b" "b \<le> length content"
    by auto
  with f declaration_at_ok [OF ends_of_sentence_ends, of b content a] that show ?thesis by (simp add: d)
qed

lemma declaration_proof_bounds:
  assumes es: "ends_of code es" and ok: "declaration_ok code es d" and p: "ld_proof d = Some p"
  shows "ld_name_end d \<le> lp_start p \<and> lp_start p < lp_end p \<and> lp_end p \<le> length code \<and> lp_end p \<in> set es"
proof -
  from ok p obtain i where i: "i < length es" "ld_name_end d < es ! i"
    and r: "if lp_kind p = By_Proof then ld_name_end d \<le> lp_start p \<and> lp_start p < es ! i \<and> lp_end p = es ! i
      else scan_result_ok code es i None (Some p)"
    by (auto simp: declaration_ok_def split: option.splits if_splits)
  show ?thesis
  proof (cases "lp_kind p = By_Proof")
    case True
    with r i ends_of_nth [OF es i(1)] show ?thesis by auto
  next
    case False
    with r obtain m where m: "m < length es" "i < m" "lp_end p = es ! m"
      "lp_start p = sentence_start code (es ! i) (es ! Suc i)"
      by (auto simp: scan_result_ok_Some)
    have si: "Suc i < length es" using m by simp
    have "es ! Suc i \<le> es ! m"
      using m ends_of_less [OF es, of "Suc i" m] by (cases "Suc i = m") auto
    with m i sentence_start_less [OF es si] ends_of_nth [OF es m(1)] ends_of_nth [OF es si]
      sentence_start_bounds(1) [of "es ! i" "es ! Suc i" code] ends_of_less [OF es _ si, of i]
    show ?thesis by auto
  qed
qed

lemma target_declaration_mem:
  "target_declaration content name = Some d \<Longrightarrow> d \<in> set (lemma_declarations content name)"
  by (auto simp: target_declaration_def Let_def find_Some_iff split: option.splits list.splits)

lemma target_block_bounds:
  assumes "find_target_proof_block content lemma = Some (start, e)"
  shows "start < e \<and> e \<le> length content"
proof -
  from assms obtain d p where d: "target_declaration content lemma = Some d" "ld_proof d = Some p"
    "start = lp_start p" "e = lp_end p"
    by (auto simp: find_target_proof_block_def split: option.splits if_splits)
  from lemma_declarations_mem [OF target_declaration_mem [OF d(1)]]
  have "declaration_ok (easycrypt_code content) (sentence_ends content (easycrypt_code content)) d" by blast
  from declaration_proof_bounds [OF ends_of_sentence_ends this d(2)] d show ?thesis by simp
qed

lemma slice_split:
  "a \<le> b \<Longrightarrow> b \<le> length t \<Longrightarrow> t = take a t @ py_slice t a b @ drop b t"
  by (metis append_take_drop_id drop_drop le_add_diff_inverse2 py_slice_def)

lemma proof_body_bounds:
  assumes "proof_body_span content lemma = Inr (body, (a, b))"
  obtains start e where "find_target_proof_block content lemma = Some (start, e)"
    "start \<le> a" "a \<le> b" "b \<le> e" "e \<le> length content" "body = py_slice content a b"
proof -
  obtain start e where blk: "find_target_proof_block content lemma = Some (start, e)"
    using assms by (cases "find_target_proof_block content lemma") (auto simp: proof_body_span_def)
  let ?t = "py_slice content start e"
  have se: "start < e" "e \<le> length content" using target_block_bounds [OF blk] by auto
  then have len: "length ?t = e - start" by (simp add: py_slice_def)
  obtain x pe g q qs where s: "re_search PROOF_DOT_I ?t 0 = Some (x, pe, g)"
    and f: "re_finditer QED_DOT_I ?t = q # qs"
    using assms blk by (auto simp: proof_body_span_def Let_def split: option.splits list.splits prod.splits)
  obtain qa qb qg where ql: "last (q # qs) = (qa, qb, qg)" by (cases "last (q # qs)")
  have r: "pe \<le> qa" "a = start + pe" "b = start + qa" "body = py_slice content a b"
    using assms blk s f ql by (auto simp: proof_body_span_def Let_def split: if_splits)
  have "(qa, qb, qg) \<in> set (re_finditer QED_DOT_I ?t)" using f ql by (metis last_in_set list.distinct(1))
  from re_finditer_match [OF this] have "qa \<le> e - start" using len by simp
  then show ?thesis using that [OF blk] r se by simp
qed

section \<open>Properties\<close>


definition sample_source :: str where
  "sample_source = ''lemma a : true. proof. smt(). qed. lemma b : p by admit.''"


text \<open>C9. What counts as proved. A declaration with a checked proof has its own proof, closed by
  \<^verbatim>\<open>by\<close> or \<^verbatim>\<open>qed.\<close>, and from the declaration to the end of that proof no keyword that leaves
  goals unchecked (\<^verbatim>\<open>admit\<close>, \<^verbatim>\<open>admitted\<close>, \<^verbatim>\<open>exit\<close>, \<^verbatim>\<open>abort\<close>) occurs as a whole word
  outside comments and strings. A proof search works on the first declaration that is not
  proved this way, and on a proved one only when every declaration of the name is proved.\<close>
theorem target_is_first_unchecked:
  assumes "target_declaration content name = Some d"
  shows "(\<exists>before after. lemma_declarations content name = before @ d # after
          \<and> (list_all (has_checked_proof content) before
             \<and> \<not> has_checked_proof content d
             \<or> before = [] \<and> list_all (has_checked_proof content) (d # after)))
    \<and> (has_checked_proof content d \<longrightarrow>
        (\<exists>p. ld_proof d = Some p \<and> lp_kind p \<noteq> Open_Proof
          \<and> (\<forall>w \<in> set UNCHECKED_KEYWORDS. \<forall>i.
               \<not> word_occurs w (easycrypt_code (py_slice content (ld_start d) (lp_end p))) i)))"
proof (rule conjI [OF _ impI])
  let ?ds = "lemma_declarations content name"
  show "\<exists>before after. ?ds = before @ d # after
      \<and> (list_all (has_checked_proof content) before \<and> \<not> has_checked_proof content d
         \<or> before = [] \<and> list_all (has_checked_proof content) (d # after))"
  proof (cases "find (\<lambda>d. \<not> has_checked_proof content d) ?ds")
    case None
    then have all: "list_all (has_checked_proof content) ?ds" by (simp add: find_None_iff list_all_iff)
    from None assms obtain after where "?ds = d # after"
      by (auto simp: target_declaration_def Let_def split: list.splits)
    with all show ?thesis by (intro exI [of _ "[]"] exI [of _ after]) simp
  next
    case (Some d')
    with assms have "d' = d" by (simp add: target_declaration_def)
    with Some obtain i where i: "i < length ?ds" "\<not> has_checked_proof content (?ds ! i)" "d = ?ds ! i"
      "\<forall>j < i. has_checked_proof content (?ds ! j)"
      by (auto simp: find_Some_iff)
    then have "?ds = take i ?ds @ d # drop (Suc i) ?ds" by (simp add: id_take_nth_drop)
    moreover have "list_all (has_checked_proof content) (take i ?ds)"
      using i by (simp add: list_all_length)
    ultimately show ?thesis using i by blast
  qed
next
  assume c: "has_checked_proof content d"
  then obtain p where p: "ld_proof d = Some p" "lp_kind p \<noteq> Open_Proof"
    "unchecked_proof_constructs (py_slice content (ld_start d) (lp_end p)) = []"
    by (auto simp: has_checked_proof_def split: option.splits if_splits)
  then show "\<exists>p. ld_proof d = Some p \<and> lp_kind p \<noteq> Open_Proof
      \<and> (\<forall>w \<in> set UNCHECKED_KEYWORDS. \<forall>i.
           \<not> word_occurs w (easycrypt_code (py_slice content (ld_start d) (lp_end p))) i)"
    using unchecked_keyword_found by fastforce
qed

theorem target_is_first_unchecked_witness:
  "\<exists>d. target_declaration sample_source ''a'' = Some d \<and> has_checked_proof sample_source d
    \<and> (\<exists>p. ld_proof d = Some p \<and> lp_kind p \<noteq> Open_Proof)"
proof -
  have "case target_declaration sample_source ''a'' of Some d \<Rightarrow> has_checked_proof sample_source d
      | None \<Rightarrow> False" by code_simp
  then obtain d where d: "target_declaration sample_source ''a'' = Some d" "has_checked_proof sample_source d"
    by (auto split: option.splits)
  with target_is_first_unchecked [OF d(1)] show ?thesis by blast
qed



end
