(* ===== verification/Job_Record.thy ===== *)
theory Job_Record
  imports Py_Json
begin

text \<open>
  \<open>workflow/interleaved/job_record.py\<close>: the statuses of a Shannon job, the table of allowed
  status changes, and the record read from and written to \<open>job.json\<close>. The dataclass is kept
  as its attributes by name, the way \<open>from_dict\<close>, \<open>to_dict\<close> and the scheduler's \<open>getattr\<close> and
  \<open>setattr\<close> use it; an attribute that is \<open>None\<close> is \<^const>\<open>JNull\<close>.
\<close>

datatype job_status =
    QUEUED | STARTING | RUNNING | CANCELLING | VERIFIED | INCOMPLETE
  | INFRASTRUCTURE_INVALID | CANCELLED | MERGED | STALE_MERGE

datatype job_error = JobValueError str

fun status_value :: "job_status \<Rightarrow> str" where
  "status_value QUEUED = ''queued''"
| "status_value STARTING = ''starting''"
| "status_value RUNNING = ''running''"
| "status_value CANCELLING = ''cancelling''"
| "status_value VERIFIED = ''verified''"
| "status_value INCOMPLETE = ''incomplete''"
| "status_value INFRASTRUCTURE_INVALID = ''infrastructure_invalid''"
| "status_value CANCELLED = ''cancelled''"
| "status_value MERGED = ''merged''"
| "status_value STALE_MERGE = ''stale_merge''"

definition ALL_STATUSES :: "job_status list" where
  "ALL_STATUSES = [QUEUED, STARTING, RUNNING, CANCELLING, VERIFIED, INCOMPLETE,
     INFRASTRUCTURE_INVALID, CANCELLED, MERGED, STALE_MERGE]"

text \<open>\<open>JobStatus(value)\<close>: the member with this value, or the error.\<close>

definition job_status_of :: "json \<Rightarrow> job_status option" where
  "job_status_of j = find (\<lambda>s. JStr (status_value s) = j) ALL_STATUSES"

definition ACTIVE_STATUSES :: "job_status list" where
  "ACTIVE_STATUSES = [STARTING, RUNNING, CANCELLING]"

definition BOUNDARY_LEASE_STATUSES :: "job_status list" where
  "BOUNDARY_LEASE_STATUSES = ACTIVE_STATUSES @ [QUEUED]"

definition RESULT_STATUSES :: "job_status list" where
  "RESULT_STATUSES = [VERIFIED, INCOMPLETE, INFRASTRUCTURE_INVALID]"

definition TERMINAL_STATUSES :: "job_status list" where
  "TERMINAL_STATUSES = RESULT_STATUSES @ [CANCELLED, MERGED, STALE_MERGE]"

definition RESUMABLE_STATUSES :: "job_status list" where
  "RESUMABLE_STATUSES = [INCOMPLETE, INFRASTRUCTURE_INVALID, CANCELLED]"

lemmas status_sets = ACTIVE_STATUSES_def BOUNDARY_LEASE_STATUSES_def RESULT_STATUSES_def
  TERMINAL_STATUSES_def RESUMABLE_STATUSES_def

fun TRANSITIONS :: "job_status option \<Rightarrow> job_status list" where
  "TRANSITIONS None = [QUEUED]"
| "TRANSITIONS (Some QUEUED) = [STARTING, CANCELLED]"
| "TRANSITIONS (Some STARTING) = [RUNNING, CANCELLED, INFRASTRUCTURE_INVALID]"
| "TRANSITIONS (Some RUNNING) = RESULT_STATUSES @ [CANCELLING, CANCELLED]"
| "TRANSITIONS (Some CANCELLING) = [CANCELLED, INFRASTRUCTURE_INVALID]"
| "TRANSITIONS (Some VERIFIED) = [MERGED, STALE_MERGE]"
| "TRANSITIONS (Some INCOMPLETE) = []"
| "TRANSITIONS (Some INFRASTRUCTURE_INVALID) = []"
| "TRANSITIONS (Some CANCELLED) = []"
| "TRANSITIONS (Some MERGED) = []"
| "TRANSITIONS (Some STALE_MERGE) = []"

definition require_transition :: "job_status option \<Rightarrow> job_status \<Rightarrow> job_error + unit" where
  "require_transition previous status =
     (if Some status \<noteq> previous \<and> status \<notin> set (TRANSITIONS previous)
      then Inl (JobValueError (''invalid Shannon job transition: ''
             @ (case previous of Some p \<Rightarrow> status_value p | None \<Rightarrow> ''new'')
             @ '' -> '' @ status_value status))
      else Inr ())"

section \<open>The record\<close>

definition JOB_RECORD_SCHEMA_VERSION :: int where
  "JOB_RECORD_SCHEMA_VERSION = 1"

definition FIELD_NAMES :: "str list" where
  "FIELD_NAMES = [
    ''job_id'', ''status'', ''schema_version'', ''kind'', ''created_at'', ''lemma'',
    ''timeout_minutes'', ''warm_handoff'', ''has_candidate_source'', ''has_resource_anchors'',
    ''has_continuation_note'', ''continuation_note_sha256'', ''resource_anchors_sha256'',
    ''source_contract'', ''resume_from_job_id'', ''resume_from_run_directory'',
    ''resume_checkpoint_id'', ''resume_checkpoint_directory_sha256'', ''source_commit'',
    ''max_parallel'', ''inner_provider'', ''inner_model'', ''inner_effort'', ''inner_agent'',
    ''agent_profiles_sha256'', ''inner_profile_sha256'', ''expected_provider_identity'',
    ''expected_provider_identity_sha256'', ''invocation_receipt'', ''invocation_receipt_sha256'',
    ''started_at'', ''pid'', ''inner_pid'', ''live_progress'', ''finished_at'', ''error'',
    ''terminal_event_sequence'', ''terminal_event_at'', ''terminal_event_id'',
    ''wrapper_exit_code'', ''prover_result_id'', ''actual_provider_identity'',
    ''actual_provider_identity_sha256'', ''eval_source_manifest_sha256'', ''failure_class'',
    ''failure_message'', ''answer_source_visible_after'', ''progress'',
    ''resume_checkpoint_artifact'', ''proved_source_contract'', ''proved_proof_body_sha256'',
    ''collect_status'', ''collect_verification_scope'', ''merged_at'', ''merged_target_sha256'']"

record job_record =
  jr_status :: job_status
  jr_attrs :: "(str, json) dict"
  jr_extra :: "(str, json) dict"

text \<open>The attributes other than \<open>status\<close>, and their defaults.\<close>

definition ATTR_NAMES :: "str list" where
  "ATTR_NAMES = filter (\<lambda>n. n \<noteq> ''status'') FIELD_NAMES"

definition attr_default :: "str \<Rightarrow> json" where
  "attr_default n = (if n = ''schema_version'' then JInt JOB_RECORD_SCHEMA_VERSION else JNull)"

definition attr :: "job_record \<Rightarrow> str \<Rightarrow> json" where
  "attr r n = jget (jr_attrs r) n"

definition set_attr :: "str \<Rightarrow> json \<Rightarrow> job_record \<Rightarrow> job_record" where
  "set_attr n v r = r\<lparr>jr_attrs := dict_set n v (jr_attrs r)\<rparr>"

definition new_job_record :: "job_status \<Rightarrow> (str, json) dict \<Rightarrow> (str, json) dict \<Rightarrow> job_record" where
  "new_job_record status kwargs extra =
     \<lparr>jr_status = status,
      jr_attrs = map (\<lambda>n. (n, case dict_get kwargs n of Some j \<Rightarrow> j | None \<Rightarrow> attr_default n)) ATTR_NAMES,
      jr_extra = extra\<rparr>"

definition from_dict :: "json \<Rightarrow> job_error + job_record" where
  "from_dict value =
     (case value of JObj d \<Rightarrow>
        if \<not> py_eq_int (jget d ''schema_version'') JOB_RECORD_SCHEMA_VERSION
           \<or> \<not> py_is_str (jget d ''job_id'')
        then Inl (JobValueError ''invalid Shannon job record'')
        else (case job_status_of (jget d ''status'') of
                None \<Rightarrow> Inl (JobValueError ''invalid Shannon job record status'')
              | Some status \<Rightarrow>
                  Inr (new_job_record status
                    (filter (\<lambda>(k, v). k \<in> set FIELD_NAMES \<and> k \<noteq> ''status'') d)
                    (filter (\<lambda>(k, v). k \<notin> set FIELD_NAMES) d)))
      | _ \<Rightarrow> Inl (JobValueError ''invalid Shannon job record''))"

text \<open>\<open>_FIELD_NAMES\<close> is a frozenset, so the order of the named keys is not specified; the model
  takes the order of declaration.\<close>

definition field_value :: "job_record \<Rightarrow> str \<Rightarrow> json" where
  "field_value r n = (if n = ''status'' then JStr (status_value (jr_status r)) else attr r n)"

definition to_dict :: "job_record \<Rightarrow> (str, json) dict" where
  "to_dict r =
     (let named = map (\<lambda>n. (n, field_value r n)) (filter (\<lambda>n. field_value r n \<noteq> JNull) FIELD_NAMES);
          with_status = dict_set ''status'' (JStr (status_value (jr_status r))) named
      in foldl (\<lambda>d (k, v). dict_set k v d) with_status (jr_extra r))"

definition job_record_wf :: "job_record \<Rightarrow> bool" where
  "job_record_wf r \<longleftrightarrow>
     dict_keys (jr_attrs r) = ATTR_NAMES
     \<and> py_is_str (attr r ''job_id'')
     \<and> py_eq_int (attr r ''schema_version'') JOB_RECORD_SCHEMA_VERSION
     \<and> dict_wf (jr_extra r) \<and> list_all (\<lambda>k. k \<notin> set FIELD_NAMES) (dict_keys (jr_extra r))"

section \<open>Reading and writing records\<close>

lemma job_status_of_value [simp]: "job_status_of (JStr (status_value s)) = Some s"
  by (cases s) (simp_all add: job_status_of_def ALL_STATUSES_def)

lemma job_status_of_Some: "job_status_of j = Some s \<longleftrightarrow> j = JStr (status_value s)"
proof
  assume "job_status_of j = Some s"
  then show "j = JStr (status_value s)" by (auto simp: job_status_of_def find_Some_iff)
qed simp

lemma field_names_distinct: "distinct FIELD_NAMES"
  by (simp add: FIELD_NAMES_def)

lemma field_names_members [simp]:
  "''status'' \<in> set FIELD_NAMES" "''job_id'' \<in> set FIELD_NAMES" "''schema_version'' \<in> set FIELD_NAMES"
  by (simp_all add: FIELD_NAMES_def)

lemma set_ATTR_NAMES: "set ATTR_NAMES = set FIELD_NAMES - {''status''}"
  by (auto simp: ATTR_NAMES_def)

lemma attr_names_distinct: "distinct ATTR_NAMES"
  by (simp add: ATTR_NAMES_def field_names_distinct)

lemma to_dict_append:
  assumes "job_record_wf r"
  shows "to_dict r =
    map (\<lambda>n. (n, field_value r n)) (filter (\<lambda>n. field_value r n \<noteq> JNull) FIELD_NAMES) @ jr_extra r"
proof -
  let ?named = "map (\<lambda>n. (n, field_value r n)) (filter (\<lambda>n. field_value r n \<noteq> JNull) FIELD_NAMES)"
  have "dict_get ?named ''status'' = Some (JStr (status_value (jr_status r)))"
    by (simp add: dict_get_def map_of_keyed field_value_def)
  then have "dict_set ''status'' (JStr (status_value (jr_status r))) ?named = ?named"
    by (rule dict_set_same)
  moreover have "set (dict_keys (jr_extra r)) \<inter> set (dict_keys ?named) = {}"
    using assms by (auto simp: job_record_wf_def dict_keys_def list_all_iff)
  ultimately show ?thesis
    using assms dict_update_new [of "jr_extra r" ?named] by (simp add: to_dict_def Let_def job_record_wf_def)
qed

lemma to_dict_get:
  assumes "job_record_wf r"
  shows "dict_get (to_dict r) k =
    (if k \<in> set FIELD_NAMES then (if field_value r k = JNull then None else Some (field_value r k))
     else dict_get (jr_extra r) k)"
proof -
  have "k \<in> set FIELD_NAMES \<Longrightarrow> dict_get (jr_extra r) k = None"
    using assms dict_keys_get [of k "jr_extra r"] by (auto simp: job_record_wf_def list_all_iff)
  then show ?thesis
    by (auto simp: to_dict_append [OF assms] dict_get_append dict_get_def [of "map _ _"] map_of_keyed)
qed

lemma jget_to_dict:
  "job_record_wf r \<Longrightarrow> k \<in> set FIELD_NAMES \<Longrightarrow> jget (to_dict r) k = field_value r k"
  by (simp add: jget_def to_dict_get)

lemma to_dict_extra:
  assumes "job_record_wf r"
  shows "filter (\<lambda>(k, v). k \<notin> set FIELD_NAMES) (to_dict r) = jr_extra r"
proof -
  have "filter (\<lambda>(k, v). k \<notin> set FIELD_NAMES) (jr_extra r) = jr_extra r"
    using assms by (auto simp: job_record_wf_def list_all_iff dict_keys_def intro!: filter_True)
  then show ?thesis
    by (auto simp: to_dict_append [OF assms] filter_empty_conv)
qed

lemma new_job_record_attr:
  "n \<in> set ATTR_NAMES \<Longrightarrow> attr (new_job_record s kw ex) n =
     (case dict_get kw n of Some j \<Rightarrow> j | None \<Rightarrow> attr_default n)"
  by (simp add: attr_def jget_def new_job_record_def dict_get_def map_of_keyed)

lemma from_to_dict:
  assumes wf: "job_record_wf r"
  shows "from_dict (JObj (to_dict r)) = Inr r"
proof -
  let ?kw = "filter (\<lambda>(k, v). k \<in> set FIELD_NAMES \<and> k \<noteq> ''status'') (to_dict r)"
  have keys: "dict_keys (jr_attrs r) = ATTR_NAMES" using wf by (simp add: job_record_wf_def)
  have val: "(case dict_get ?kw n of Some j \<Rightarrow> j | None \<Rightarrow> attr_default n) = the (dict_get (jr_attrs r) n)"
    if n: "n \<in> set ATTR_NAMES" for n
  proof -
    have nf: "n \<in> set FIELD_NAMES" "n \<noteq> ''status''" using n by (simp_all add: set_ATTR_NAMES)
    obtain j where j: "dict_get (jr_attrs r) n = Some j"
      using n keys dict_keys_get [of n "jr_attrs r"] by auto
    have "n = ''schema_version'' \<Longrightarrow> j \<noteq> JNull"
      using wf j by (auto simp: job_record_wf_def attr_def jget_def py_eq_int_def)
    then show ?thesis
      using nf j by (auto simp: dict_get_filter_key to_dict_get [OF wf] field_value_def attr_def jget_def attr_default_def)
  qed
  have "map (\<lambda>n. (n, case dict_get ?kw n of Some j \<Rightarrow> j | None \<Rightarrow> attr_default n)) ATTR_NAMES = jr_attrs r"
    using val dict_keyed_id [OF attr_names_distinct keys] by (simp cong: map_cong)
  moreover have "py_eq_int (jget (to_dict r) ''schema_version'') JOB_RECORD_SCHEMA_VERSION"
    "py_is_str (jget (to_dict r) ''job_id'')" "jget (to_dict r) ''status'' = JStr (status_value (jr_status r))"
    using wf by (simp_all add: jget_to_dict field_value_def job_record_wf_def)
  ultimately show ?thesis by (simp add: from_dict_def new_job_record_def to_dict_extra [OF wf])
qed

lemma from_dict_cases:
  assumes "from_dict j = Inr r"
  obtains d s where "j = JObj d" "py_eq_int (jget d ''schema_version'') JOB_RECORD_SCHEMA_VERSION"
    "py_is_str (jget d ''job_id'')" "jget d ''status'' = JStr (status_value s)"
    "r = new_job_record s (filter (\<lambda>(k, v). k \<in> set FIELD_NAMES \<and> k \<noteq> ''status'') d)
       (filter (\<lambda>(k, v). k \<notin> set FIELD_NAMES) d)"
  using assms by (auto simp: from_dict_def job_status_of_Some split: json.splits if_splits option.splits)

lemma from_dict_attr:
  assumes "from_dict (JObj d) = Inr r" and "n \<in> set ATTR_NAMES"
  shows "attr r n = jget d n"
proof -
  from assms(1) obtain s where sv: "py_eq_int (jget d ''schema_version'') JOB_RECORD_SCHEMA_VERSION"
    and r: "r = new_job_record s (filter (\<lambda>(k, v). k \<in> set FIELD_NAMES \<and> k \<noteq> ''status'') d)
       (filter (\<lambda>(k, v). k \<notin> set FIELD_NAMES) d)"
    by (elim from_dict_cases) auto
  have "n = ''schema_version'' \<Longrightarrow> dict_get d n \<noteq> None"
    using sv by (cases "dict_get d ''schema_version''") (auto simp: jget_def py_eq_int_def)
  then show ?thesis
    using assms(2) by (auto simp: r new_job_record_attr dict_get_filter_key set_ATTR_NAMES jget_def
        attr_default_def split: option.split)
qed

lemma from_dict_wf:
  assumes "from_dict (JObj d) = Inr r" and "dict_wf d"
  shows "job_record_wf r"
proof -
  from assms(1) obtain s where ok: "py_eq_int (jget d ''schema_version'') JOB_RECORD_SCHEMA_VERSION"
    "py_is_str (jget d ''job_id'')"
    and r: "r = new_job_record s (filter (\<lambda>(k, v). k \<in> set FIELD_NAMES \<and> k \<noteq> ''status'') d)
       (filter (\<lambda>(k, v). k \<notin> set FIELD_NAMES) d)"
    by (elim from_dict_cases) auto
  have names: "''job_id'' \<in> set ATTR_NAMES" "''schema_version'' \<in> set ATTR_NAMES"
    by (simp_all add: set_ATTR_NAMES)
  have "dict_wf (filter (\<lambda>(k, v). k \<notin> set FIELD_NAMES) d)"
    using assms(2) by (simp add: dict_wf_def distinct_map_filter)
  moreover have "list_all (\<lambda>k. k \<notin> set FIELD_NAMES) (dict_keys (filter (\<lambda>(k, v). k \<notin> set FIELD_NAMES) d))"
    by (auto simp: list_all_iff dict_keys_def)
  moreover have "dict_keys (jr_attrs r) = ATTR_NAMES"
    by (simp add: r new_job_record_def dict_keys_def comp_def)
  ultimately show ?thesis
    using ok from_dict_attr [OF assms(1) names(1)] from_dict_attr [OF assms(1) names(2)]
    by (simp add: job_record_wf_def r new_job_record_def)
qed

section \<open>Sequences of writes\<close>

text \<open>The statuses a record takes over accepted writes, from the stored one (\<open>None\<close>: not stored).\<close>

fun accepted_writes :: "job_status option \<Rightarrow> job_status list \<Rightarrow> bool" where
  "accepted_writes p [] = True"
| "accepted_writes p (s # ss) = (require_transition p s = Inr () \<and> accepted_writes (Some s) ss)"

lemma require_transition_ok:
  "require_transition p s = Inr () \<longleftrightarrow> p = Some s \<or> s \<in> set (TRANSITIONS p)"
  by (auto simp: require_transition_def)

definition job_rank :: "job_status option \<Rightarrow> nat" where
  "job_rank p =
     (case p of None \<Rightarrow> 5 | Some QUEUED \<Rightarrow> 4 | Some STARTING \<Rightarrow> 3 | Some RUNNING \<Rightarrow> 2
      | Some CANCELLING \<Rightarrow> 1 | Some VERIFIED \<Rightarrow> 1 | _ \<Rightarrow> 0)"

lemma transition_rank: "s \<in> set (TRANSITIONS p) \<Longrightarrow> job_rank (Some s) < job_rank p"
  by (cases p rule: TRANSITIONS.cases) (auto simp: job_rank_def status_sets)

lemma write_rank: "require_transition p s = Inr () \<Longrightarrow> p \<noteq> Some s \<Longrightarrow> job_rank (Some s) < job_rank p"
  by (auto simp: require_transition_ok transition_rank)

lemma accepted_changes:
  "accepted_writes (Some s) ss \<Longrightarrow> length (remdups_adj (s # ss)) \<le> Suc (job_rank (Some s))"
proof (induction ss arbitrary: s)
  case (Cons t ss)
  show ?case
  proof (cases "s = t")
    case True
    with Cons show ?thesis by simp
  next
    case False
    with Cons.prems write_rank [of "Some s" t] have "job_rank (Some t) < job_rank (Some s)" by simp
    with Cons.IH [of t] Cons.prems False show ?thesis by simp
  qed
qed simp

lemma accepted_step:
  "accepted_writes p ss \<Longrightarrow> Suc i < length ss \<Longrightarrow> require_transition (Some (ss ! i)) (ss ! Suc i) = Inr ()"
proof (induction ss arbitrary: p i)
  case (Cons s ss)
  then show ?case by (cases i; cases ss) auto
qed simp

lemma accepted_hd: "accepted_writes p ss \<Longrightarrow> ss \<noteq> [] \<Longrightarrow> require_transition p (hd ss) = Inr ()"
  by (cases ss) auto

text \<open>A set of statuses that no write leaves.\<close>

lemma accepted_closed:
  assumes "accepted_writes p ss"
    and "\<And>s t. s \<in> S \<Longrightarrow> require_transition (Some s) t = Inr () \<Longrightarrow> t \<in> S"
    and "i \<le> j" "j < length ss" "ss ! i \<in> S"
  shows "ss ! j \<in> S"
  using assms(3,4)
proof (induction rule: dec_induct)
  case base
  show ?case by (rule assms(5))
next
  case (step n)
  then show ?case using assms(2) [OF _ accepted_step [OF assms(1)], of n] by simp
qed

text \<open>A status that a new record cannot have is entered from another one.\<close>

lemma accepted_entered:
  assumes acc: "accepted_writes None ss" and new: "t \<noteq> QUEUED"
    and pre: "\<And>s. require_transition (Some s) t = Inr () \<Longrightarrow> s \<noteq> t \<Longrightarrow> s \<in> S"
    and j: "j < length ss" "ss ! j = t"
  shows "\<exists>i < j. ss ! i \<in> S"
  using j
proof (induction j)
  case 0
  have "require_transition None t = Inr ()" using accepted_hd [OF acc] 0 by (auto simp: hd_conv_nth)
  then show ?case using new by (simp add: require_transition_ok)
next
  case (Suc j)
  show ?case
  proof (cases "ss ! j = t")
    case True
    with Suc show ?thesis by (auto intro: less_SucI)
  next
    case False
    then have "ss ! j \<in> S" using pre accepted_step [OF acc Suc.prems(1)] Suc.prems(2) by blast
    then show ?thesis by blast
  qed
qed

section \<open>Properties\<close>

text \<open>C32. A job record survives storage. A record read from a dict with distinct keys is well formed;
  writing it back gives the same values under every key, the keys unknown to the schema
  included, except that a schema key holding null is left out; and reading what was written gives
  the same record.\<close>
theorem job_record_roundtrip:
  assumes "from_dict (JObj d) = Inr r" and "dict_wf d"
  shows "job_record_wf r \<and> from_dict (JObj (to_dict r)) = Inr r
    \<and> dict_get (to_dict r) k = (if k \<in> set FIELD_NAMES \<and> jget d k = JNull then None else dict_get d k)"
proof -
  have wf: "job_record_wf r" using from_dict_wf [OF assms] .
  from assms(1) obtain s where st: "jget d ''status'' = JStr (status_value s)"
    and r: "r = new_job_record s (filter (\<lambda>(k, v). k \<in> set FIELD_NAMES \<and> k \<noteq> ''status'') d)
       (filter (\<lambda>(k, v). k \<notin> set FIELD_NAMES) d)"
    by (elim from_dict_cases) auto
  have fv: "k \<in> set FIELD_NAMES \<Longrightarrow> field_value r k = jget d k"
    using from_dict_attr [OF assms(1), of k] st by (auto simp: field_value_def set_ATTR_NAMES r new_job_record_def)
  have "dict_get (jr_extra r) k = (if k \<in> set FIELD_NAMES then None else dict_get d k)"
    by (simp add: r new_job_record_def dict_get_filter_key)
  moreover have "jget d k \<noteq> JNull \<Longrightarrow> dict_get d k = Some (jget d k)"
    by (auto simp: jget_def split: option.splits)
  ultimately show ?thesis
    using wf from_to_dict [OF wf] fv by (simp add: to_dict_get [OF wf])
qed

definition sample_job :: "(str, json) dict" where
  "sample_job = [(''job_id'', JStr ''j1''), (''status'', JStr ''queued''), (''schema_version'', JInt 1),
     (''lemma'', JStr ''foo''), (''error'', JNull), (''note'', JInt 3)]"

theorem job_record_roundtrip_witness:
  "\<exists>r. from_dict (JObj sample_job) = Inr r \<and> from_dict (JObj (to_dict r)) = Inr r
     \<and> dict_get (to_dict r) ''note'' = Some (JInt 3)"
proof -
  have d: "dict_wf sample_job" by (simp add: sample_job_def dict_wf_def)
  have "case from_dict (JObj sample_job) of Inr r \<Rightarrow> True | Inl e \<Rightarrow> False" by code_simp
  then obtain r where r: "from_dict (JObj sample_job) = Inr r" by (auto split: sum.splits)
  have "''note'' \<notin> set FIELD_NAMES" "dict_get sample_job ''note'' = Some (JInt 3)"
    by (simp_all add: FIELD_NAMES_def sample_job_def dict_get_def)
  with r job_record_roundtrip [OF r d, of "''note''"] show ?thesis by auto
qed

text \<open>C15. The life of a job. Over any sequence of writes the transition check accepts, starting from no
  stored record: the first status is queued and the status changes at most four times after it;
  a terminal job never becomes non-terminal again, and a terminal status other than verified
  never changes; a job is merged or stale only after it was verified, and verified only after it
  ran.\<close>
theorem job_lifecycle:
  assumes "accepted_writes None ss" and "j < length ss"
  shows "hd ss = QUEUED \<and> length (remdups_adj ss) \<le> 5
    \<and> (\<forall>i \<le> j. ss ! i \<in> set TERMINAL_STATUSES \<longrightarrow> ss ! j \<in> set TERMINAL_STATUSES)
    \<and> (\<forall>i \<le> j. ss ! i \<in> set TERMINAL_STATUSES - {VERIFIED} \<longrightarrow> ss ! j = ss ! i)
    \<and> (ss ! j \<in> {MERGED, STALE_MERGE} \<longrightarrow> (\<exists>i < j. ss ! i = VERIFIED))
    \<and> (ss ! j = VERIFIED \<longrightarrow> (\<exists>i < j. ss ! i = RUNNING))"
proof (intro conjI allI impI)
  obtain s ss' where ss: "ss = s # ss'" using assms(2) by (cases ss) auto
  show q: "hd ss = QUEUED" using assms(1) by (simp add: ss require_transition_ok)
  show "length (remdups_adj ss) \<le> 5"
    using accepted_changes [of s ss'] assms(1) q by (simp add: ss job_rank_def)
next
  fix i assume "i \<le> j" "ss ! i \<in> set TERMINAL_STATUSES"
  moreover have "t \<in> set TERMINAL_STATUSES"
    if "s \<in> set TERMINAL_STATUSES" "require_transition (Some s) t = Inr ()" for s t
    using that by (cases s) (auto simp: status_sets require_transition_ok)
  ultimately show "ss ! j \<in> set TERMINAL_STATUSES" using accepted_closed [OF assms(1)] assms(2) by blast
next
  fix i assume i: "i \<le> j" "ss ! i \<in> set TERMINAL_STATUSES - {VERIFIED}"
  have "t \<in> {ss ! i}" if "s \<in> {ss ! i}" "require_transition (Some s) t = Inr ()" for s t
    using that i(2) by (cases s) (auto simp: status_sets require_transition_ok)
  then show "ss ! j = ss ! i" using accepted_closed [OF assms(1), of "{ss ! i}" i j] assms(2) i(1) by blast
next
  assume m: "ss ! j \<in> {MERGED, STALE_MERGE}"
  have "s \<in> {VERIFIED}" if "require_transition (Some s) (ss ! j) = Inr ()" "s \<noteq> ss ! j" for s
    using that m by (cases s) (auto simp: status_sets require_transition_ok)
  then show "\<exists>i < j. ss ! i = VERIFIED"
    using accepted_entered [OF assms(1), of "ss ! j" "{VERIFIED}" j] assms(2) m by auto
next
  assume v: "ss ! j = VERIFIED"
  have "s \<in> {RUNNING}" if "require_transition (Some s) VERIFIED = Inr ()" "s \<noteq> VERIFIED" for s
    using that by (cases s) (auto simp: status_sets require_transition_ok)
  then show "\<exists>i < j. ss ! i = RUNNING"
    using accepted_entered [OF assms(1), of VERIFIED "{RUNNING}" j] assms(2) v by auto
qed

theorem job_lifecycle_witness:
  "accepted_writes None [QUEUED, STARTING, RUNNING, RUNNING, VERIFIED, MERGED]
   \<and> (\<exists>i < 5. [QUEUED, STARTING, RUNNING, RUNNING, VERIFIED, MERGED] ! i = VERIFIED)"
proof -
  let ?ss = "[QUEUED, STARTING, RUNNING, RUNNING, VERIFIED, MERGED]"
  have a: "accepted_writes None ?ss" by (simp add: require_transition_ok status_sets)
  have "?ss ! 5 \<in> {MERGED, STALE_MERGE}" by simp
  with a job_lifecycle [OF a, of 5] show ?thesis by simp
qed

end
