(* ===== verification/Job_Registry.thy ===== *)
theory Job_Registry
  imports Job_Record Lemma_Decls "HOL-Library.Multiset"
begin

text \<open>
  The scheduler of \<open>workflow/interleaved/jobs.py\<close>: the registry of job records on disk and the
  operations that change it. The registry holds the JSON value of every \<open>job.json\<close> by its
  directory name, the text of the canonical target file, the jobs whose processes and lane were
  released (in order), and the last heartbeat written per job. An operation returns the new
  registry beside its result or error, because a write made before a raise stays.

  The world the scheduler observes is the record \<open>world\<close>: the time, the SHA-256 digest, whether
  a job's worker is alive, what starting a worker process gives, the project verifier's answer
  on a candidate, and what the outer agent does to the target while the verifier runs. One
  operation reads one time stamp. \<open>job.json\<close> files hold JSON values (they are written
  atomically by the scheduler itself).
\<close>

datatype reg_error = RegValueError str | RegTypeError | LaunchError str

record registry =
  reg_jobs :: "(str, json) dict"
  reg_target :: str
  reg_released :: "str list"
  reg_heartbeats :: "(str, int) dict"

record world =
  w_now :: str
  w_sha256 :: "str \<Rightarrow> str"
  w_alive :: "job_record \<Rightarrow> bool"
  w_launch :: "str \<Rightarrow> str + int"
  w_verify :: "str \<Rightarrow> str \<Rightarrow> bool \<times> str"
  w_outer_edit :: "str \<Rightarrow> str"

type_synonym 'a reg_op = "registry \<Rightarrow> registry \<times> (reg_error + 'a)"

definition ret :: "'a \<Rightarrow> 'a reg_op" where
  "ret x g = (g, Inr x)"

definition throw :: "reg_error \<Rightarrow> 'a reg_op" where
  "throw e g = (g, Inl e)"

definition bind_op :: "'a reg_op \<Rightarrow> ('a \<Rightarrow> 'b reg_op) \<Rightarrow> 'b reg_op" where
  "bind_op f k g = (case f g of (g', Inl e) \<Rightarrow> (g', Inl e) | (g', Inr x) \<Rightarrow> k x g')"

definition lift_op :: "(registry \<Rightarrow> reg_error + 'a) \<Rightarrow> 'a reg_op" where
  "lift_op f g = (g, f g)"

definition modify :: "(registry \<Rightarrow> registry) \<Rightarrow> unit reg_op" where
  "modify f g = (f g, Inr ())"

fun each_op :: "('a \<Rightarrow> unit reg_op) \<Rightarrow> 'a list \<Rightarrow> unit reg_op" where
  "each_op f [] = ret ()"
| "each_op f (x # xs) = bind_op (f x) (\<lambda>_. each_op f xs)"

section \<open>Records on disk\<close>

definition is_hex :: "char \<Rightarrow> bool" where
  "is_hex c \<longleftrightarrow> is_digit c \<or> in_range (CHR ''a'') (CHR ''f'') c"

text \<open>\<open>JOB_ID.fullmatch\<close>.\<close>

definition job_id_ok :: "str \<Rightarrow> bool" where
  "job_id_ok t \<longleftrightarrow> length t = 16 \<and> list_all is_hex t"

definition job_id_of :: "job_record \<Rightarrow> str" where
  "job_id_of r = (case attr r ''job_id'' of JStr t \<Rightarrow> t | _ \<Rightarrow> [])"

definition read_job :: "json \<Rightarrow> str \<Rightarrow> reg_error + job_record" where
  "read_job value job_id =
     (case from_dict value of
        Inl _ \<Rightarrow> Inl (RegValueError (''invalid Shannon job record: '' @ job_id))
      | Inr r \<Rightarrow> if job_id_of r \<noteq> job_id
                 then Inl (RegValueError (''invalid Shannon job record: '' @ job_id)) else Inr r)"

definition load_job :: "str \<Rightarrow> registry \<Rightarrow> reg_error + job_record" where
  "load_job job_id g =
     (if \<not> job_id_ok job_id then Inl (RegValueError ''invalid Shannon job id'')
      else case dict_get (reg_jobs g) job_id of
             None \<Rightarrow> Inl (RegValueError (''unknown Shannon job: '' @ job_id))
           | Some value \<Rightarrow> read_job value job_id)"

text \<open>\<open>int(item.get("terminal_event_sequence") or 0)\<close> of a stored value; a value that is not a dict
  is skipped.\<close>

definition stored_sequence :: "json \<Rightarrow> int option" where
  "stored_sequence value =
     (case value of JObj d \<Rightarrow> py_int (py_or (jget d ''terminal_event_sequence'') (JInt 0)) | _ \<Rightarrow> Some 0)"

fun latest_sequence :: "json list \<Rightarrow> int \<Rightarrow> reg_error + int" where
  "latest_sequence [] latest = Inr latest"
| "latest_sequence (v # vs) latest =
     (case stored_sequence v of None \<Rightarrow> Inl RegTypeError | Some n \<Rightarrow> latest_sequence vs (max latest n))"

definition latest_terminal_sequence :: "registry \<Rightarrow> reg_error + int" where
  "latest_terminal_sequence g = latest_sequence (map snd (reg_jobs g)) 0"

definition terminal_event :: "world \<Rightarrow> job_record \<Rightarrow> job_status option \<Rightarrow> int \<Rightarrow> (str \<times> json) list" where
  "terminal_event w r prior sequence =
     [(''schema_version'', JInt 1), (''kind'', JStr ''interleaved_shannon_terminal_event''),
      (''sequence'', JInt sequence), (''at'', JStr (w_now w)), (''job_id'', attr r ''job_id''),
      (''lemma'', JStr (str_or_empty (attr r ''lemma''))), (''status'', JStr (status_value (jr_status r))),
      (''previous_status'', JStr (case prior of Some p \<Rightarrow> status_value p | None \<Rightarrow> []))]"

definition stamp_terminal :: "world \<Rightarrow> job_status option \<Rightarrow> int \<Rightarrow> job_record \<Rightarrow> job_record" where
  "stamp_terminal w prior sequence r =
     set_attr ''terminal_event_id''
         (JStr (w_sha256 w (json_dumps True (JObj (terminal_event w r prior sequence)))))
       (set_attr ''terminal_event_at'' (JStr (w_now w))
         (set_attr ''terminal_event_sequence'' (JInt sequence) r))"

definition save_job :: "world \<Rightarrow> job_record \<Rightarrow> job_record reg_op" where
  "save_job w r g =
     (let job_id = job_id_of r;
          write = (\<lambda>r'. (g\<lparr>reg_jobs := dict_set job_id (JObj (to_dict r')) (reg_jobs g)\<rparr>, Inr r'));
          proceed = (\<lambda>prior.
            case require_transition prior (jr_status r) of
              Inl (JobValueError e) \<Rightarrow> (g, Inl (RegValueError e))
            | Inr _ \<Rightarrow>
                if jr_status r \<in> set TERMINAL_STATUSES \<and> Some (jr_status r) \<noteq> prior
                then (case latest_terminal_sequence g of
                        Inl e \<Rightarrow> (g, Inl e)
                      | Inr latest \<Rightarrow> write (stamp_terminal w prior (latest + 1) r))
                else write r)
      in if \<not> job_id_ok job_id then (g, Inl (RegValueError ''invalid Shannon job id''))
         else case dict_get (reg_jobs g) job_id of
                None \<Rightarrow> proceed None
              | Some value \<Rightarrow>
                  (case read_job value job_id of
                     Inl e \<Rightarrow> (g, Inl e)
                   | Inr stored \<Rightarrow> proceed (Some (jr_status stored))))"

fun read_jobs :: "(str \<times> json) list \<Rightarrow> reg_error + job_record list" where
  "read_jobs [] = Inr []"
| "read_jobs ((k, v) # kvs) =
     (case read_job v k of
        Inl e \<Rightarrow> Inl e
      | Inr r \<Rightarrow> (case read_jobs kvs of Inl e \<Rightarrow> Inl e | Inr rs \<Rightarrow> Inr (r # rs)))"

definition all_jobs :: "registry \<Rightarrow> reg_error + job_record list" where
  "all_jobs g =
     (case read_jobs (sort_key fst (reg_jobs g)) of
        Inl e \<Rightarrow> Inl e
      | Inr rs \<Rightarrow> Inr (sort_key (\<lambda>r. str_or_empty (attr r ''created_at'')) rs))"

section \<open>Source contracts and proof boundaries\<close>

definition source_contract :: "world \<Rightarrow> str \<Rightarrow> str \<Rightarrow> source_error + (str \<times> json) list" where
  "source_contract w content lemma =
     (case proof_body_span content lemma of
        Inl e \<Rightarrow> Inl e
      | Inr (body, _) \<Rightarrow>
          (case lemma_prefix_projection content lemma of
             Inl e \<Rightarrow> Inl e
           | Inr projection \<Rightarrow>
               Inr [(''target_sha256'', JStr (w_sha256 w content)),
                    (''lemma_prefix_sha256'', JStr (w_sha256 w projection)),
                    (''proof_body_sha256'', JStr (w_sha256 w body))]))"

definition digest_ok :: "str \<Rightarrow> bool" where
  "digest_ok t \<longleftrightarrow> length t = 64 \<and> list_all is_hex t"

definition resume_source_contract_matches ::
  "(str \<times> json) list \<Rightarrow> (str \<times> json) list \<Rightarrow> bool \<Rightarrow> bool" where
  "resume_source_contract_matches parent current allow_proof_body_change =
     list_all (\<lambda>key.
         let parent_value = str_or_empty (jget parent key); current_value = str_or_empty (jget current key)
         in digest_ok parent_value \<and> digest_ok current_value \<and> parent_value = current_value)
       (''lemma_prefix_sha256'' # (if allow_proof_body_change then [] else [''proof_body_sha256'']))"

text \<open>\<open>dict(record.source_contract or {})\<close>.\<close>

definition submitted_contract :: "job_record \<Rightarrow> reg_error + (str \<times> json) list" where
  "submitted_contract r =
     (case attr r ''source_contract'' of
        JObj d \<Rightarrow> Inr d
      | j \<Rightarrow> if py_truthy j then Inl RegTypeError else Inr [])"

record boundary_violation =
  bv_job_id :: str
  bv_lemma :: str
  bv_status :: job_status
  bv_changed :: "str list"
  bv_message :: str

definition boundary_changes ::
  "world \<Rightarrow> str \<Rightarrow> str \<Rightarrow> (str \<times> json) list \<Rightarrow> str list" where
  "boundary_changes w current_source lemma submitted =
     (case source_contract w current_source lemma of
        Inl _ \<Rightarrow> [''lemma_boundary_unavailable'']
      | Inr current \<Rightarrow>
          (if jget current ''lemma_prefix_sha256'' \<noteq> jget submitted ''lemma_prefix_sha256''
           then [''lemma_prefix''] else [])
          @ (if jget current ''proof_body_sha256'' \<noteq> jget submitted ''proof_body_sha256''
             then [''proof_body''] else []))"

fun active_boundary_violations ::
  "world \<Rightarrow> job_record list \<Rightarrow> str \<Rightarrow> reg_error + boundary_violation list" where
  "active_boundary_violations w [] current_source = Inr []"
| "active_boundary_violations w (r # rs) current_source =
     (if jr_status r \<notin> set BOUNDARY_LEASE_STATUSES then active_boundary_violations w rs current_source
      else case submitted_contract r of
             Inl e \<Rightarrow> Inl e
           | Inr submitted \<Rightarrow>
               (let lemma = str_or_empty (attr r ''lemma'');
                    changed = boundary_changes w current_source lemma submitted;
                    v = \<lparr>bv_job_id = job_id_of r, bv_lemma = lemma, bv_status = jr_status r,
                         bv_changed = changed,
                         bv_message = ''active Shannon boundary changed for '' @ lemma @ '' (''
                           @ job_id_of r @ ''); restore the submitted lemma/prefix and edit only ''
                           @ ''declarations after that lemma until the job is terminal''\<rparr>
                in case active_boundary_violations w rs current_source of
                     Inl e \<Rightarrow> Inl e
                   | Inr vs \<Rightarrow> Inr (if changed = [] then vs else v # vs)))"

definition raise_for_active_boundary_violations ::
  "world \<Rightarrow> job_record list \<Rightarrow> str \<Rightarrow> reg_error + unit" where
  "raise_for_active_boundary_violations w jobs current_source =
     (case active_boundary_violations w jobs current_source of
        Inl e \<Rightarrow> Inl e
      | Inr [] \<Rightarrow> Inr ()
      | Inr (v # _) \<Rightarrow> Inl (RegValueError (bv_message v)))"

section \<open>Finalizing, reconciling and dispatching\<close>

definition CANCELLED_MESSAGE :: str where
  "CANCELLED_MESSAGE = ''cancelled by outer job controller''"
definition DEAD_WORKER_FAILURE :: str where
  "DEAD_WORKER_FAILURE = ''detached Shannon worker exited without a terminal result''"
definition DEAD_CANCELLED_WORKER_FAILURE :: str where
  "DEAD_CANCELLED_WORKER_FAILURE =
     ''cancelled worker exited before safe-stop checkpoint finalization completed''"

definition RECOVERED_FIELDS :: "str list" where
  "RECOVERED_FIELDS = [''progress'', ''resume_checkpoint_artifact'', ''resume_checkpoint_id'',
     ''resume_checkpoint_directory_sha256'', ''prover_result_id'', ''actual_provider_identity'',
     ''actual_provider_identity_sha256'', ''eval_source_manifest_sha256'', ''wrapper_exit_code'']"

definition copy_fields :: "str list \<Rightarrow> job_record \<Rightarrow> job_record \<Rightarrow> job_record" where
  "copy_fields names result current =
     foldl (\<lambda>c n. if attr result n \<noteq> JNull then set_attr n (attr result n) c else c) current names"

definition mark_progress_cancelled :: "job_record \<Rightarrow> job_record" where
  "mark_progress_cancelled r =
     (case attr r ''progress'' of
        JObj progress \<Rightarrow>
          (case jget progress ''terminal'' of
             JObj terminal \<Rightarrow>
               set_attr ''progress''
                 (JObj (dict_set ''terminal''
                    (JObj (dict_set ''message'' (JStr CANCELLED_MESSAGE)
                      (dict_set ''cause'' (JStr ''outer_cancelled'')
                        (dict_set ''status'' (JStr (status_value CANCELLED)) terminal)))) progress)) r
           | _ \<Rightarrow> r)
      | _ \<Rightarrow> r)"

definition finalized_record ::
  "world \<Rightarrow> job_record option \<Rightarrow> str \<Rightarrow> str \<Rightarrow> int option \<Rightarrow> job_record \<Rightarrow> job_record" where
  "finalized_record w result failure cancel_failure failure_exit_code current =
     (case result of
        Some res \<Rightarrow>
          if jr_status current = CANCELLING
          then set_attr ''error'' (JStr CANCELLED_MESSAGE)
                 (set_attr ''finished_at'' (JStr (w_now w))
                   ((mark_progress_cancelled (copy_fields RECOVERED_FIELDS res current))
                      \<lparr>jr_status := CANCELLED\<rparr>))
          else res
      | None \<Rightarrow>
          (let c1 = set_attr ''error''
                 (JStr (if jr_status current = CANCELLING then cancel_failure else failure)) current;
               c2 = set_attr ''finished_at'' (JStr (w_now w)) (c1\<lparr>jr_status := INFRASTRUCTURE_INVALID\<rparr>)
           in case failure_exit_code of
                Some code \<Rightarrow> set_attr ''wrapper_exit_code'' (JInt code) c2
              | None \<Rightarrow> c2))"

definition release_job :: "str \<Rightarrow> unit reg_op" where
  "release_job job_id = modify (\<lambda>g. g\<lparr>reg_released := reg_released g @ [job_id]\<rparr>)"

definition finalize_job ::
  "world \<Rightarrow> str \<Rightarrow> job_record option \<Rightarrow> str \<Rightarrow> str \<Rightarrow> int option \<Rightarrow> unit reg_op" where
  "finalize_job w job_id result failure cancel_failure failure_exit_code =
     bind_op (release_job job_id) (\<lambda>_.
     bind_op (lift_op (load_job job_id)) (\<lambda>current.
       if jr_status current \<notin> set ACTIVE_STATUSES then ret ()
       else bind_op (save_job w (finalized_record w result failure cancel_failure failure_exit_code current))
              (\<lambda>_. ret ())))"

definition finalize_dead_worker_job :: "world \<Rightarrow> str \<Rightarrow> unit reg_op" where
  "finalize_dead_worker_job w job_id =
     finalize_job w job_id None DEAD_WORKER_FAILURE DEAD_CANCELLED_WORKER_FAILURE None"

definition reconcile_locked :: "world \<Rightarrow> unit reg_op" where
  "reconcile_locked w =
     bind_op (lift_op all_jobs) (each_op (\<lambda>r.
       if jr_status r \<notin> set ACTIVE_STATUSES \<or> w_alive w r then ret ()
       else finalize_dead_worker_job w (job_id_of r)))"

text \<open>Starting one queued job.\<close>

definition start_job :: "world \<Rightarrow> job_record \<Rightarrow> unit reg_op" where
  "start_job w record =
     bind_op (save_job w (set_attr ''started_at'' (JStr (w_now w)) (record\<lparr>jr_status := STARTING\<rparr>))) (\<lambda>r.
       case w_launch w (job_id_of r) of
         Inl exc \<Rightarrow>
           bind_op (save_job w (set_attr ''error'' (JStr (''worker launch failed: '' @ exc))
               (set_attr ''finished_at'' (JStr (w_now w)) (r\<lparr>jr_status := INFRASTRUCTURE_INVALID\<rparr>))))
             (\<lambda>_. throw (LaunchError exc))
       | Inr pid \<Rightarrow>
           bind_op (save_job w (set_attr ''pid'' (JInt pid) (r\<lparr>jr_status := RUNNING\<rparr>))) (\<lambda>r'.
             modify (\<lambda>g. g\<lparr>reg_heartbeats := dict_set (job_id_of r') pid (reg_heartbeats g)\<rparr>)))"

definition dispatch_locked :: "world \<Rightarrow> int \<Rightarrow> unit reg_op" where
  "dispatch_locked w max_parallel =
     bind_op (reconcile_locked w) (\<lambda>_.
     bind_op (lift_op all_jobs) (\<lambda>jobs.
     bind_op (lift_op (\<lambda>g. active_boundary_violations w jobs (reg_target g))) (\<lambda>violations.
       if violations \<noteq> [] then ret ()
       else
         (let active = length (filter (\<lambda>r. jr_status r \<in> set ACTIVE_STATUSES) jobs);
              capacity = max_parallel - int active
          in if capacity \<le> 0 then ret ()
             else each_op (start_job w)
                    (take (nat capacity) (filter (\<lambda>r. jr_status r = QUEUED) jobs))))))"

section \<open>Worker start, public records, collection and cancellation\<close>

text \<open>The first locked section of \<open>run_worker\<close>; the result says whether the worker goes on.\<close>

definition worker_begin :: "world \<Rightarrow> int \<Rightarrow> str \<Rightarrow> bool reg_op" where
  "worker_begin w pid job_id =
     bind_op (lift_op (load_job job_id)) (\<lambda>record.
       if jr_status record \<in> set TERMINAL_STATUSES then ret False
       else
         (let r1 = (if jr_status record \<noteq> CANCELLING then record\<lparr>jr_status := RUNNING\<rparr> else record)
          in bind_op (save_job w (set_attr ''pid'' (JInt pid) r1)) (\<lambda>_. ret True)))"

definition PUBLIC_KEYS :: "str list" where
  "PUBLIC_KEYS = [''schema_version'', ''job_id'', ''lemma'', ''status'', ''created_at'', ''started_at'',
     ''finished_at'', ''merged_at'', ''timeout_minutes'', ''warm_handoff'', ''has_resource_anchors'',
     ''has_continuation_note'', ''pid'', ''queue_position'', ''wrapper_exit_code'',
     ''prover_result_id'', ''error'', ''failure_class'', ''failure_message'', ''collect_status'',
     ''collect_verification_scope'', ''resume_from_job_id'', ''resume_from_run_directory'',
     ''resume_checkpoint_id'', ''terminal_event_sequence'', ''terminal_event_at'',
     ''terminal_event_id'']"

definition hashable :: "json \<Rightarrow> bool" where
  "hashable j = (case j of JList _ \<Rightarrow> False | JObj _ \<Rightarrow> False | _ \<Rightarrow> True)"

definition setdefault :: "str \<Rightarrow> json \<Rightarrow> (str \<times> json) list \<Rightarrow> (str \<times> json) list" where
  "setdefault k v d = (if dict_get d k = None then dict_set k v d else d)"

definition public_record :: "int option \<Rightarrow> job_record \<Rightarrow> reg_error + (str \<times> json) list" where
  "public_record queue_position r =
     (let stored = (case queue_position of
                      Some q \<Rightarrow> dict_set ''queue_position'' (JInt q) (to_dict r) | None \<Rightarrow> to_dict r);
          shown = map (\<lambda>k. (k, jget stored k))
            (filter (\<lambda>k. jget stored k \<noteq> JNull \<and> jget stored k \<noteq> JStr []) PUBLIC_KEYS);
          message = take 4000 (py_str (py_or (attr r ''error'') (JStr ''missing_terminal_failure_reason'')));
          failed = (if jr_status r = INFRASTRUCTURE_INVALID
            then dict_set ''error'' (JStr message)
                   (setdefault ''failure_message'' (JStr message)
                     (setdefault ''failure_class'' (JStr ''scheduler_infrastructure_invalid'') shown))
            else shown);
          with_progress = (if py_is_dict (attr r ''progress'')
            then dict_set ''progress'' (attr r ''progress'') failed else failed)
      in if list_ex (\<lambda>k. \<not> hashable (jget stored k)) PUBLIC_KEYS then Inl RegTypeError
         else Inr (if jr_status r \<in> set ACTIVE_STATUSES \<and> py_is_dict (attr r ''live_progress'')
                   then dict_set ''live_progress'' (attr r ''live_progress'') with_progress
                   else with_progress))"

definition contract_drifted :: "(str \<times> json) list \<Rightarrow> (str \<times> json) list \<Rightarrow> bool" where
  "contract_drifted current submitted \<longleftrightarrow>
     jget current ''lemma_prefix_sha256'' \<noteq> jget submitted ''lemma_prefix_sha256''
     \<or> jget current ''proof_body_sha256'' \<noteq> jget submitted ''proof_body_sha256''"

definition lift_source :: "source_error + 'a \<Rightarrow> reg_error + 'a" where
  "lift_source x = (case x of Inl (SourceValueError e) \<Rightarrow> Inl (RegValueError e) | Inr y \<Rightarrow> Inr y)"

definition finish_collect :: "world \<Rightarrow> job_record \<Rightarrow> (str \<times> json) list reg_op" where
  "finish_collect w record = bind_op (save_job w record) (\<lambda>r. lift_op (\<lambda>_. public_record None r))"

text \<open>The end of \<open>collect_job\<close>, from the check of the merged candidate on.\<close>

definition merge_checked ::
  "world \<Rightarrow> int \<Rightarrow> job_record \<Rightarrow> str \<Rightarrow> str \<Rightarrow> bool \<times> str \<Rightarrow> (str \<times> json) list reg_op" where
  "merge_checked w max_parallel record current merged verification =
     bind_op (modify (\<lambda>g. g\<lparr>reg_target := w_outer_edit w (reg_target g)\<rparr>)) (\<lambda>_.
       if \<not> fst verification
       then finish_collect w
              (set_attr ''error'' (JStr (''lemma import verification failed; canonical ''
                  @ ''source was not modified: '' @ take 1500 (snd verification)))
                (set_attr ''collect_status'' (JStr ''verification_failed'') record))
       else
         bind_op (lift_op (\<lambda>g. Inr (reg_target g))) (\<lambda>target_now.
           if target_now \<noteq> current
           then finish_collect w
                  (set_attr ''error'' (JStr ''source changed during collect verification; retry collect'')
                    (set_attr ''collect_status'' (JStr ''source_changed_during_check'') record))
           else
             bind_op (modify (\<lambda>g. g\<lparr>reg_target := merged\<rparr>)) (\<lambda>_.
             bind_op (save_job w
               (set_attr ''error'' (JStr [])
                 (set_attr ''merged_target_sha256'' (JStr (w_sha256 w merged))
                   (set_attr ''collect_verification_scope''
                       (JStr ''target_lemma_under_declared_dependencies'')
                     (set_attr ''collect_status'' (JStr ''merged_and_checked'')
                       (set_attr ''merged_at'' (JStr (w_now w))
                         (record\<lparr>jr_status := MERGED\<rparr>))))))) (\<lambda>r.
             bind_op (dispatch_locked w max_parallel) (\<lambda>_.
               lift_op (\<lambda>_. public_record None r))))))"

definition stale_record :: "world \<Rightarrow> job_record \<Rightarrow> job_record" where
  "stale_record w record =
     set_attr ''error'' (JStr (''delegated lemma or its declaration prefix changed while ''
         @ ''Shannon was running; canonical source was not modified''))
       (set_attr ''collect_status'' (JStr ''source_drift'')
         (set_attr ''finished_at'' (py_or (attr record ''finished_at'') (JStr (w_now w)))
           (record\<lparr>jr_status := STALE_MERGE\<rparr>)))"

definition collect_job :: "world \<Rightarrow> int \<Rightarrow> str \<Rightarrow> str \<Rightarrow> (str \<times> json) list reg_op" where
  "collect_job w max_parallel proved job_id =
     bind_op (lift_op (load_job job_id)) (\<lambda>record.
       if jr_status record = MERGED then lift_op (\<lambda>_. public_record None record)
       else if jr_status record \<noteq> VERIFIED
       then throw (RegValueError (''Shannon job '' @ job_id @ '' is not collectable: ''
              @ status_value (jr_status record)))
       else
         (let lemma = py_str (attr record ''lemma'') in
          bind_op (lift_op (\<lambda>g. Inr (reg_target g))) (\<lambda>current.
          bind_op (lift_op (\<lambda>_. lift_source (source_contract w current lemma))) (\<lambda>contract.
          bind_op (lift_op (\<lambda>_. submitted_contract record)) (\<lambda>submitted.
            if contract_drifted contract submitted then finish_collect w (stale_record w record)
            else
              bind_op (lift_op (\<lambda>_. lift_source (source_contract w proved lemma))) (\<lambda>proved_contract.
                if jget proved_contract ''lemma_prefix_sha256'' \<noteq> jget submitted ''lemma_prefix_sha256''
                then throw (RegValueError ''verified job result source prefix is not bound to submission'')
                else
                  bind_op (lift_op (\<lambda>_. lift_source (proof_body_span proved lemma))) (\<lambda>(proof_body, _).
                  bind_op (lift_op (\<lambda>_. lift_source (proof_body_span current lemma))) (\<lambda>(_, (body_start, body_end)).
                    (let merged = take body_start current @ proof_body @ drop body_end current
                     in merge_checked w max_parallel record current merged (w_verify w merged lemma))))))))))"

text \<open>\<open>int(x or 0)\<close>.\<close>

definition int_or_zero :: "json \<Rightarrow> reg_error + int" where
  "int_or_zero j = (case py_int (py_or j (JInt 0)) of Some n \<Rightarrow> Inr n | None \<Rightarrow> Inl RegTypeError)"

text \<open>One job of the first locked section of \<open>cancel_jobs_in_run\<close>: the id and pid of a job that was
  marked, or nothing for a terminal job.\<close>

definition cancel_one :: "world \<Rightarrow> job_record \<Rightarrow> (str \<times> int) option reg_op" where
  "cancel_one w record =
     (if jr_status record \<in> set TERMINAL_STATUSES then ret None
      else
        bind_op (lift_op (\<lambda>_. int_or_zero (attr record ''pid''))) (\<lambda>pid.
          (let r1 = record\<lparr>jr_status := if 0 < pid then CANCELLING else CANCELLED\<rparr>;
               r2 = (if pid \<le> 0
                     then set_attr ''error'' (JStr CANCELLED_MESSAGE) (set_attr ''finished_at'' (JStr (w_now w)) r1)
                     else r1)
           in bind_op (save_job w r2) (\<lambda>_. ret (Some (job_id_of record, pid))))))"

fun cancel_each :: "world \<Rightarrow> job_record list \<Rightarrow> (str \<times> int) list reg_op" where
  "cancel_each w [] = ret []"
| "cancel_each w (r # rs) =
     bind_op (cancel_one w r) (\<lambda>marked.
     bind_op (cancel_each w rs) (\<lambda>rest.
       ret (case marked of Some m \<Rightarrow> m # rest | None \<Rightarrow> rest)))"

definition cancel_mark :: "world \<Rightarrow> str option \<Rightarrow> (str \<times> int) list reg_op" where
  "cancel_mark w job_id =
     bind_op (lift_op (\<lambda>g. case job_id of
         Some k \<Rightarrow> (case load_job k g of Inl e \<Rightarrow> Inl e | Inr r \<Rightarrow> Inr [r])
       | None \<Rightarrow> all_jobs g)) (cancel_each w)"

text \<open>The last locked section: jobs whose worker is gone are closed; \<open>gone\<close> is what the process
  checks of the section answer.\<close>

fun cancel_close :: "world \<Rightarrow> (job_record \<Rightarrow> bool) \<Rightarrow> str list \<Rightarrow> unit reg_op" where
  "cancel_close w gone [] = ret ()"
| "cancel_close w gone (k # ks) =
     bind_op (\<lambda>g. case load_job k g of
         Inl _ \<Rightarrow> ret () g
       | Inr current \<Rightarrow>
           if jr_status current \<notin> set ACTIVE_STATUSES \<or> \<not> gone current then ret () g
           else finalize_dead_worker_job w k g)
       (\<lambda>_. cancel_close w gone ks)"

section \<open>Well-formed registries\<close>

definition stored_ok :: "json \<Rightarrow> bool" where
  "stored_ok v = (case v of JObj d \<Rightarrow> dict_wf d | _ \<Rightarrow> True)"

definition wf_registry :: "registry \<Rightarrow> bool" where
  "wf_registry g \<longleftrightarrow> dict_wf (reg_jobs g) \<and> list_all (\<lambda>(k, v). stored_ok v) (reg_jobs g)"

text \<open>The status of a stored job, if its record is readable.\<close>

definition status_at :: "registry \<Rightarrow> str \<Rightarrow> job_status option" where
  "status_at g k =
     (case dict_get (reg_jobs g) k of
        None \<Rightarrow> None
      | Some v \<Rightarrow> (case read_job v k of Inr r \<Rightarrow> Some (jr_status r) | Inl _ \<Rightarrow> None))"

lemma wf_record_update [simp]: "job_record_wf (r\<lparr>jr_status := s\<rparr>) \<longleftrightarrow> job_record_wf r"
  by (simp add: job_record_wf_def attr_def)

lemma attr_set [simp]: "attr (set_attr n v r) k = (if k = n then v else attr r k)"
  by (simp add: attr_def set_attr_def jget_set)

lemma attr_status [simp]: "attr (r\<lparr>jr_status := s\<rparr>) k = attr r k"
  by (simp add: attr_def)

lemma set_attr_status [simp]: "jr_status (set_attr n v r) = jr_status r"
  by (simp add: set_attr_def)

lemma job_id_set [simp]: "n \<noteq> ''job_id'' \<Longrightarrow> job_id_of (set_attr n v r) = job_id_of r"
  by (simp add: job_id_of_def)

lemma job_id_status [simp]: "job_id_of (r\<lparr>jr_status := s\<rparr>) = job_id_of r"
  by (simp add: job_id_of_def)

lemma wf_set_attr:
  assumes "job_record_wf r" "n \<in> set ATTR_NAMES" "n \<noteq> ''job_id''" "n \<noteq> ''schema_version''"
  shows "job_record_wf (set_attr n v r)"
proof -
  have "dict_keys (dict_set n v (jr_attrs r)) = ATTR_NAMES"
    using assms(1,2) by (simp add: dict_keys_set job_record_wf_def)
  then show ?thesis
    using assms by (simp add: job_record_wf_def) (simp add: set_attr_def)
qed

lemma wf_to_dict: "job_record_wf r \<Longrightarrow> dict_wf (to_dict r)"
  unfolding to_dict_append
  by (auto simp: to_dict_append dict_wf_def comp_def field_names_distinct job_record_wf_def dict_keys_def
      list_all_iff distinct_filter)

lemma read_job_ok:
  assumes "read_job v k = Inr r" "stored_ok v"
  shows "job_record_wf r" "job_id_of r = k"
proof -
  from assms(1) have fd: "from_dict v = Inr r" and k: "job_id_of r = k"
    by (auto simp: read_job_def split: sum.splits if_splits)
  from fd obtain d where "v = JObj d" by (elim from_dict_cases)
  with fd assms(2) show "job_record_wf r" using from_dict_wf by (simp add: stored_ok_def)
  show "job_id_of r = k" by (rule k)
qed

lemma read_job_to_dict:
  "job_record_wf r \<Longrightarrow> read_job (JObj (to_dict r)) (job_id_of r) = Inr r"
  by (simp add: read_job_def from_to_dict)

lemma wf_registry_get: "wf_registry g \<Longrightarrow> dict_get (reg_jobs g) k = Some v \<Longrightarrow> stored_ok v"
  by (auto simp: wf_registry_def list_all_iff dict_get_def dest: map_of_SomeD)

lemma load_job_ok:
  assumes "wf_registry g" "load_job k g = Inr r"
  shows "job_record_wf r \<and> job_id_of r = k \<and> status_at g k = Some (jr_status r) \<and> job_id_ok k"
proof -
  from assms(2) obtain v where "dict_get (reg_jobs g) k = Some v" "read_job v k = Inr r" "job_id_ok k"
    by (auto simp: load_job_def split: if_splits option.splits)
  then show ?thesis
    using read_job_ok [of v k r] wf_registry_get [OF assms(1)] by (auto simp: status_at_def)
qed

lemma dict_set_values: "list_all (\<lambda>(k, v). P v) d \<Longrightarrow> P v \<Longrightarrow> list_all (\<lambda>(k, v). P v) (dict_set k v d)"
  by (induction k v d rule: dict_set.induct) auto

lemma stamp_terminal_ok:
  assumes "job_record_wf r"
  shows "job_record_wf (stamp_terminal w p n r)" "jr_status (stamp_terminal w p n r) = jr_status r"
    "job_id_of (stamp_terminal w p n r) = job_id_of r"
    "attr (stamp_terminal w p n r) ''terminal_event_sequence'' = JInt n"
proof -
  have "''terminal_event_sequence'' \<in> set ATTR_NAMES" "''terminal_event_at'' \<in> set ATTR_NAMES"
    "''terminal_event_id'' \<in> set ATTR_NAMES"
    by (simp_all add: ATTR_NAMES_def FIELD_NAMES_def)
  then show "job_record_wf (stamp_terminal w p n r)"
    using assms by (auto simp: stamp_terminal_def intro!: wf_set_attr)
  show "jr_status (stamp_terminal w p n r) = jr_status r" "job_id_of (stamp_terminal w p n r) = job_id_of r"
    "attr (stamp_terminal w p n r) ''terminal_event_sequence'' = JInt n"
    by (simp_all add: stamp_terminal_def)
qed

text \<open>What a successful write does.\<close>

definition saved :: "world \<Rightarrow> registry \<Rightarrow> job_record \<Rightarrow> registry \<Rightarrow> job_record \<Rightarrow> bool" where
  "saved w g r g' r' \<longleftrightarrow>
     job_id_ok (job_id_of r)
     \<and> require_transition (status_at g (job_id_of r)) (jr_status r) = Inr ()
     \<and> g' = g\<lparr>reg_jobs := dict_set (job_id_of r) (JObj (to_dict r')) (reg_jobs g)\<rparr>
     \<and> (if jr_status r \<in> set TERMINAL_STATUSES \<and> status_at g (job_id_of r) \<noteq> Some (jr_status r)
        then \<exists>n. latest_terminal_sequence g = Inr n
               \<and> r' = stamp_terminal w (status_at g (job_id_of r)) (n + 1) r
        else r' = r)"

lemma save_job_saved:
  "save_job w r g = (g', Inr r') \<Longrightarrow> saved w g r g' r'"
proof -
  assume s: "save_job w r g = (g', Inr r')"
  define prior where "prior = status_at g (job_id_of r)"
  show ?thesis
  proof (cases "dict_get (reg_jobs g) (job_id_of r)")
    case None
    then have "status_at g (job_id_of r) = None" by (simp add: status_at_def)
    with None s show ?thesis
      by (auto simp: save_job_def saved_def Let_def split: if_splits sum.splits job_error.splits)
  next
    case (Some v)
    with s obtain st where "read_job v (job_id_of r) = Inr st"
      by (auto simp: save_job_def Let_def split: if_splits sum.splits)
    moreover from this Some have "status_at g (job_id_of r) = Some (jr_status st)" by (simp add: status_at_def)
    ultimately show ?thesis using Some s
      by (auto simp: save_job_def saved_def Let_def split: if_splits sum.splits job_error.splits)
  qed
qed

lemma save_job_error: "save_job w r g = (g', Inl e) \<Longrightarrow> g' = g"
  by (auto simp: save_job_def Let_def split: if_splits option.splits sum.splits job_error.splits)

lemma saved_ok:
  assumes "saved w g r g' r'" "job_record_wf r" "wf_registry g"
  shows "wf_registry g'" "job_record_wf r'" "jr_status r' = jr_status r" "job_id_of r' = job_id_of r"
    "status_at g' = (status_at g)(job_id_of r := Some (jr_status r))"
    "reg_target g' = reg_target g" "reg_released g' = reg_released g"
proof -
  show wf': "job_record_wf r'" and st: "jr_status r' = jr_status r" and id: "job_id_of r' = job_id_of r"
    using assms(1,2) stamp_terminal_ok by (auto simp: saved_def split: if_splits)
  have g': "g' = g\<lparr>reg_jobs := dict_set (job_id_of r) (JObj (to_dict r')) (reg_jobs g)\<rparr>"
    using assms(1) by (simp add: saved_def)
  show "wf_registry g'"
    using assms(3) wf_to_dict [OF wf'] unfolding g' wf_registry_def
    by (auto simp: dict_wf_set stored_ok_def intro!: dict_set_values)
  show "status_at g' = (status_at g)(job_id_of r := Some (jr_status r))"
    using read_job_to_dict [OF wf'] by (auto simp: g' status_at_def dict_get_set id st fun_eq_iff)
  show "reg_target g' = reg_target g" "reg_released g' = reg_released g" by (simp_all add: g')
qed

section \<open>Relations every operation keeps\<close>

text \<open>\<open>op_spec R Q f\<close>: from a well-formed registry, \<open>f\<close> leaves a well-formed registry related to it
  by \<open>R\<close>, whether it returns or raises, and what it returns satisfies \<open>Q\<close>.\<close>

definition op_spec :: "(registry \<Rightarrow> registry \<Rightarrow> bool) \<Rightarrow> ('a \<Rightarrow> bool) \<Rightarrow> 'a reg_op \<Rightarrow> bool" where
  "op_spec R Q f \<longleftrightarrow>
     (\<forall>g. wf_registry g \<longrightarrow> wf_registry (fst (f g)) \<and> R g (fst (f g)) \<and> (\<forall>x. snd (f g) = Inr x \<longrightarrow> Q x))"

lemma op_specD:
  "op_spec R Q f \<Longrightarrow> wf_registry g \<Longrightarrow> wf_registry (fst (f g)) \<and> R g (fst (f g))"
  by (simp add: op_spec_def)

lemma op_spec_weaken: "op_spec R Q f \<Longrightarrow> (\<And>x. Q x \<Longrightarrow> Q' x) \<Longrightarrow> op_spec R Q' f"
  by (auto simp: op_spec_def)

text \<open>
  The contract of a relation on registries that the scheduler's primitive steps keep: it is
  reflexive and transitive and holds across a release, a heartbeat and every successful write of
  a record whose status is admitted by \<open>ok\<close>. The operations built from those steps keep it too.
\<close>

locale registry_relation =
  fixes w :: world
    and R :: "registry \<Rightarrow> registry \<Rightarrow> bool"
    and ok :: "job_status \<Rightarrow> bool"
  assumes R_refl: "R g g"
    and R_trans: "R g g' \<Longrightarrow> R g' g'' \<Longrightarrow> R g g''"
    and R_release: "R g (g\<lparr>reg_released := rel\<rparr>)"
    and R_heartbeat: "R g (g\<lparr>reg_heartbeats := h\<rparr>)"
    and R_save: "wf_registry g \<Longrightarrow> job_record_wf r \<Longrightarrow> saved w g r g' r' \<Longrightarrow> ok (jr_status r) \<Longrightarrow> R g g'"
begin

lemma spec_ret: "Q x \<Longrightarrow> op_spec R Q (ret x)"
  by (simp add: op_spec_def ret_def R_refl)

lemma spec_throw: "op_spec R Q (throw e)"
  by (simp add: op_spec_def throw_def R_refl)

lemma spec_lift: "(\<And>g x. wf_registry g \<Longrightarrow> f g = Inr x \<Longrightarrow> Q x) \<Longrightarrow> op_spec R Q (lift_op f)"
  by (simp add: op_spec_def lift_op_def R_refl)

lemma spec_bind:
  assumes f: "op_spec R P f" and k: "\<And>x. P x \<Longrightarrow> op_spec R Q (k x)"
  shows "op_spec R Q (bind_op f k)"
  unfolding op_spec_def
proof (intro allI impI)
  fix g assume wf: "wf_registry g"
  obtain g' x where fg: "f g = (g', x)" by (cases "f g")
  with f wf have g': "wf_registry g'" "R g g'" "\<And>v. x = Inr v \<Longrightarrow> P v" by (auto simp: op_spec_def)
  show "wf_registry (fst (bind_op f k g)) \<and> R g (fst (bind_op f k g))
      \<and> (\<forall>v. snd (bind_op f k g) = Inr v \<longrightarrow> Q v)"
  proof (cases x)
    case (Inl e)
    with fg g' show ?thesis by (simp add: bind_op_def)
  next
    case (Inr v)
    from k [OF g'(3) [OF Inr]] g'(1) have "wf_registry (fst (k v g'))" "R g' (fst (k v g'))"
      "\<And>y. snd (k v g') = Inr y \<Longrightarrow> Q y" by (auto simp: op_spec_def)
    with fg g' Inr show ?thesis by (auto simp: bind_op_def intro: R_trans)
  qed
qed

lemma spec_each:
  "(\<And>x. x \<in> set xs \<Longrightarrow> op_spec R (\<lambda>_. True) (f x)) \<Longrightarrow> op_spec R (\<lambda>_. True) (each_op f xs)"
proof (induction xs)
  case Nil
  then show ?case by (simp add: spec_ret)
next
  case (Cons x xs)
  then show ?case by (auto intro!: spec_bind [where P = "\<lambda>_. True"])
qed

lemma spec_save:
  assumes "job_record_wf r" "ok (jr_status r)"
  shows "op_spec R (\<lambda>r'. job_record_wf r' \<and> jr_status r' = jr_status r \<and> job_id_of r' = job_id_of r) (save_job w r)"
  unfolding op_spec_def
proof (intro allI impI)
  fix g assume wf: "wf_registry g"
  obtain g' x where s: "save_job w r g = (g', x)" by (cases "save_job w r g")
  show "wf_registry (fst (save_job w r g)) \<and> R g (fst (save_job w r g)) \<and> (\<forall>x. snd (save_job w r g) = Inr x \<longrightarrow>
      job_record_wf x \<and> jr_status x = jr_status r \<and> job_id_of x = job_id_of r)"
  proof (cases x)
    case (Inl e)
    then show ?thesis using s wf save_job_error [of w r g g' e] R_refl by simp
  next
    case (Inr r')
    then have "saved w g r g' r'" using s save_job_saved by simp
    then show ?thesis using s Inr saved_ok [OF _ assms(1) wf] R_save [OF wf assms(1) _ assms(2)] by auto
  qed
qed

lemma spec_release: "op_spec R (\<lambda>_. True) (release_job k)"
  by (simp add: op_spec_def release_job_def modify_def R_release wf_registry_def)

lemma spec_load: "op_spec R (\<lambda>r. job_record_wf r \<and> job_id_of r = k) (lift_op (load_job k))"
  using load_job_ok by (intro spec_lift) blast

end

text \<open>Records that are read and updated stay well formed.\<close>

lemma read_jobs_ok:
  "read_jobs kvs = Inr rs \<Longrightarrow> list_all (\<lambda>(k, v). stored_ok v) kvs \<Longrightarrow> list_all job_record_wf rs \<and> map job_id_of rs = map fst kvs"
proof (induction kvs arbitrary: rs)
  case (Cons kv kvs)
  obtain k v where kv: "kv = (k, v)" by (cases kv)
  from Cons.prems obtain r rs' where "read_job v k = Inr r" "read_jobs kvs = Inr rs'" "rs = r # rs'"
    by (auto simp: kv split: sum.splits)
  with Cons kv read_job_ok [of v k r] show ?case by simp
qed simp

lemma all_jobs_ok:
  assumes "wf_registry g" "all_jobs g = Inr rs"
  shows "list_all job_record_wf rs"
proof -
  from assms(2) obtain rs' where r: "read_jobs (sort_key fst (reg_jobs g)) = Inr rs'" "set rs = set rs'"
    by (auto simp: all_jobs_def split: sum.splits)
  have "list_all (\<lambda>(k, v). stored_ok v) (sort_key fst (reg_jobs g))"
    using assms(1) by (auto simp: wf_registry_def list_all_iff)
  with r show ?thesis using read_jobs_ok [OF r(1)] by (simp add: list_all_iff)
qed

lemma attr_names_used [simp]:
  "''error'' \<in> set ATTR_NAMES" "''finished_at'' \<in> set ATTR_NAMES" "''started_at'' \<in> set ATTR_NAMES"
  "''pid'' \<in> set ATTR_NAMES" "''wrapper_exit_code'' \<in> set ATTR_NAMES" "''progress'' \<in> set ATTR_NAMES"
  "''collect_status'' \<in> set ATTR_NAMES" "''collect_verification_scope'' \<in> set ATTR_NAMES"
  "''merged_at'' \<in> set ATTR_NAMES" "''merged_target_sha256'' \<in> set ATTR_NAMES"
  by (simp_all add: ATTR_NAMES_def FIELD_NAMES_def)

lemma copy_fields_ok:
  assumes "job_record_wf c" and "set names \<subseteq> set ATTR_NAMES - {''job_id'', ''schema_version''}"
  shows "job_record_wf (copy_fields names res c) \<and> jr_status (copy_fields names res c) = jr_status c
    \<and> job_id_of (copy_fields names res c) = job_id_of c"
  using assms
proof (induction names arbitrary: c)
  case (Cons n names)
  let ?c = "if attr res n \<noteq> JNull then set_attr n (attr res n) c else c"
  have "job_record_wf ?c" "jr_status ?c = jr_status c" "job_id_of ?c = job_id_of c"
    using Cons.prems by (auto simp: wf_set_attr)
  with Cons.IH [of ?c] Cons.prems show ?case by (simp add: copy_fields_def)
qed (simp add: copy_fields_def)

lemma mark_progress_ok:
  assumes "job_record_wf r"
  shows "job_record_wf (mark_progress_cancelled r) \<and> job_id_of (mark_progress_cancelled r) = job_id_of r"
  using assms by (auto simp: mark_progress_cancelled_def wf_set_attr split: json.split)

lemma recovered_names: "set RECOVERED_FIELDS \<subseteq> set ATTR_NAMES - {''job_id'', ''schema_version''}"
  by (simp add: RECOVERED_FIELDS_def ATTR_NAMES_def FIELD_NAMES_def)

lemma finalized_record_ok:
  assumes "job_record_wf current" and "\<And>res. result = Some res \<Longrightarrow> job_record_wf res"
  shows "job_record_wf (finalized_record w result failure cancel_failure code current)"
proof (cases result)
  case None
  then show ?thesis
    using assms(1) by (auto simp: finalized_record_def Let_def wf_set_attr split: option.split)
next
  case (Some res)
  with assms(2) have "job_record_wf res" by simp
  moreover have "job_record_wf (mark_progress_cancelled (copy_fields RECOVERED_FIELDS res current))"
    using copy_fields_ok [OF assms(1) recovered_names] mark_progress_ok by blast
  ultimately show ?thesis using Some by (simp add: finalized_record_def wf_set_attr)
qed

lemma finalized_record_status:
  "jr_status (finalized_record w None failure cancel_failure code current) = INFRASTRUCTURE_INVALID"
  by (simp add: finalized_record_def Let_def split: option.split)

context registry_relation
begin

lemma spec_finalize:
  assumes "\<And>res. result = Some res \<Longrightarrow> job_record_wf res"
    and "\<And>current. ok (jr_status (finalized_record w result failure cancel_failure code current))"
  shows "op_spec R (\<lambda>_. True) (finalize_job w k result failure cancel_failure code)"
proof -
  have save: "op_spec R (\<lambda>_. True)
      (bind_op (save_job w (finalized_record w result failure cancel_failure code current)) (\<lambda>_. ret ()))"
    if "job_record_wf current" for current
    using that assms finalized_record_ok by (intro spec_bind [OF spec_save]) (auto intro: spec_ret)
  show ?thesis
    unfolding finalize_job_def
    by (rule spec_bind [OF spec_release], rule spec_bind [OF spec_load])
       (auto intro: spec_ret save)
qed

lemma spec_finalize_dead:
  assumes "ok INFRASTRUCTURE_INVALID"
  shows "op_spec R (\<lambda>_. True) (finalize_dead_worker_job w k)"
  unfolding finalize_dead_worker_job_def
  by (rule spec_finalize) (simp_all add: finalized_record_status assms)

lemma spec_all_jobs: "op_spec R (list_all job_record_wf) (lift_op all_jobs)"
  using all_jobs_ok by (intro spec_lift) blast

lemma spec_reconcile:
  assumes "ok INFRASTRUCTURE_INVALID"
  shows "op_spec R (\<lambda>_. True) (reconcile_locked w)"
  unfolding reconcile_locked_def
  by (rule spec_bind [OF spec_all_jobs], rule spec_each) (auto intro: spec_ret spec_finalize_dead [OF assms])

lemma spec_start:
  assumes "job_record_wf r" "ok STARTING" "ok RUNNING" "ok INFRASTRUCTURE_INVALID"
  shows "op_spec R (\<lambda>_. True) (start_job w r)"
proof -
  have hb: "op_spec R (\<lambda>_. True) (modify (\<lambda>g. g\<lparr>reg_heartbeats := dict_set k pid (reg_heartbeats g)\<rparr>))" for k pid
    by (simp add: op_spec_def modify_def R_heartbeat wf_registry_def)
  have rest: "op_spec R (\<lambda>_. True) (case w_launch w (job_id_of r) of
       Inl exc \<Rightarrow> bind_op (save_job w (set_attr ''error'' (JStr (''worker launch failed: '' @ exc))
               (set_attr ''finished_at'' (JStr (w_now w)) (r\<lparr>jr_status := INFRASTRUCTURE_INVALID\<rparr>))))
             (\<lambda>_. throw (LaunchError exc))
     | Inr pid \<Rightarrow> bind_op (save_job w (set_attr ''pid'' (JInt pid) (r\<lparr>jr_status := RUNNING\<rparr>))) (\<lambda>r'.
             modify (\<lambda>g. g\<lparr>reg_heartbeats := dict_set (job_id_of r') pid (reg_heartbeats g)\<rparr>)))"
    if "job_record_wf r" for r
    using that assms(3,4)
    by (auto split: sum.split intro!: spec_bind [OF spec_save] spec_throw hb simp: wf_set_attr)
  show ?thesis
    unfolding start_job_def
    by (rule spec_bind [OF spec_save rest]) (simp_all add: wf_set_attr assms)
qed

end

text \<open>A relation that also holds across changes of the target and admits every status but the one
  only the dispatcher writes is kept by everything except dispatching.\<close>

locale worker_relation = registry_relation +
  assumes ok_worker: "s \<noteq> STARTING \<Longrightarrow> ok s"
    and R_target: "R g (g\<lparr>reg_target := t\<rparr>)"
begin

lemma spec_dispatch:
  assumes "ok STARTING"
  shows "op_spec R (\<lambda>_. True) (dispatch_locked w m)"
proof -
  have "op_spec R (\<lambda>_. True) (each_op (start_job w) (take n (filter P jobs)))"
    if "list_all job_record_wf jobs" for n P jobs
    using that by (intro spec_each spec_start) (auto simp: list_all_iff ok_worker assms dest!: in_set_takeD)
  then show ?thesis
    unfolding dispatch_locked_def Let_def
    by (intro spec_bind [OF spec_reconcile] spec_bind [OF spec_all_jobs] spec_bind [OF spec_lift])
       (auto simp: ok_worker intro: spec_ret)
qed

lemma spec_save_ok: "job_record_wf r \<Longrightarrow> jr_status r \<noteq> STARTING \<Longrightarrow> op_spec R job_record_wf (save_job w r)"
  by (rule op_spec_weaken [OF spec_save]) (simp_all add: ok_worker)

lemma spec_worker_begin: "op_spec R (\<lambda>_. True) (worker_begin w pid k)"
  unfolding worker_begin_def Let_def
  by (intro spec_bind [OF spec_load])
     (auto intro!: spec_bind [OF spec_save_ok] spec_ret simp: wf_set_attr)

lemma spec_finalize_all:
  assumes "\<And>res. result = Some res \<Longrightarrow> job_record_wf res \<and> jr_status res \<noteq> STARTING"
  shows "op_spec R (\<lambda>_. True) (finalize_job w k result failure cancel_failure code)"
proof (rule spec_finalize)
  show "ok (jr_status (finalized_record w result failure cancel_failure code current))" for current
    using assms by (cases result) (auto simp: finalized_record_status ok_worker finalized_record_def [of w "Some _"])
qed (use assms in blast)

lemma spec_cancel_one: "job_record_wf r \<Longrightarrow> op_spec R (\<lambda>_. True) (cancel_one w r)"
  unfolding cancel_one_def Let_def
  by (auto intro!: spec_ret spec_bind [OF spec_lift [where Q = "\<lambda>_. True"]] spec_bind [OF spec_save_ok]
      simp: wf_set_attr split: if_splits)

lemma spec_cancel_each: "list_all job_record_wf rs \<Longrightarrow> op_spec R (\<lambda>_. True) (cancel_each w rs)"
  by (induction rs) (auto intro!: spec_ret spec_bind [where P = "\<lambda>_. True"] intro: spec_cancel_one)

lemma spec_cancel_mark: "op_spec R (\<lambda>_. True) (cancel_mark w k)"
  unfolding cancel_mark_def
proof (rule spec_bind [OF spec_lift spec_cancel_each])
  fix g x assume "wf_registry g"
    and "(case k of Some k \<Rightarrow> (case load_job k g of Inl e \<Rightarrow> Inl e | Inr r \<Rightarrow> Inr [r]) | None \<Rightarrow> all_jobs g) = Inr x"
  then show "list_all job_record_wf x"
    using load_job_ok all_jobs_ok by (auto split: option.splits sum.splits)
qed

lemma spec_cancel_close: "op_spec R (\<lambda>_. True) (cancel_close w gone ks)"
proof (induction ks)
  case (Cons k ks)
  have "op_spec R (\<lambda>_. True) (\<lambda>g. case load_job k g of Inl _ \<Rightarrow> ret () g | Inr current \<Rightarrow>
      if jr_status current \<notin> set ACTIVE_STATUSES \<or> \<not> gone current then ret () g
      else finalize_dead_worker_job w k g)"
    using spec_finalize_dead [of k] spec_ret [of "\<lambda>_. True" "()"]
    by (auto simp: op_spec_def ok_worker split: sum.split)
  with Cons show ?case by (simp add: spec_bind)
qed (simp add: spec_ret)

lemma spec_finish_collect: "job_record_wf r \<Longrightarrow> jr_status r \<noteq> STARTING \<Longrightarrow> op_spec R (\<lambda>_. True) (finish_collect w r)"
  unfolding finish_collect_def by (intro spec_bind [OF spec_save_ok] spec_lift) auto

lemma spec_modify_target: "op_spec R (\<lambda>_. True) (modify (\<lambda>g. g\<lparr>reg_target := f g\<rparr>))"
  by (simp add: op_spec_def modify_def R_target wf_registry_def)

lemma spec_lift_any: "op_spec R (\<lambda>_. True) (lift_op f)"
  by (rule spec_lift) simp

end

text \<open>With dispatching, the relation is kept by the whole scheduler.\<close>

locale scheduler_relation = worker_relation +
  fixes n :: int
  assumes R_dispatch: "op_spec R (\<lambda>_. True) (dispatch_locked w n)"
begin

lemma spec_merge:
  assumes "job_record_wf r" "jr_status r \<noteq> STARTING"
  shows "op_spec R (\<lambda>_. True)
    (bind_op (save_job w r) (\<lambda>r. bind_op (dispatch_locked w n) (\<lambda>_. lift_op (\<lambda>_. public_record None r))))"
  using assms
  by (intro spec_bind [OF spec_save_ok] spec_bind [OF R_dispatch] spec_lift_any)

lemma spec_merge_checked:
  "job_record_wf r \<Longrightarrow> jr_status r \<noteq> STARTING \<Longrightarrow> op_spec R (\<lambda>_. True) (merge_checked w n r current merged v)"
  unfolding merge_checked_def
  by (intro spec_bind [OF spec_modify_target])
     (auto intro!: spec_bind [OF spec_modify_target] spec_bind [OF spec_lift_any] spec_finish_collect spec_merge
       simp: wf_set_attr)

lemma spec_collect: "op_spec R (\<lambda>_. True) (collect_job w n proved k)"
  unfolding collect_job_def Let_def
  by (rule spec_bind [OF spec_load])
     (auto intro!: spec_lift_any spec_throw spec_bind [OF spec_lift_any] spec_finish_collect spec_merge_checked
        simp: wf_set_attr stale_record_def)

end

section \<open>The scheduler as a transition system\<close>

text \<open>One locked section of the scheduler, at a moment given by the world \<open>w\<close>, or an edit of the
  target by the outer agent. A submission stores a queued record; a worker ends with a validated
  result for its own job or without one.\<close>

inductive sched_step :: "int \<Rightarrow> registry \<Rightarrow> registry \<Rightarrow> bool" for n :: int where
  submit: "job_record_wf r \<Longrightarrow> jr_status r = QUEUED \<Longrightarrow> sched_step n g (fst (save_job w r g))"
| dispatch: "sched_step n g (fst (dispatch_locked w n g))"
| worker_start: "sched_step n g (fst (worker_begin w pid k g))"
| worker_end: "(\<And>res. result = Some res \<Longrightarrow> job_record_wf res \<and> job_id_of res = k \<and> jr_status res \<in> set RESULT_STATUSES)
    \<Longrightarrow> sched_step n g (fst (finalize_job w k result failure cancel_failure code g))"
| collect: "sched_step n g (fst (collect_job w n proved k g))"
| cancel: "sched_step n g (fst (cancel_mark w jid g))"
| close: "sched_step n g (fst (cancel_close w gone ks g))"
| outer_edit: "sched_step n g (g\<lparr>reg_target := t\<rparr>)"

text \<open>A relation that every world keeps is kept by every run.\<close>

lemma sched_step_relation:
  assumes rel: "\<And>w. scheduler_relation w R ok n"
    and step: "sched_step n g g'" and wf: "wf_registry g"
  shows "wf_registry g' \<and> R g g'"
  using step
proof cases
  case (submit r w)
  then show ?thesis
    using op_specD [OF worker_relation.spec_save_ok [OF scheduler_relation.axioms(1) [OF rel], of r w] wf] by simp
next
  case (dispatch w)
  then show ?thesis using op_specD [OF scheduler_relation.R_dispatch [OF rel] wf] by simp
next
  case (worker_start w pid k)
  then show ?thesis
    using op_specD [OF worker_relation.spec_worker_begin [OF scheduler_relation.axioms(1) [OF rel]] wf] by simp
next
  case (worker_end result k w failure cancel_failure code)
  have "job_record_wf res \<and> jr_status res \<noteq> STARTING" if "result = Some res" for res
    using worker_end(2) [OF that] by (auto simp: status_sets)
  then show ?thesis
    using worker_end op_specD [OF worker_relation.spec_finalize_all [OF scheduler_relation.axioms(1) [OF rel]] wf] by simp
next
  case (collect w proved k)
  then show ?thesis using op_specD [OF scheduler_relation.spec_collect [OF rel] wf] by simp
next
  case (cancel w jid)
  then show ?thesis
    using op_specD [OF worker_relation.spec_cancel_mark [OF scheduler_relation.axioms(1) [OF rel]] wf] by simp
next
  case (close w gone ks)
  then show ?thesis
    using op_specD [OF worker_relation.spec_cancel_close [OF scheduler_relation.axioms(1) [OF rel]] wf] by simp
next
  case (outer_edit t)
  then show ?thesis
    using worker_relation.R_target [OF scheduler_relation.axioms(1) [OF rel]] wf by (simp add: wf_registry_def)
qed

lemma sched_run_relation:
  assumes rel: "\<And>w. scheduler_relation w R ok n"
    and run: "(sched_step n)\<^sup>*\<^sup>* g g'" and wf: "wf_registry g"
  shows "wf_registry g' \<and> R g g'"
  using run
proof (induction rule: rtranclp_induct)
  case base
  show ?case using wf registry_relation.R_refl [OF worker_relation.axioms(1) [OF scheduler_relation.axioms(1) [OF rel]]] by simp
next
  case (step g1 g2)
  then show ?case
    using sched_step_relation [OF rel step(2)]
      registry_relation.R_trans [OF worker_relation.axioms(1) [OF scheduler_relation.axioms(1) [OF rel]]] by blast
qed

section \<open>Statuses move along the table\<close>

definition job_move :: "job_status option \<Rightarrow> job_status option \<Rightarrow> bool" where
  "job_move p q \<longleftrightarrow> (\<exists>ss. accepted_writes p ss \<and> q = (if ss = [] then p else Some (last ss)))"

definition job_moves :: "registry \<Rightarrow> registry \<Rightarrow> bool" where
  "job_moves g g' \<longleftrightarrow> (\<forall>k. job_move (status_at g k) (status_at g' k))"

lemma accepted_writes_append:
  "accepted_writes p (ss @ ts) \<longleftrightarrow>
     accepted_writes p ss \<and> accepted_writes (if ss = [] then p else Some (last ss)) ts"
  by (induction ss arbitrary: p) auto

lemma job_move_refl: "job_move p p"
  unfolding job_move_def by (rule exI [of _ "[]"]) simp

lemma job_move_trans: "job_move p q \<Longrightarrow> job_move q r \<Longrightarrow> job_move p r"
proof -
  assume "job_move p q" "job_move q r"
  then obtain ss ts where "accepted_writes p ss" "q = (if ss = [] then p else Some (last ss))"
    "accepted_writes q ts" "r = (if ts = [] then q else Some (last ts))"
    by (auto simp: job_move_def)
  then show "job_move p r"
    unfolding job_move_def by (intro exI [of _ "ss @ ts"]) (auto simp: accepted_writes_append)
qed

lemma job_move_step: "require_transition p s = Inr () \<Longrightarrow> job_move p (Some s)"
  unfolding job_move_def by (rule exI [of _ "[s]"]) simp

lemma status_at_frame [simp]:
  "status_at (g\<lparr>reg_target := t\<rparr>) = status_at g" "status_at (g\<lparr>reg_released := rs\<rparr>) = status_at g"
  "status_at (g\<lparr>reg_heartbeats := h\<rparr>) = status_at g"
  by (simp_all add: status_at_def fun_eq_iff)

interpretation moves: worker_relation w job_moves "\<lambda>_. True" for w
proof unfold_locales
  show "job_moves g g'" if "wf_registry g" "job_record_wf r" "saved w g r g' r'" for g r g' r'
    using that saved_ok(5) [OF that(3) that(2) that(1)]
    by (auto simp: job_moves_def saved_def job_move_step job_move_refl)
qed (auto simp: job_moves_def job_move_refl intro: job_move_trans)

interpretation moves_scheduler: scheduler_relation w job_moves "\<lambda>_. True" n for w n
  by unfold_locales (rule moves.spec_dispatch, simp)

section \<open>The parallelism bound\<close>

definition active_jobs :: "registry \<Rightarrow> str set" where
  "active_jobs g = {k. \<exists>s \<in> set ACTIVE_STATUSES. status_at g k = Some s}"

definition active_count :: "registry \<Rightarrow> nat" where
  "active_count g = card (active_jobs g)"

lemma finite_active: "finite (active_jobs g)"
proof (rule finite_subset)
  show "active_jobs g \<subseteq> set (dict_keys (reg_jobs g))"
    by (auto simp: active_jobs_def status_at_def dict_keys_get split: option.splits)
qed simp

lemma active_frame [simp]:
  "active_count (g\<lparr>reg_target := t\<rparr>) = active_count g" "active_count (g\<lparr>reg_released := rs\<rparr>) = active_count g"
  "active_count (g\<lparr>reg_heartbeats := h\<rparr>) = active_count g"
  by (simp_all add: active_count_def active_jobs_def)

lemma saved_active_le:
  assumes "wf_registry g" "job_record_wf r" "saved w g r g' r'"
  shows "active_count g' \<le> Suc (active_count g)"
proof -
  have "active_jobs g' \<subseteq> insert (job_id_of r) (active_jobs g)"
    using saved_ok(5) [OF assms(3,2,1)] by (auto simp: active_jobs_def)
  then have "card (active_jobs g') \<le> card (insert (job_id_of r) (active_jobs g))"
    by (rule card_mono [rotated]) (simp add: finite_active)
  also have "\<dots> \<le> Suc (card (active_jobs g))" by (simp add: card_insert_le_m1 card_insert_if finite_active)
  finally show ?thesis by (simp add: active_count_def)
qed

text \<open>Only a write of the status starting makes an inactive job active.\<close>

lemma saved_active_same:
  assumes "wf_registry g" "job_record_wf r" "saved w g r g' r'" "jr_status r \<noteq> STARTING"
  shows "active_count g' \<le> active_count g"
proof -
  have t: "require_transition (status_at g (job_id_of r)) (jr_status r) = Inr ()"
    using assms(3) by (simp add: saved_def)
  have "jr_status r \<in> set ACTIVE_STATUSES \<Longrightarrow> job_id_of r \<in> active_jobs g"
    using t assms(4)
    by (cases "status_at g (job_id_of r)" rule: TRANSITIONS.cases)
       (auto simp: active_jobs_def require_transition_ok status_sets)
  then have "active_jobs g' \<subseteq> active_jobs g"
    using saved_ok(5) [OF assms(3,2,1)] by (auto simp: active_jobs_def split: if_splits)
  then show ?thesis using card_mono [OF finite_active] by (simp add: active_count_def)
qed

interpretation active: worker_relation w "\<lambda>g g'. active_count g' \<le> active_count g" "\<lambda>s. s \<noteq> STARTING" for w
  by unfold_locales (auto intro: saved_active_same)

text \<open>One started job adds at most one active job.\<close>

lemma start_job_active:
  assumes "wf_registry g" "job_record_wf r"
  shows "wf_registry (fst (start_job w r g)) \<and> active_count (fst (start_job w r g)) \<le> Suc (active_count g)"
proof -
  let ?r = "set_attr ''started_at'' (JStr (w_now w)) (r\<lparr>jr_status := STARTING\<rparr>)"
  let ?k = "\<lambda>r. case w_launch w (job_id_of r) of
       Inl exc \<Rightarrow> bind_op (save_job w (set_attr ''error'' (JStr (''worker launch failed: '' @ exc))
               (set_attr ''finished_at'' (JStr (w_now w)) (r\<lparr>jr_status := INFRASTRUCTURE_INVALID\<rparr>))))
             (\<lambda>_. throw (LaunchError exc))
     | Inr pid \<Rightarrow> bind_op (save_job w (set_attr ''pid'' (JInt pid) (r\<lparr>jr_status := RUNNING\<rparr>))) (\<lambda>r'.
             modify (\<lambda>g. g\<lparr>reg_heartbeats := dict_set (job_id_of r') pid (reg_heartbeats g)\<rparr>))"
  have wfr: "job_record_wf ?r" using assms(2) by (simp add: wf_set_attr)
  obtain g1 x where s: "save_job w ?r g = (g1, x)" by (cases "save_job w ?r g")
  show ?thesis
  proof (cases x)
    case (Inl e)
    with s save_job_error [OF s [unfolded Inl]] assms(1) show ?thesis by (simp add: start_job_def bind_op_def)
  next
    case (Inr r1)
    have sv: "saved w g ?r g1 r1" using save_job_saved [OF s [unfolded Inr]] .
    note ok = saved_ok [OF sv wfr assms(1)] and le = saved_active_le [OF assms(1) wfr sv]
    have hb: "op_spec (\<lambda>g g'. active_count g' \<le> active_count g) (\<lambda>_. True)
        (modify (\<lambda>g. g\<lparr>reg_heartbeats := dict_set k pid (reg_heartbeats g)\<rparr>))" for k pid
      by (simp add: op_spec_def modify_def wf_registry_def)
    have "op_spec (\<lambda>g g'. active_count g' \<le> active_count g) (\<lambda>_. True) (?k r1)"
      using ok(2) by (auto split: sum.split intro!: active.spec_bind [OF active.spec_save_ok] active.spec_throw hb
          simp: wf_set_attr)
    from op_specD [OF this ok(1)] le s Inr show ?thesis by (auto simp: start_job_def bind_op_def)
  qed
qed

lemma each_start_active:
  "wf_registry g \<Longrightarrow> list_all job_record_wf rs \<Longrightarrow>
     wf_registry (fst (each_op (start_job w) rs g))
     \<and> active_count (fst (each_op (start_job w) rs g)) \<le> active_count g + length rs"
proof (induction rs arbitrary: g)
  case (Cons r rs)
  obtain g1 x where s: "start_job w r g = (g1, x)" by (cases "start_job w r g")
  with start_job_active [of g r w] Cons.prems have "wf_registry g1" "active_count g1 \<le> Suc (active_count g)" by auto
  with Cons.IH [of g1] Cons.prems s show ?case by (cases x) (auto simp: bind_op_def)
qed (simp add: ret_def)

lemma read_jobs_status:
  "read_jobs kvs = Inr rs \<Longrightarrow> \<forall>(k, v) \<in> set kvs. dict_get (reg_jobs g) k = Some v \<Longrightarrow>
     list_all (\<lambda>(k, v). stored_ok v) kvs \<Longrightarrow>
     \<forall>r \<in> set rs. status_at g (job_id_of r) = Some (jr_status r)"
proof (induction kvs arbitrary: rs)
  case (Cons kv kvs)
  obtain k v where kv: "kv = (k, v)" by (cases kv)
  from Cons.prems(1) obtain r rs' where r: "read_job v k = Inr r" "read_jobs kvs = Inr rs'" "rs = r # rs'"
    by (auto simp: kv split: sum.splits)
  moreover have "status_at g (job_id_of r) = Some (jr_status r)"
    using Cons.prems(2,3) r(1) read_job_ok [OF r(1)] by (simp add: kv status_at_def)
  ultimately show ?case using Cons by (simp add: kv)
qed simp

text \<open>The jobs listed are the stored ones, each once.\<close>

lemma all_jobs_exact:
  assumes wf: "wf_registry g" and all: "all_jobs g = Inr rs"
  shows "distinct (map job_id_of rs)" "set (map job_id_of rs) = set (dict_keys (reg_jobs g))"
    "\<forall>r \<in> set rs. status_at g (job_id_of r) = Some (jr_status r)"
proof -
  let ?kvs = "sort_key fst (reg_jobs g)"
  from all obtain rs' where r: "read_jobs ?kvs = Inr rs'"
    and rs: "rs = sort_key (\<lambda>r. str_or_empty (attr r ''created_at'')) rs'"
    by (auto simp: all_jobs_def split: sum.splits)
  have st: "list_all (\<lambda>(k, v). stored_ok v) ?kvs" using wf by (auto simp: wf_registry_def list_all_iff)
  have "mset (map job_id_of rs) = mset (map job_id_of rs')" by (simp add: rs)
  also have "\<dots> = mset (map fst ?kvs)" using read_jobs_ok [OF r st] by simp
  also have "\<dots> = mset (map fst (reg_jobs g))" by simp
  finally have m: "mset (map job_id_of rs) = mset (map fst (reg_jobs g))" .
  show "distinct (map job_id_of rs)"
    using wf m mset_eq_imp_distinct_iff [OF m] by (simp add: wf_registry_def dict_wf_def)
  show "set (map job_id_of rs) = set (dict_keys (reg_jobs g))"
    using m by (metis dict_keys_def mset_eq_setD)
  have "\<forall>(k, v) \<in> set ?kvs. dict_get (reg_jobs g) k = Some v"
    using wf by (auto simp: wf_registry_def dict_wf_def dict_get_def)
  from read_jobs_status [OF r this st] rs
  show "\<forall>r \<in> set rs. status_at g (job_id_of r) = Some (jr_status r)" by simp
qed

lemma all_jobs_active:
  assumes "wf_registry g" "all_jobs g = Inr rs"
  shows "length (filter (\<lambda>r. jr_status r \<in> set ACTIVE_STATUSES) rs) = active_count g"
proof -
  let ?as = "filter (\<lambda>r. jr_status r \<in> set ACTIVE_STATUSES) rs"
  note e = all_jobs_exact [OF assms]
  have "job_id_of ` set ?as = active_jobs g"
  proof (intro equalityI subsetI)
    fix k assume "k \<in> active_jobs g"
    then obtain s where s: "s \<in> set ACTIVE_STATUSES" "status_at g k = Some s" by (auto simp: active_jobs_def)
    then have "k \<in> set (dict_keys (reg_jobs g))"
      by (auto simp: status_at_def dict_keys_get split: option.splits)
    then obtain r where "r \<in> set rs" "job_id_of r = k" using e(2) by (metis in_set_conv_nth length_map nth_map nth_mem)
    with e(3) s show "k \<in> job_id_of ` set ?as" by force
  qed (use e(3) in \<open>auto simp: active_jobs_def\<close>)
  moreover have "distinct (map job_id_of ?as)" using e(1) by (simp add: distinct_map_filter)
  ultimately show ?thesis
    using distinct_card [of "map job_id_of ?as"] by (simp add: active_count_def)
qed

lemma dispatch_active:
  assumes wf: "wf_registry g"
  shows "wf_registry (fst (dispatch_locked w n g))
    \<and> active_count (fst (dispatch_locked w n g)) \<le> max (active_count g) (nat n)"
proof -
  obtain g1 x1 where rec: "reconcile_locked w g = (g1, x1)" by (cases "reconcile_locked w g")
  from op_specD [OF active.spec_reconcile wf, of w] rec
  have g1: "wf_registry g1" "active_count g1 \<le> active_count g" by auto
  show ?thesis
  proof (cases "\<exists>jobs vs. x1 = Inr () \<and> all_jobs g1 = Inr jobs
      \<and> active_boundary_violations w jobs (reg_target g1) = Inr [] \<and> active_count g1 < nat n")
    case True
    then obtain jobs where t: "x1 = Inr ()" "all_jobs g1 = Inr jobs"
      "active_boundary_violations w jobs (reg_target g1) = Inr []" "active_count g1 < nat n" by auto
    let ?todo = "take (nat (n - int (active_count g1))) (filter (\<lambda>r. jr_status r = QUEUED) jobs)"
    have eq: "dispatch_locked w n g = each_op (start_job w) ?todo g1"
      using t rec all_jobs_active [OF g1(1) t(2)]
      by (simp add: dispatch_locked_def bind_op_def lift_op_def Let_def)
    have wft: "list_all job_record_wf ?todo"
      using all_jobs_ok [OF g1(1) t(2)] by (auto simp: list_all_iff dest!: in_set_takeD)
    have len: "length ?todo \<le> nat n - active_count g1" using t(4) by (simp add: min_def) linarith
    note st = each_start_active [OF g1(1) wft, of w]
    from st have "active_count (fst (dispatch_locked w n g)) \<le> active_count g1 + length ?todo" unfolding eq by blast
    with len t(4) have "active_count (fst (dispatch_locked w n g)) \<le> nat n" by linarith
    with st show ?thesis unfolding eq by simp
  next
    case False
    have "fst (dispatch_locked w n g) = g1"
      using False rec all_jobs_active [OF g1(1)]
      by (auto simp: dispatch_locked_def bind_op_def lift_op_def ret_def Let_def split: sum.split)
    with g1 show ?thesis by simp
  qed
qed

interpretation bounded: scheduler_relation w "\<lambda>g g'. active_count g \<le> nat n \<longrightarrow> active_count g' \<le> nat n"
  "\<lambda>s. s \<noteq> STARTING" n for w n
proof unfold_locales
  show "active_count g \<le> nat n \<longrightarrow> active_count g' \<le> nat n"
    if "wf_registry g" "job_record_wf r" "saved w g r g' r'" "jr_status r \<noteq> STARTING" for g r g' r'
    using saved_active_same [OF that] by simp
  show "op_spec (\<lambda>g g'. active_count g \<le> nat n \<longrightarrow> active_count g' \<le> nat n) (\<lambda>_. True) (dispatch_locked w n)"
    unfolding op_spec_def using dispatch_active [of _ w n] by (fastforce simp: max_def)
qed auto

section \<open>Collecting\<close>

lemma dispatch_target: "reg_target (fst (dispatch_locked w n g)) = reg_target g"
proof -
  have sv: "reg_target (fst (save_job w r g)) = reg_target g" for r g
    by (auto simp: save_job_def Let_def split: option.split sum.split job_error.split)
  have bd: "reg_target (fst (bind_op f k g)) = reg_target g"
    if "\<And>g. reg_target (fst (f g)) = reg_target g" "\<And>x g. reg_target (fst (k x g)) = reg_target g"
    for f :: "'a reg_op" and k :: "'a \<Rightarrow> 'b reg_op" and g
    using that(1) [of g] that(2) by (auto simp: bind_op_def split: prod.split sum.split)
  have ea: "reg_target (fst (each_op f xs g)) = reg_target g"
    if "\<And>x g. reg_target (fst (f x g)) = reg_target g" for f and xs :: "'c list" and g
    using that by (induction xs arbitrary: g) (simp_all add: ret_def bd)
  have fin: "reg_target (fst (finalize_dead_worker_job w k g)) = reg_target g" for k g
    unfolding finalize_dead_worker_job_def finalize_job_def
    by (rule bd, simp add: release_job_def modify_def, rule bd, simp add: lift_op_def)
       (auto simp: ret_def sv intro!: bd)
  have rc: "reg_target (fst (reconcile_locked w g)) = reg_target g" for g
    unfolding reconcile_locked_def
    by (rule bd, simp add: lift_op_def, rule ea) (simp add: ret_def fin)
  have st: "reg_target (fst (start_job w r g)) = reg_target g" for r g
    unfolding start_job_def
    by (rule bd, rule sv) (auto split: sum.split intro!: bd simp: sv throw_def modify_def)
  show ?thesis
    unfolding dispatch_locked_def
    by (rule bd, rule rc, rule bd, simp add: lift_op_def, rule bd, simp add: lift_op_def)
       (simp add: Let_def ret_def ea st)
qed

lemma bind_lift: "bind_op (lift_op f) k g = (case f g of Inl e \<Rightarrow> (g, Inl e) | Inr x \<Rightarrow> k x g)"
  by (simp add: bind_op_def lift_op_def split: sum.split)

lemma bind_modify: "bind_op (modify f) k g = k () (f g)"
  by (simp add: bind_op_def modify_def)

lemma save_job_target: "reg_target (fst (save_job w r g)) = reg_target g"
  by (auto simp: save_job_def Let_def split: option.split sum.split job_error.split)

lemma finish_collect_target: "reg_target (fst (finish_collect w r g)) = reg_target g"
  using save_job_target [of w r g]
  by (auto simp: finish_collect_def bind_op_def lift_op_def split: prod.split sum.split)

text \<open>When the target is replaced by the merged text, and what the record says then.\<close>

lemma merge_checked_target:
  assumes "merge_checked w n r current merged v g = (g', x)"
  shows "reg_target g' = w_outer_edit w (reg_target g)
    \<or> reg_target g' = merged \<and> fst v \<and> w_outer_edit w (reg_target g) = current"
proof -
  let ?g1 = "g\<lparr>reg_target := w_outer_edit w (reg_target g)\<rparr>"
  consider "\<not> fst v" | "fst v" "w_outer_edit w (reg_target g) \<noteq> current"
    | "fst v" "w_outer_edit w (reg_target g) = current" by blast
  then show ?thesis
  proof cases
    case 3
    let ?g2 = "?g1\<lparr>reg_target := merged\<rparr>"
    obtain m where m: "merge_checked w n r current merged v g = bind_op (save_job w m) (\<lambda>r.
        bind_op (dispatch_locked w n) (\<lambda>_. lift_op (\<lambda>_. public_record None r))) ?g2"
      using 3 by (simp add: merge_checked_def bind_modify bind_lift)
    have "reg_target (fst (bind_op (dispatch_locked w n) (\<lambda>_. lift_op (\<lambda>_. public_record None r)) h)) = reg_target h" for r h
      using dispatch_target [of w n h] by (auto simp: bind_op_def lift_op_def split: prod.split sum.split)
    then have "reg_target (fst (merge_checked w n r current merged v g)) = merged"
      using save_job_target [of w m ?g2] unfolding m by (auto simp: bind_op_def split: prod.split sum.split)
    with 3 assms show ?thesis by simp
  next
    case 1
    then obtain m where "merge_checked w n r current merged v g = finish_collect w m ?g1"
      by (simp add: merge_checked_def bind_modify)
    with assms finish_collect_target [of w m ?g1] show ?thesis by simp
  next
    case 2
    then obtain m where "merge_checked w n r current merged v g = finish_collect w m ?g1"
      by (simp add: merge_checked_def bind_modify bind_lift)
    with assms finish_collect_target [of w m ?g1] show ?thesis by simp
  qed
qed

lemma job_move_final:
  assumes "job_move (Some s) q" "s \<in> set TERMINAL_STATUSES" "s \<noteq> VERIFIED"
  shows "q = Some s"
proof -
  from assms(1) obtain ss where ss: "accepted_writes (Some s) ss" "q = (if ss = [] then Some s else Some (last ss))"
    by (auto simp: job_move_def)
  have "accepted_writes (Some s) ss \<Longrightarrow> set ss \<subseteq> {s}"
    using assms(2,3) by (induction ss) (cases s; auto simp: require_transition_ok status_sets)+
  with ss show ?thesis by (auto dest: last_in_set)
qed

text \<open>The target text after collecting: untouched, as the outer agent left it, or the merged text.\<close>

lemma collect_target:
  assumes "collect_job w n proved k g = (g', x)"
  shows "reg_target g' \<in> {reg_target g, w_outer_edit w (reg_target g)}
    \<or> (\<exists>r lemma submitted contract body a b old rest.
         load_job k g = Inr r \<and> jr_status r = VERIFIED \<and> lemma = py_str (attr r ''lemma'')
         \<and> submitted_contract r = Inr submitted
         \<and> source_contract w (reg_target g) lemma = Inr contract \<and> \<not> contract_drifted contract submitted
         \<and> proof_body_span proved lemma = Inr (body, rest)
         \<and> proof_body_span (reg_target g) lemma = Inr (old, (a, b))
         \<and> reg_target g' = take a (reg_target g) @ body @ drop b (reg_target g)
         \<and> fst (w_verify w (reg_target g') lemma) \<and> w_outer_edit w (reg_target g) = reg_target g)"
proof (cases "reg_target g' \<in> {reg_target g, w_outer_edit w (reg_target g)}")
  case False
  then have ne: "reg_target g' \<noteq> reg_target g" by blast
  from assms ne obtain r where r: "load_job k g = Inr r" "jr_status r = VERIFIED"
    by (auto simp: collect_job_def bind_lift lift_op_def throw_def split: sum.splits if_splits)
  define lem where "lem = py_str (attr r ''lemma'')"
  from assms ne r obtain contract submitted
    where c: "lift_source (source_contract w (reg_target g) lem) = Inr contract"
      and sub: "submitted_contract r = Inr submitted"
    by (auto simp: collect_job_def bind_lift Let_def lem_def split: sum.splits)
  have drift: "\<not> contract_drifted contract submitted"
  proof
    assume "contract_drifted contract submitted"
    then have "collect_job w n proved k g = finish_collect w (stale_record w r) g"
      using r c sub by (simp add: collect_job_def bind_lift Let_def lem_def)
    with assms ne finish_collect_target [of w "stale_record w r" g] show False by simp
  qed
  from assms ne r c sub drift obtain body rest old a b
    where body: "lift_source (proof_body_span proved lem) = Inr (body, rest)"
      "lift_source (proof_body_span (reg_target g) lem) = Inr (old, (a, b))"
      and merge: "merge_checked w n r (reg_target g) (take a (reg_target g) @ body @ drop b (reg_target g))
         (w_verify w (take a (reg_target g) @ body @ drop b (reg_target g)) lem) g = (g', x)"
    by (auto simp: collect_job_def bind_lift Let_def lem_def throw_def split: sum.splits prod.splits if_splits)
  have li: "lift_source y = Inr z \<Longrightarrow> y = Inr z" for y :: "source_error + 'z" and z
    by (auto simp: lift_source_def split: sum.splits source_error.splits)
  from merge_checked_target [OF merge] False
  have t: "reg_target g' = take a (reg_target g) @ body @ drop b (reg_target g)"
    "fst (w_verify w (take a (reg_target g) @ body @ drop b (reg_target g)) lem)"
    "w_outer_edit w (reg_target g) = reg_target g" by auto
  show ?thesis
    using r sub li [OF c] drift li [OF body(1)] li [OF body(2)] t lem_def
    by (intro disjI2 exI [of _ r] exI [of _ lem] exI [of _ submitted] exI [of _ contract] exI [of _ body]
        exI [of _ a] exI [of _ b] exI [of _ old] exI [of _ rest]) simp
qed simp

lemma latest_sequence_bound:
  "latest_sequence vs n = Inr m \<Longrightarrow> n \<le> m \<and> (\<forall>v \<in> set vs. \<exists>i. stored_sequence v = Some i \<and> i \<le> m)"
proof (induction vs n arbitrary: m rule: latest_sequence.induct)
  case (2 v vs latest)
  from "2.prems" obtain i where i: "stored_sequence v = Some i" "latest_sequence vs (max latest i) = Inr m"
    by (auto split: option.splits)
  from "2.IH" [OF i] i show ?case by auto
qed simp

section \<open>Properties\<close>

text \<open>C13. Jobs only move along the transition table. Whatever locked sections of the scheduler run, in
  any order, with any clock, processes and verifier, raising or not, and with any edits of the
  target in between: the registry stays well formed, the status of every job changes only by a
  sequence of writes the transition table accepts, no job disappears, and a job that is
  incomplete, invalid, cancelled, merged or stale keeps that status for good.\<close>
theorem scheduler_respects_transitions:
  assumes "(sched_step n)\<^sup>*\<^sup>* g g'" and "wf_registry g"
  shows "wf_registry g' \<and> job_move (status_at g k) (status_at g' k)
    \<and> (status_at g k \<noteq> None \<longrightarrow> status_at g' k \<noteq> None)
    \<and> (s \<in> set TERMINAL_STATUSES - {VERIFIED} \<and> status_at g k = Some s \<longrightarrow> status_at g' k = Some s)"
proof -
  from sched_run_relation [OF moves_scheduler.scheduler_relation_axioms assms]
  have wf: "wf_registry g'" and mv: "job_move (status_at g k) (status_at g' k)" by (auto simp: job_moves_def)
  have "status_at g k \<noteq> None \<longrightarrow> status_at g' k \<noteq> None" using mv by (auto simp: job_move_def split: if_splits)
  with wf mv job_move_final [of s "status_at g' k"] show ?thesis by auto
qed

definition empty_registry :: registry where
  "empty_registry = \<lparr>reg_jobs = [], reg_target = [], reg_released = [], reg_heartbeats = []\<rparr>"

definition sample_world :: world where
  "sample_world = \<lparr>w_now = ''t'', w_sha256 = (\<lambda>t. t), w_alive = (\<lambda>_. True), w_launch = (\<lambda>_. Inr 7),
     w_verify = (\<lambda>_ _. (True, [])), w_outer_edit = (\<lambda>t. t)\<rparr>"

definition sample_record :: job_record where
  "sample_record = new_job_record QUEUED [(''job_id'', JStr ''0123456789abcdef''), (''lemma'', JStr ''a'')] []"

lemma sample_record_wf: "job_record_wf sample_record" "jr_status sample_record = QUEUED"
  by code_simp+

lemma sample_submit:
  "(sched_step 2)\<^sup>*\<^sup>* empty_registry (fst (save_job sample_world sample_record empty_registry))"
  using sched_step.submit [OF sample_record_wf] by (rule r_into_rtranclp)

lemma empty_registry_wf: "wf_registry empty_registry"
  by (simp add: wf_registry_def empty_registry_def dict_wf_def)

theorem scheduler_respects_transitions_witness:
  "\<exists>g'. (sched_step 2)\<^sup>*\<^sup>* empty_registry g' \<and> status_at g' ''0123456789abcdef'' = Some QUEUED
     \<and> job_move None (status_at g' ''0123456789abcdef'')"
proof -
  let ?g = "fst (save_job sample_world sample_record empty_registry)"
  have "status_at empty_registry ''0123456789abcdef'' = None" by code_simp
  moreover have "status_at ?g ''0123456789abcdef'' = Some QUEUED" by code_simp
  ultimately show ?thesis
    using scheduler_respects_transitions [OF sample_submit empty_registry_wf, of "''0123456789abcdef''"] sample_submit
    by auto
qed

text \<open>C14. The parallelism bound. When at most \<open>max_parallel\<close> jobs are starting, running or being
  cancelled, no run of the scheduler ever has more: a dispatch starts queued jobs only up to the
  free capacity, and no other operation makes an inactive job active.\<close>
theorem parallelism_bounded:
  assumes "(sched_step max_parallel)\<^sup>*\<^sup>* g g'" and "wf_registry g" and "active_count g \<le> nat max_parallel"
  shows "active_count g' \<le> nat max_parallel"
  using sched_run_relation [OF bounded.scheduler_relation_axioms assms(1,2)] assms(3) by blast

theorem parallelism_bounded_witness:
  "\<exists>g'. (sched_step 2)\<^sup>*\<^sup>* empty_registry g' \<and> status_at g' ''0123456789abcdef'' = Some QUEUED
     \<and> active_count g' \<le> 2"
proof -
  let ?g = "fst (save_job sample_world sample_record empty_registry)"
  have "active_jobs empty_registry = {}" by (auto simp: active_jobs_def status_at_def empty_registry_def dict_get_def)
  then have e: "active_count empty_registry \<le> nat 2" by (simp add: active_count_def)
  have "status_at ?g ''0123456789abcdef'' = Some QUEUED" by code_simp
  with parallelism_bounded [OF sample_submit empty_registry_wf e] sample_submit show ?thesis by auto
qed



text \<open>Terminal events are numbered. A write that takes a job to a new terminal status gives it a
  sequence number greater than the number of every stored job and greater than zero, and the
  stored record carries it, so a reader that waits for numbers above its cursor sees every
  terminal change.\<close>
lemma terminal_sequence_fresh:
  assumes "save_job w r g = (g', Inr r')" and "job_record_wf r" and "wf_registry g"
    and "jr_status r \<in> set TERMINAL_STATUSES" and "status_at g (job_id_of r) \<noteq> Some (jr_status r)"
  shows "\<exists>n > 0. attr r' ''terminal_event_sequence'' = JInt n
    \<and> dict_get (reg_jobs g') (job_id_of r) = Some (JObj (to_dict r'))
    \<and> stored_sequence (JObj (to_dict r')) = Some n
    \<and> (\<forall>k v. dict_get (reg_jobs g) k = Some v \<longrightarrow> (\<exists>m. stored_sequence v = Some m \<and> m < n))"
proof -
  have sv: "saved w g r g' r'" using save_job_saved [OF assms(1)] .
  from sv assms(4,5) obtain m where m: "latest_terminal_sequence g = Inr m"
    and r': "r' = stamp_terminal w (status_at g (job_id_of r)) (m + 1) r" by (auto simp: saved_def)
  have b: "0 \<le> m" "\<forall>v \<in> set (map snd (reg_jobs g)). \<exists>i. stored_sequence v = Some i \<and> i \<le> m"
    using latest_sequence_bound m by (auto simp: latest_terminal_sequence_def)
  have at: "attr r' ''terminal_event_sequence'' = JInt (m + 1)" using stamp_terminal_ok(4) [OF assms(2)] by (simp add: r')
  have wf': "job_record_wf r'" using saved_ok(2) [OF sv assms(2,3)] .
  have "''terminal_event_sequence'' \<in> set FIELD_NAMES" by (simp add: FIELD_NAMES_def)
  then have "jget (to_dict r') ''terminal_event_sequence'' = JInt (m + 1)"
    using jget_to_dict [OF wf'] at by (simp add: field_value_def)
  then have ss: "stored_sequence (JObj (to_dict r')) = Some (m + 1)"
    using b(1) by (simp add: stored_sequence_def py_or_def py_truthy_def py_int_def)
  have "dict_get (reg_jobs g') (job_id_of r) = Some (JObj (to_dict r'))"
    using sv by (simp add: saved_def dict_get_set)
  moreover have "\<exists>i. stored_sequence v = Some i \<and> i < m + 1" if "dict_get (reg_jobs g) k = Some v" for k v
    using b(2) that by (force simp: dict_get_def dest: map_of_SomeD)
  ultimately show ?thesis using at ss b(1) by (intro exI [of _ "m + 1"]) auto
qed

definition queued_registry :: registry where
  "queued_registry = empty_registry\<lparr>reg_jobs := [(''0123456789abcdef'',
     JObj [(''job_id'', JStr ''0123456789abcdef''), (''schema_version'', JInt 1), (''status'', JStr ''queued'')])]\<rparr>"

end
