(* ===== verification/Tool_Session.thy ===== *)
theory Tool_Session
  imports Py_Dict Complex_Main
begin

text \<open>
  \<open>workflow/proof_tool/proof_tool_session.py\<close>: the serialized, idempotent serving session of the
  proof tool. The session's fields are a record; its collaborators (the manager's turn handler,
  the node memory, the response renderer and the clock) are what they answered during one call,
  the record \<open>serving\<close>. The lock makes a \<open>submit\<close> atomic; \<open>request_stop\<close> sets the admission
  event before it waits for the lock, so it is two steps, and the interleavings of both with the
  submissions of other threads are the runs of \<open>session_step\<close>. The calls to the turn monitor are
  logged.
\<close>

datatype turn_directive = CONTINUE | STOP_REQUESTED | NODE_UNHEALTHY

record session_response =
  sr_exit_code :: int
  sr_text :: str
  sr_turn_index :: nat
  sr_directive :: turn_directive
  sr_manager_turn_completed :: bool

definition is_error :: "session_response \<Rightarrow> bool" where
  "is_error r \<longleftrightarrow> sr_exit_code r \<noteq> 0"

record stop_boundary =
  sb_turn_index :: nat
  sb_committed_tactics :: "str list"
  sb_reason :: str

record managed_turn =
  mt_directive :: turn_directive
  mt_committed_tactics :: "str list"
  mt_health_event :: "(str \<times> str) option"

datatype monitor_call = Turn_Started nat | Turn_Finished

record session =
  ts_max_turns :: nat
  ts_stop_admission :: bool
  ts_turn_index :: nat
  ts_last_committed_tactics :: "str list"
  ts_stop_requested :: bool
  ts_stop_reason :: str
  ts_unhealthy_reason :: str
  ts_entries :: "(str, session_response) dict"
  ts_monitor :: "monitor_call list"
  ts_emitted :: "nat list"

datatype session_error = SessionValueError str

definition new_session :: "str \<Rightarrow> int \<Rightarrow> str list \<Rightarrow> session_error + session" where
  "new_session node_id max_turns initial_committed_tactics =
     (if py_strip node_id = []
      then Inl (SessionValueError ''proof-tool session requires a non-empty node id'')
      else Inr \<lparr>ts_max_turns = nat (max 1 max_turns), ts_stop_admission = False, ts_turn_index = 0,
        ts_last_committed_tactics = initial_committed_tactics, ts_stop_requested = False,
        ts_stop_reason = [], ts_unhealthy_reason = [], ts_entries = [], ts_monitor = [],
        ts_emitted = []\<rparr>)"

section \<open>Stopping\<close>

text \<open>The two steps of \<open>request_stop\<close>: closing admission, and the boundary taken under the lock.\<close>

definition close_admission :: "session \<Rightarrow> session" where
  "close_admission s = s\<lparr>ts_stop_admission := True\<rparr>"

definition drain_stop :: "str \<Rightarrow> session \<Rightarrow> session \<times> stop_boundary" where
  "drain_stop reason s =
     (let stop_reason = py_strip (if reason = [] then ''external stop requested'' else reason);
          s1 = s\<lparr>ts_stop_requested := True\<rparr>;
          s2 = (if ts_stop_reason s1 = [] then s1\<lparr>ts_stop_reason := stop_reason\<rparr> else s1)
      in (s2, \<lparr>sb_turn_index = ts_turn_index s2, sb_committed_tactics = ts_last_committed_tactics s2,
               sb_reason = ts_stop_reason s2\<rparr>))"

definition request_stop :: "str \<Rightarrow> session \<Rightarrow> session \<times> stop_boundary" where
  "request_stop reason s = drain_stop reason (close_admission s)"

section \<open>Submitting\<close>

text \<open>A value given for a deadline, after \<open>float\<close>: it may not be numeric, and a float may not be
  finite.\<close>

datatype deadline_value = Not_Numeric | Not_Finite | Finite rat

definition absolute_deadline :: "deadline_value \<Rightarrow> session_error + rat" where
  "absolute_deadline v =
     (case v of
        Not_Numeric \<Rightarrow> Inl (SessionValueError ''proof-tool absolute deadline must be numeric'')
      | Not_Finite \<Rightarrow> Inl (SessionValueError ''proof-tool absolute deadline must be finite and positive'')
      | Finite d \<Rightarrow>
          if d \<le> 0 then Inl (SessionValueError ''proof-tool absolute deadline must be finite and positive'')
          else Inr d)"

text \<open>An exception as its type name and text; what the collaborators answer.\<close>

type_synonym exc = "str \<times> str"

datatype handler_answer = Handler_Raised exc | Not_A_Turn | Turn managed_turn
datatype renderer_answer = Renderer_Raised exc | Not_Text | Text str

record serving =
  sv_clock :: rat
  sv_turn :: handler_answer
  sv_clock_after :: rat
  sv_memory_raised :: "exc option"
  sv_rendered :: renderer_answer

definition cache_response :: "str \<Rightarrow> session_response \<Rightarrow> session \<Rightarrow> session" where
  "cache_response key r s = s\<lparr>ts_entries := dict_set key r (ts_entries s)\<rparr>"

definition current_unhealthy_response :: "bool \<Rightarrow> session \<Rightarrow> session_response" where
  "current_unhealthy_response completed s =
     \<lparr>sr_exit_code = 2,
      sr_text = ''MANAGER WORKER STOP: proof node is unhealthy: ''
        @ (if ts_unhealthy_reason s = [] then ''unknown proof-tool session failure''
           else ts_unhealthy_reason s),
      sr_turn_index = ts_turn_index s, sr_directive = NODE_UNHEALTHY,
      sr_manager_turn_completed = completed\<rparr>"

definition unhealthy_response :: "str \<Rightarrow> bool \<Rightarrow> session \<Rightarrow> session \<times> session_response" where
  "unhealthy_response reason completed s =
     (let s' = s\<lparr>ts_unhealthy_reason := (if reason = [] then ''proof-tool session is unhealthy'' else reason)\<rparr>
      in (s', current_unhealthy_response completed s'))"

definition apply_directive :: "managed_turn \<Rightarrow> session \<Rightarrow> session" where
  "apply_directive turn s =
     (case mt_directive turn of
        STOP_REQUESTED \<Rightarrow> s\<lparr>ts_stop_requested := True, ts_stop_admission := True\<rparr>
      | NODE_UNHEALTHY \<Rightarrow>
          s\<lparr>ts_unhealthy_reason :=
             (case mt_health_event turn of
                Some (status, message) \<Rightarrow> status @ '': '' @ message
              | None \<Rightarrow> ''manager marked the node unhealthy'')\<rparr>
      | CONTINUE \<Rightarrow> s)"

definition emit_completed_turn :: "session \<Rightarrow> session" where
  "emit_completed_turn s = s\<lparr>ts_emitted := ts_emitted s @ [ts_turn_index s]\<rparr>"

text \<open>The \<open>except\<close> branch of a call.\<close>

definition serve_failed :: "str \<Rightarrow> exc \<Rightarrow> bool \<Rightarrow> nat \<Rightarrow> session \<Rightarrow> session \<times> session_response" where
  "serve_failed key ex manager_completed next_turn_index s =
     (let s1 = (if manager_completed then s\<lparr>ts_turn_index := next_turn_index\<rparr> else s);
          phase = (if manager_completed then ''memory/renderer'' else ''manager turn'');
          (s2, r) = unhealthy_response
            (''proof-tool session failed in the '' @ phase @ '' ('' @ fst ex @ '': '' @ take 300 (snd ex) @ '')'')
            manager_completed s1;
          s3 = cache_response key r s2
      in (if manager_completed then emit_completed_turn s3 else s3, r))"

text \<open>The \<open>try\<close> body, from the manager's turn to the response.\<close>

definition serve_turn :: "str \<Rightarrow> rat \<Rightarrow> serving \<Rightarrow> session \<Rightarrow> session \<times> session_response" where
  "serve_turn key deadline sv s =
     (let next_turn_index = Suc (ts_turn_index s) in
      case sv_turn sv of
        Handler_Raised ex \<Rightarrow> serve_failed key ex False next_turn_index s
      | Not_A_Turn \<Rightarrow>
          serve_failed key (''TypeError'', ''manager returned a non-ManagedTurn result'') True next_turn_index s
      | Turn turn \<Rightarrow>
          (let s1 = (if mt_directive turn \<noteq> NODE_UNHEALTHY
                     then s\<lparr>ts_last_committed_tactics := mt_committed_tactics turn\<rparr> else s)
           in if deadline < sv_clock_after sv
              then (let (s2, r) = unhealthy_response
                          ''proof-tool manager turn exceeded its absolute deadline'' True
                          (s1\<lparr>ts_turn_index := next_turn_index\<rparr>)
                    in (emit_completed_turn (cache_response key r s2), r))
              else case (sv_memory_raised sv, sv_rendered sv) of
                (Some ex, _) \<Rightarrow> serve_failed key ex True next_turn_index s1
              | (None, Renderer_Raised ex) \<Rightarrow> serve_failed key ex True next_turn_index s1
              | (None, Not_Text) \<Rightarrow>
                  serve_failed key (''TypeError'', ''proof-tool response renderer returned non-text'')
                    True next_turn_index s1
              | (None, Text rendered) \<Rightarrow>
                  (let s2 = (apply_directive turn s1)\<lparr>ts_turn_index := next_turn_index\<rparr>;
                       r = \<lparr>sr_exit_code = (if mt_directive turn = NODE_UNHEALTHY then 2 else 0),
                            sr_text = rendered, sr_turn_index = ts_turn_index s2,
                            sr_directive = mt_directive turn, sr_manager_turn_completed = True\<rparr>
                   in (emit_completed_turn (cache_response key r s2), r))))"

definition stop_response :: "str \<Rightarrow> session \<Rightarrow> session_response" where
  "stop_response message s =
     \<lparr>sr_exit_code = 0, sr_text = message, sr_turn_index = ts_turn_index s,
      sr_directive = STOP_REQUESTED, sr_manager_turn_completed = False\<rparr>"

definition monitored :: "(session \<Rightarrow> session \<times> session_response) \<Rightarrow> session \<Rightarrow> session \<times> session_response" where
  "monitored serve s =
     (let (s', r) = serve (s\<lparr>ts_monitor := ts_monitor s @ [Turn_Started (Suc (ts_turn_index s))]\<rparr>)
      in (s'\<lparr>ts_monitor := ts_monitor s' @ [Turn_Finished]\<rparr>, r))"

definition submit_locked :: "str \<Rightarrow> rat \<Rightarrow> serving \<Rightarrow> session \<Rightarrow> session \<times> session_response" where
  "submit_locked key deadline sv s =
     (case dict_get (ts_entries s) key of
        Some prior \<Rightarrow>
          if ts_unhealthy_reason s \<noteq> [] \<and> sr_directive prior \<noteq> NODE_UNHEALTHY
          then (let r = current_unhealthy_response False s in (cache_response key r s, r))
          else (s, prior)
      | None \<Rightarrow>
          if ts_unhealthy_reason s \<noteq> []
          then (let r = current_unhealthy_response False s in (cache_response key r s, r))
          else if ts_stop_admission s \<or> ts_stop_requested s
          then (let r = stop_response (''MANAGER WORKER STOP: ''
                    @ (if ts_stop_reason s = [] then ''finish was already accepted'' else ts_stop_reason s)
                    @ ''. Stop submitting proof intents and return your concise PROVER REPORT.'') s
                in (cache_response key r s, r))
          else if ts_max_turns s \<le> ts_turn_index s
          then (let r = stop_response (''MANAGER WORKER STOP: turn limit reached before proof ''
                    @ ''completion. Produce a concise PROVER REPORT and stop.'') s;
                    s1 = s\<lparr>ts_stop_requested := True, ts_stop_admission := True,
                           ts_stop_reason := ''turn limit reached''\<rparr>
                in (cache_response key r s1, r))
          else if deadline \<le> sv_clock sv
          then (let (s1, r) = unhealthy_response
                      ''proof-tool request deadline expired before the manager turn began'' False s
                in (cache_response key r s1, r))
          else monitored (serve_turn key deadline sv) s)"

definition submit :: "str \<Rightarrow> deadline_value \<Rightarrow> serving \<Rightarrow> session \<Rightarrow> session_error + (session \<times> session_response)" where
  "submit call_id absolute sv s =
     (let key = py_strip call_id in
      if key = [] then Inl (SessionValueError ''proof-tool call requires a non-empty call id'')
      else case absolute_deadline absolute of
             Inl e \<Rightarrow> Inl e
           | Inr deadline \<Rightarrow> Inr (submit_locked key deadline sv s))"

section \<open>Interleavings\<close>

inductive session_step :: "session \<Rightarrow> session \<Rightarrow> bool" where
  submitted: "submit call_id absolute sv s = Inr (s', r) \<Longrightarrow> session_step s s'"
| admission_closed: "session_step s (close_admission s)"
| drained: "session_step s (fst (drain_stop reason s))"

text \<open>The number of times the manager was called.\<close>

definition manager_calls :: "session \<Rightarrow> nat" where
  "manager_calls s = length (filter (\<lambda>c. c \<noteq> Turn_Finished) (ts_monitor s))"

section \<open>Effects of one call\<close>

lemmas serve_defs = serve_turn_def serve_failed_def unhealthy_response_def current_unhealthy_response_def
  cache_response_def emit_completed_turn_def apply_directive_def Let_def

definition response_ok :: "session_response \<Rightarrow> bool" where
  "response_ok r \<longleftrightarrow> sr_exit_code r = (if sr_directive r = NODE_UNHEALTHY then 2 else 0)"

lemma serve_turn_frame:
  assumes "serve_turn key d sv s = (s', r)"
  shows "ts_entries s' = dict_set key r (ts_entries s)" "ts_monitor s' = ts_monitor s"
    "ts_max_turns s' = ts_max_turns s" "response_ok r"
  using assms
  by (auto simp: serve_defs response_ok_def split: handler_answer.splits option.splits renderer_answer.splits
      turn_directive.splits if_splits)

text \<open>A call completes a turn, or it fails before one and the session is unhealthy.\<close>

lemma serve_turn_outcome:
  assumes "serve_turn key d sv s = (s', r)"
  shows "ts_turn_index s' = Suc (ts_turn_index s) \<and> ts_emitted s' = ts_emitted s @ [Suc (ts_turn_index s)]
    \<or> ts_turn_index s' = ts_turn_index s \<and> ts_emitted s' = ts_emitted s \<and> ts_unhealthy_reason s' \<noteq> []"
  using assms
  by (auto simp: serve_defs split: handler_answer.splits option.splits renderer_answer.splits
      turn_directive.splits if_splits)

lemma monitored_frame:
  assumes "monitored (serve_turn key d sv) s = (s', r)"
  shows "ts_entries s' = dict_set key r (ts_entries s)"
    "ts_monitor s' = ts_monitor s @ [Turn_Started (Suc (ts_turn_index s)), Turn_Finished]"
    "ts_max_turns s' = ts_max_turns s" "response_ok r"
    "ts_turn_index s' = Suc (ts_turn_index s) \<and> ts_emitted s' = ts_emitted s @ [Suc (ts_turn_index s)]
     \<or> ts_turn_index s' = ts_turn_index s \<and> ts_emitted s' = ts_emitted s \<and> ts_unhealthy_reason s' \<noteq> []"
proof -
  let ?s = "s\<lparr>ts_monitor := ts_monitor s @ [Turn_Started (Suc (ts_turn_index s))]\<rparr>"
  obtain s1 where t: "serve_turn key d sv ?s = (s1, r)" "s' = s1\<lparr>ts_monitor := ts_monitor s1 @ [Turn_Finished]\<rparr>"
    using assms by (auto simp: monitored_def Let_def split: prod.splits)
  note f = serve_turn_frame [OF t(1)] serve_turn_outcome [OF t(1)]
  show "ts_entries s' = dict_set key r (ts_entries s)"
    "ts_monitor s' = ts_monitor s @ [Turn_Started (Suc (ts_turn_index s)), Turn_Finished]"
    "ts_max_turns s' = ts_max_turns s" "response_ok r"
    "ts_turn_index s' = Suc (ts_turn_index s) \<and> ts_emitted s' = ts_emitted s @ [Suc (ts_turn_index s)]
     \<or> ts_turn_index s' = ts_turn_index s \<and> ts_emitted s' = ts_emitted s \<and> ts_unhealthy_reason s' \<noteq> []"
    using f by (simp_all add: t(2))
qed

text \<open>When the manager is called.\<close>

definition serves :: "str \<Rightarrow> rat \<Rightarrow> serving \<Rightarrow> session \<Rightarrow> bool" where
  "serves key d sv s \<longleftrightarrow>
     dict_get (ts_entries s) key = None \<and> ts_unhealthy_reason s = []
     \<and> \<not> ts_stop_admission s \<and> \<not> ts_stop_requested s
     \<and> ts_turn_index s < ts_max_turns s \<and> sv_clock sv < d"

lemma submit_serves: "serves key d sv s \<Longrightarrow> submit_locked key d sv s = monitored (serve_turn key d sv) s"
  by (simp add: submit_locked_def serves_def)

text \<open>What a call that does not reach the manager leaves alone.\<close>

definition same_work :: "session \<Rightarrow> session \<Rightarrow> bool" where
  "same_work s s' \<longleftrightarrow> ts_turn_index s' = ts_turn_index s \<and> ts_emitted s' = ts_emitted s
     \<and> ts_monitor s' = ts_monitor s \<and> ts_last_committed_tactics s' = ts_last_committed_tactics s
     \<and> ts_max_turns s' = ts_max_turns s"

lemma submit_not_serves:
  assumes "\<not> serves key d sv s" "submit_locked key d sv s = (s', r)"
  shows "same_work s s'" "(ts_stop_admission s \<longrightarrow> ts_stop_admission s')"
    "(ts_unhealthy_reason s \<noteq> [] \<longrightarrow> ts_unhealthy_reason s' = ts_unhealthy_reason s)"
    "dict_get (ts_entries s) key \<noteq> None \<or> ts_entries s' = dict_set key r (ts_entries s)"
  using assms
  by (auto simp: submit_locked_def serves_def same_work_def serve_defs stop_response_def
      split: option.splits if_splits)

lemma submit_response:
  assumes "submit_locked key d sv s = (s', r)"
  shows "dict_get (ts_entries s) key = Some prior \<and> (ts_unhealthy_reason s = [] \<or> sr_directive prior = NODE_UNHEALTHY)
      \<Longrightarrow> r = prior \<and> s' = s"
    and "dict_get (ts_entries s) key = Some prior \<Longrightarrow> ts_unhealthy_reason s \<noteq> [] \<Longrightarrow>
      sr_directive prior \<noteq> NODE_UNHEALTHY \<Longrightarrow>
      r = current_unhealthy_response False s \<and> s' = cache_response key r s"
    and "dict_get (ts_entries s) key = None \<Longrightarrow> ts_unhealthy_reason s \<noteq> [] \<Longrightarrow>
      r = current_unhealthy_response False s \<and> s' = cache_response key r s"
  using assms by (auto simp: submit_locked_def Let_def split: if_splits)

lemma submit_cached:
  assumes "submit_locked key d sv s = (s', r)"
  shows "dict_get (ts_entries s') key = Some r"
proof (cases "serves key d sv s")
  case True
  with assms submit_serves [OF True] monitored_frame(1) [of key d sv s s' r] show ?thesis
    by (simp add: dict_get_set)
next
  case False
  with assms show ?thesis
    by (auto simp: submit_locked_def serves_def serve_defs stop_response_def dict_get_set
        split: option.splits if_splits)
qed

lemma submit_other_key:
  assumes "submit_locked key d sv s = (s', r)" "k \<noteq> key"
  shows "dict_get (ts_entries s') k = dict_get (ts_entries s) k"
proof (cases "serves key d sv s")
  case True
  with assms submit_serves [OF True] monitored_frame(1) [of key d sv s s' r] show ?thesis
    by (simp add: dict_get_set)
next
  case False
  with assms show ?thesis
    by (auto simp: submit_locked_def serves_def serve_defs stop_response_def dict_get_set
        split: option.splits if_splits)
qed

lemma submit_unfold:
  "submit call_id absolute sv s = Inr (s', r) \<longleftrightarrow>
     (\<exists>d. py_strip call_id \<noteq> [] \<and> absolute_deadline absolute = Inr d \<and> submit_locked (py_strip call_id) d sv s = (s', r))"
  by (auto simp: submit_def Let_def split: sum.splits)

text \<open>The responses a session returns and caches carry the exit code of their directive.\<close>

lemma submit_response_ok:
  assumes "submit_locked key d sv s = (s', r)" "\<forall>k e. dict_get (ts_entries s) k = Some e \<longrightarrow> response_ok e"
  shows "response_ok r"
proof (cases "serves key d sv s")
  case True
  with assms(1) submit_serves [OF True] monitored_frame(4) [of key d sv s s' r] show ?thesis by simp
next
  case False
  with assms show ?thesis
    by (auto simp: submit_locked_def serves_def serve_defs stop_response_def response_ok_def
        split: option.splits if_splits)
qed

section \<open>The invariant of a session\<close>

text \<open>One started/finished pair per manager call, in the order of the turns.\<close>

definition paired :: "nat list \<Rightarrow> monitor_call list" where
  "paired ns = concat (map (\<lambda>n. [Turn_Started n, Turn_Finished]) ns)"

definition session_inv :: "session \<Rightarrow> bool" where
  "session_inv s \<longleftrightarrow>
     ts_turn_index s \<le> ts_max_turns s
     \<and> ts_emitted s = [1..<Suc (ts_turn_index s)]
     \<and> (ts_monitor s = paired [1..<Suc (ts_turn_index s)]
        \<or> ts_unhealthy_reason s \<noteq> [] \<and> ts_turn_index s < ts_max_turns s
          \<and> ts_monitor s = paired [1..<Suc (Suc (ts_turn_index s))])
     \<and> (\<forall>k e. dict_get (ts_entries s) k = Some e \<longrightarrow> response_ok e)"

lemma paired_snoc: "paired (ns @ [n]) = paired ns @ [Turn_Started n, Turn_Finished]"
  by (simp add: paired_def)

lemma paired_calls: "length (filter (\<lambda>c. c \<noteq> Turn_Finished) (paired ns)) = length ns"
  by (induction ns) (auto simp: paired_def)

lemma upt_snoc: "[1..<Suc (Suc n)] = [1..<Suc n] @ [Suc n]"
  by (simp add: upt_Suc)

lemma inv_submit:
  assumes inv: "session_inv s" and sub: "submit_locked key d sv s = (s', r)"
  shows "session_inv s'"
proof -
  have ok: "response_ok r" using submit_response_ok [OF sub] inv by (simp add: session_inv_def)
  have entries: "response_ok e" if "dict_get (ts_entries s') k = Some e" for k e
    using that inv ok submit_cached [OF sub] submit_other_key [OF sub, of k]
    by (cases "k = key") (auto simp: session_inv_def)
  show ?thesis
  proof (cases "serves key d sv s")
    case True
    then have m: "monitored (serve_turn key d sv) s = (s', r)" using sub submit_serves by simp
    note f = monitored_frame [OF m]
    have idx: "ts_turn_index s < ts_max_turns s" "ts_unhealthy_reason s = []" using True by (auto simp: serves_def)
    then have mon: "ts_monitor s' = paired [1..<Suc (Suc (ts_turn_index s))]"
      using inv f(2) by (auto simp: session_inv_def upt_snoc paired_snoc)
    from f(5) show ?thesis
    proof
      assume "ts_turn_index s' = Suc (ts_turn_index s) \<and> ts_emitted s' = ts_emitted s @ [Suc (ts_turn_index s)]"
      then show ?thesis using inv idx f(3) mon entries by (auto simp: session_inv_def upt_snoc)
    next
      assume "ts_turn_index s' = ts_turn_index s \<and> ts_emitted s' = ts_emitted s \<and> ts_unhealthy_reason s' \<noteq> []"
      then show ?thesis using inv idx f(3) mon entries by (auto simp: session_inv_def)
    qed
  next
    case False
    note n = submit_not_serves [OF False sub]
    have "ts_unhealthy_reason s \<noteq> [] \<Longrightarrow> ts_unhealthy_reason s' \<noteq> []" using n(3) by simp
    with n(1) inv entries show ?thesis by (auto simp: session_inv_def same_work_def)
  qed
qed

lemma inv_step: "session_step s s' \<Longrightarrow> session_inv s \<Longrightarrow> session_inv s'"
  by (induction rule: session_step.induct)
     (auto simp: submit_unfold inv_submit, auto simp: session_inv_def close_admission_def drain_stop_def Let_def)

lemma inv_run: "session_step\<^sup>*\<^sup>* s s' \<Longrightarrow> session_inv s \<Longrightarrow> session_inv s'"
  by (induction rule: rtranclp_induct) (auto intro: inv_step)

lemma inv_new: "new_session node m init = Inr s \<Longrightarrow> session_inv s \<and> ts_max_turns s = nat (max 1 m)"
  by (auto simp: new_session_def session_inv_def paired_def dict_get_def split: if_splits)

lemma step_max: "session_step s s' \<Longrightarrow> ts_max_turns s' = ts_max_turns s"
proof (induction rule: session_step.induct)
  case (submitted call_id absolute sv s s' r)
  then obtain d where sub: "submit_locked (py_strip call_id) d sv s = (s', r)" by (auto simp: submit_unfold)
  show ?case
  proof (cases "serves (py_strip call_id) d sv s")
    case True
    with sub monitored_frame(3) submit_serves show ?thesis by simp
  next
    case False
    from submit_not_serves(1) [OF this sub] show ?thesis by (simp add: same_work_def)
  qed
qed (auto simp: close_admission_def drain_stop_def Let_def)

lemma run_max: "session_step\<^sup>*\<^sup>* s s' \<Longrightarrow> ts_max_turns s' = ts_max_turns s"
  by (induction rule: rtranclp_induct) (auto dest: step_max)

section \<open>Stopped and unhealthy sessions\<close>

definition frozen :: "session \<Rightarrow> bool" where
  "frozen s \<longleftrightarrow> ts_stop_admission s \<or> ts_unhealthy_reason s \<noteq> []"

lemma same_work_refl: "same_work s s"
  by (simp add: same_work_def)

lemma same_work_trans: "same_work s s' \<Longrightarrow> same_work s' s'' \<Longrightarrow> same_work s s''"
  by (simp add: same_work_def)

lemma frozen_step:
  assumes "session_step s s'" "frozen s"
  shows "frozen s' \<and> same_work s s'
    \<and> (ts_unhealthy_reason s \<noteq> [] \<longrightarrow> ts_unhealthy_reason s' = ts_unhealthy_reason s)"
  using assms
proof (induction rule: session_step.induct)
  case (submitted call_id absolute sv s s' r)
  then obtain d where sub: "submit_locked (py_strip call_id) d sv s = (s', r)" by (auto simp: submit_unfold)
  have "\<not> serves (py_strip call_id) d sv s" using submitted(2) by (auto simp: serves_def frozen_def)
  from submit_not_serves [OF this sub] submitted(2) show ?case by (auto simp: frozen_def)
qed (auto simp: frozen_def same_work_def close_admission_def drain_stop_def Let_def)

lemma frozen_run:
  assumes "session_step\<^sup>*\<^sup>* s s'" "frozen s"
  shows "frozen s' \<and> same_work s s'
    \<and> (ts_unhealthy_reason s \<noteq> [] \<longrightarrow> ts_unhealthy_reason s' = ts_unhealthy_reason s)"
  using assms
proof (induction rule: rtranclp_induct)
  case (step s1 s2)
  then show ?case using frozen_step [of s1 s2] same_work_trans [of s s1 s2] by auto
qed (simp add: same_work_refl)

text \<open>The cached response of a call: the one it was given, or the unhealthy response that replaced
  it.\<close>

definition remembers :: "str \<Rightarrow> session_response \<Rightarrow> session \<Rightarrow> bool" where
  "remembers key r s \<longleftrightarrow>
     dict_get (ts_entries s) key = Some r
     \<or> ts_unhealthy_reason s \<noteq> [] \<and> sr_directive r \<noteq> NODE_UNHEALTHY
       \<and> dict_get (ts_entries s) key = Some (current_unhealthy_response False s)"

lemma unhealthy_response_frame:
  "same_work s s' \<Longrightarrow> ts_unhealthy_reason s' = ts_unhealthy_reason s \<Longrightarrow>
     current_unhealthy_response c s' = current_unhealthy_response c s"
  by (simp add: current_unhealthy_response_def same_work_def)

lemma submit_replays:
  assumes mem: "remembers key r s" and sub: "submit_locked key d sv s = (s', r')"
  shows "r' = (if ts_unhealthy_reason s = [] \<or> sr_directive r = NODE_UNHEALTHY then r
      else current_unhealthy_response False s)"
    and "same_work s s' \<and> ts_unhealthy_reason s' = ts_unhealthy_reason s \<and> remembers key r s'"
proof -
  from mem obtain e where e: "dict_get (ts_entries s) key = Some e"
    "e = r \<or> ts_unhealthy_reason s \<noteq> [] \<and> sr_directive r \<noteq> NODE_UNHEALTHY \<and> e = current_unhealthy_response False s"
    by (auto simp: remembers_def)
  have d: "sr_directive (current_unhealthy_response False s) = NODE_UNHEALTHY"
    by (simp add: current_unhealthy_response_def)
  have alt: "(r' = e \<and> s' = s) \<or> (ts_unhealthy_reason s \<noteq> [] \<and> sr_directive e \<noteq> NODE_UNHEALTHY
      \<and> r' = current_unhealthy_response False s \<and> s' = cache_response key r' s)"
    using submit_response(1,2) [OF sub, of e] e(1) by blast
  then show "r' = (if ts_unhealthy_reason s = [] \<or> sr_directive r = NODE_UNHEALTHY then r
      else current_unhealthy_response False s)"
    using e d sub by (auto simp: submit_locked_def Let_def split: if_splits)
  from alt show "same_work s s' \<and> ts_unhealthy_reason s' = ts_unhealthy_reason s \<and> remembers key r s'"
  proof
    assume "r' = e \<and> s' = s"
    then show ?thesis using mem by (simp add: same_work_refl)
  next
    assume a: "ts_unhealthy_reason s \<noteq> [] \<and> sr_directive e \<noteq> NODE_UNHEALTHY
      \<and> r' = current_unhealthy_response False s \<and> s' = cache_response key r' s"
    then have "e = r" using e d by auto
    with a show ?thesis
      by (auto simp: cache_response_def same_work_def remembers_def dict_get_set current_unhealthy_response_def)
  qed
qed

lemma remembers_step:
  assumes "session_step s s'" "remembers key r s"
  shows "remembers key r s'"
  using assms
proof (induction rule: session_step.induct)
  case (submitted call_id absolute sv s s' r')
  then obtain d where sub: "submit_locked (py_strip call_id) d sv s = (s', r')" by (auto simp: submit_unfold)
  show ?case
  proof (cases "py_strip call_id = key")
    case True
    with submit_replays(2) [of key r s d sv s' r'] sub submitted(2) show ?thesis by blast
  next
    case False
    then have other: "dict_get (ts_entries s') key = dict_get (ts_entries s) key"
      using submit_other_key [OF sub] by simp
    show ?thesis
    proof (cases "ts_unhealthy_reason s = []")
      case True
      with submitted(2) other show ?thesis by (simp add: remembers_def)
    next
      case False
      then have "\<not> serves (py_strip call_id) d sv s" by (simp add: serves_def)
      from submit_not_serves [OF this sub] False other submitted(2) show ?thesis
        by (auto simp: remembers_def unhealthy_response_frame)
    qed
  qed
qed (auto simp: remembers_def close_admission_def drain_stop_def Let_def current_unhealthy_response_def)

lemma remembers_run: "session_step\<^sup>*\<^sup>* s s' \<Longrightarrow> remembers key r s \<Longrightarrow> remembers key r s'"
  by (induction rule: rtranclp_induct) (auto intro: remembers_step)

text \<open>A handler that returns something other than a turn still counts as a completed turn, and its
  failure is reported for the phase after the manager.\<close>

lemma non_turn_counts_as_turn:
  assumes "sv_turn sv = Not_A_Turn" "serve_turn key d sv s = (s', r)"
  shows "ts_turn_index s' = Suc (ts_turn_index s)" "sr_manager_turn_completed r"
  using assms by (auto simp: serve_defs)

section \<open>Properties\<close>

text \<open>C19. Calls are idempotent. When a call id was answered and is submitted again, after any
  interleaving of other submissions and stop requests, with any arguments, deadline and
  collaborators: the answer is the first answer, except that once the session has become
  unhealthy a former success is replaced by the unhealthy answer; and the repeated call neither
  reaches the manager nor changes the turn count, the committed tactics or the emitted events.\<close>
theorem submit_idempotent:
  assumes "submit call_id absolute sv s = Inr (s1, r1)" and "session_step\<^sup>*\<^sup>* s1 s2"
    and "submit call_id absolute' sv' s2 = Inr (s3, r2)"
  shows "r2 = (if ts_unhealthy_reason s2 = [] \<or> sr_directive r1 = NODE_UNHEALTHY then r1
      else current_unhealthy_response False s2)
    \<and> same_work s2 s3"
proof -
  let ?key = "py_strip call_id"
  from assms(1,3) obtain d d' where sub: "submit_locked ?key d sv s = (s1, r1)" "submit_locked ?key d' sv' s2 = (s3, r2)"
    by (auto simp: submit_unfold)
  have "remembers ?key r1 s1" using submit_cached [OF sub(1)] by (simp add: remembers_def)
  then have "remembers ?key r1 s2" using remembers_run [OF assms(2)] by blast
  from submit_replays [OF this sub(2)] show ?thesis by simp
qed

definition sample_serving :: serving where
  "sample_serving = \<lparr>sv_clock = 1, sv_turn = Turn \<lparr>mt_directive = CONTINUE, mt_committed_tactics = [''wp.''],
     mt_health_event = None\<rparr>, sv_clock_after = 2, sv_memory_raised = None, sv_rendered = Text ''ok''\<rparr>"

definition sample_session :: session where
  "sample_session = \<lparr>ts_max_turns = 1, ts_stop_admission = False, ts_turn_index = 0,
     ts_last_committed_tactics = [], ts_stop_requested = False, ts_stop_reason = [],
     ts_unhealthy_reason = [], ts_entries = [], ts_monitor = [], ts_emitted = []\<rparr>"

lemma sample_call:
  "\<exists>s1 r1. submit ''c'' (Finite 5) sample_serving sample_session = Inr (s1, r1)
     \<and> sr_text r1 = ''ok'' \<and> ts_turn_index s1 = 1 \<and> ts_unhealthy_reason s1 = []"
proof -
  have "py_strip ''c'' = ''c''" by code_simp
  then show ?thesis
    by (simp add: submit_def absolute_deadline_def submit_locked_def sample_session_def sample_serving_def
        dict_get_def monitored_def serve_defs)
qed

theorem submit_idempotent_witness:
  "\<exists>s1 r1 s3 r2. submit ''c'' (Finite 5) sample_serving sample_session = Inr (s1, r1)
     \<and> submit ''c'' (Finite 9) (sample_serving\<lparr>sv_rendered := Not_Text\<rparr>) s1 = Inr (s3, r2) \<and> r2 = r1"
proof -
  from sample_call obtain s1 r1 where c: "submit ''c'' (Finite 5) sample_serving sample_session = Inr (s1, r1)"
    "ts_unhealthy_reason s1 = []" by blast
  have "py_strip ''c'' \<noteq> []" by code_simp
  then obtain s3 r2 where c2: "submit ''c'' (Finite 9) (sample_serving\<lparr>sv_rendered := Not_Text\<rparr>) s1 = Inr (s3, r2)"
    by (cases "submit_locked (py_strip ''c'') 9 (sample_serving\<lparr>sv_rendered := Not_Text\<rparr>) s1")
       (auto simp: submit_def absolute_deadline_def)
  from submit_idempotent [OF c(1) rtranclp.rtrancl_refl c2] c c2 show ?thesis by auto
qed

text \<open>C21. The turn budget. In every reachable state of a session the manager was called at most
  \<^verbatim>\<open>max_turns\<close> times (at least one turn is always allowed), each call is bracketed by one
  started and one finished notification with consecutive turn numbers, every completed turn was
  emitted exactly once and in order, and every cached answer has the exit code of its directive.\<close>
theorem turn_budget_respected:
  assumes "new_session node_id max_turns initial = Inr s0" and "session_step\<^sup>*\<^sup>* s0 s"
  shows "manager_calls s \<le> nat (max 1 max_turns) \<and> ts_turn_index s \<le> manager_calls s
    \<and> manager_calls s \<le> Suc (ts_turn_index s) \<and> ts_monitor s = paired [1..<Suc (manager_calls s)]
    \<and> ts_emitted s = [1..<Suc (ts_turn_index s)]
    \<and> (\<forall>k r. dict_get (ts_entries s) k = Some r \<longrightarrow> response_ok r)"
proof -
  from inv_new [OF assms(1)] have i0: "session_inv s0" "ts_max_turns s0 = nat (max 1 max_turns)" by auto
  have inv: "session_inv s" using inv_run [OF assms(2) i0(1)] .
  have m: "ts_max_turns s = nat (max 1 max_turns)" using run_max [OF assms(2)] i0(2) by simp
  from inv consider
      "ts_monitor s = paired [1..<Suc (ts_turn_index s)]"
    | "ts_turn_index s < ts_max_turns s" "ts_monitor s = paired [1..<Suc (Suc (ts_turn_index s))]"
    by (auto simp: session_inv_def)
  then show ?thesis
  proof cases
    case 1
    then have "manager_calls s = ts_turn_index s" by (simp only: manager_calls_def paired_calls length_upt)
    with 1 inv m show ?thesis by (simp add: session_inv_def)
  next
    case 2
    then have "manager_calls s = Suc (ts_turn_index s)" by (simp only: manager_calls_def paired_calls length_upt)
    with 2 inv m show ?thesis by (simp add: session_inv_def)
  qed
qed

theorem turn_budget_respected_witness:
  "\<exists>s0. new_session ''n'' 1 [] = Inr s0 \<and> manager_calls s0 \<le> nat (max 1 1)"
proof -
  have "py_strip ''n'' \<noteq> []" by code_simp
  then obtain s0 where s0: "new_session ''n'' 1 [] = Inr s0" by (simp add: new_session_def)
  from turn_budget_respected [OF s0 rtranclp.rtrancl_refl] s0 show ?thesis by blast
qed

text \<open>C20. Stop and failure are final. Once admission is closed, or once the session is unhealthy, no
  interleaving of submissions and stop requests reaches the manager again: the turn count and the
  committed tactics stay as they are, so the boundary a stop request returns is the state the
  session keeps for good; an unhealthy session keeps its reason and answers every call with an
  error.\<close>
theorem stop_boundary_final:
  assumes "ts_stop_admission s \<or> ts_unhealthy_reason s \<noteq> []" and "session_step\<^sup>*\<^sup>* s s1"
    and "drain_stop reason s1 = (s2, boundary)" and "session_step\<^sup>*\<^sup>* s2 s3"
  shows "sb_turn_index boundary = ts_turn_index s \<and> sb_committed_tactics boundary = ts_last_committed_tactics s
    \<and> manager_calls s3 = manager_calls s \<and> ts_turn_index s3 = ts_turn_index s
    \<and> ts_last_committed_tactics s3 = ts_last_committed_tactics s
    \<and> (ts_unhealthy_reason s \<noteq> [] \<longrightarrow> ts_unhealthy_reason s3 = ts_unhealthy_reason s
        \<and> (session_inv s \<longrightarrow> submit call_id absolute sv s3 = Inr (s4, r) \<longrightarrow> is_error r))"
proof -
  have f: "frozen s" using assms(1) by (simp add: frozen_def)
  have st: "session_step s1 s2" using session_step.drained [of s1 reason] assms(3) by simp
  have run: "session_step\<^sup>*\<^sup>* s s3" using assms(2,4) st by (meson converse_rtranclp_into_rtranclp rtranclp_trans)
  note f1 = frozen_run [OF assms(2) f] and f3 = frozen_run [OF run f]
  have err: "is_error r" if u: "ts_unhealthy_reason s \<noteq> []" and i: "session_inv s"
    and sub: "submit call_id absolute sv s3 = Inr (s4, r)"
  proof -
    from sub obtain d where sl: "submit_locked (py_strip call_id) d sv s3 = (s4, r)" by (auto simp: submit_unfold)
    have u3: "ts_unhealthy_reason s3 \<noteq> []" using f3 u by simp
    have "response_ok r"
      using submit_response_ok [OF sl] inv_run [OF run i] by (simp add: session_inv_def)
    moreover have "sr_directive r = NODE_UNHEALTHY"
      using u3 sl by (auto simp: submit_locked_def Let_def current_unhealthy_response_def split: option.splits if_splits)
    ultimately show ?thesis by (simp add: response_ok_def is_error_def)
  qed
  have "boundary = \<lparr>sb_turn_index = ts_turn_index s1, sb_committed_tactics = ts_last_committed_tactics s1,
      sb_reason = ts_stop_reason s2\<rparr>"
    using assms(3) by (auto simp: drain_stop_def Let_def split: if_splits)
  with f1 f3 err show ?thesis by (simp add: same_work_def manager_calls_def)
qed

theorem stop_boundary_final_witness:
  "\<exists>s2 b. drain_stop ''timeout'' (close_admission sample_session) = (s2, b)
     \<and> sb_committed_tactics b = [] \<and> manager_calls s2 = 0"
proof -
  obtain s2 b where d: "drain_stop ''timeout'' (close_admission sample_session) = (s2, b)"
    by (cases "drain_stop ''timeout'' (close_admission sample_session)")
  have "ts_stop_admission (close_admission sample_session) \<or> ts_unhealthy_reason (close_admission sample_session) \<noteq> []"
    by (simp add: close_admission_def)
  from stop_boundary_final [OF this rtranclp.rtrancl_refl d rtranclp.rtrancl_refl] d show ?thesis
    by (auto simp: close_admission_def sample_session_def manager_calls_def)
qed

end
