(* ===== verification/Committed_History.thy ===== *)
theory Committed_History
  imports Lemma_Decls Py_Json
begin

text \<open>
  \<open>core/easycrypt/committed_history.py\<close>, the reader of a session's committed proof history, with
  the lifecycle vocabulary of \<open>core/easycrypt/proof_lifecycle.py\<close> and the one-line proof
  recognizer of \<open>core/easycrypt/proof_syntax.py\<close>. A file is given by its text, with \<open>None\<close> for a
  missing or unreadable one; the SHA-256 digest is an argument.
\<close>

section \<open>Lifecycle vocabulary\<close>

definition OPEN :: str where "OPEN = ''open''"
definition ERROR :: str where "ERROR = ''error''"
definition UNKNOWN :: str where "UNKNOWN = ''unknown''"
definition NO_CURRENT :: str where "NO_CURRENT = ''no_current''"
definition CLOSED_UNTRUSTED :: str where "CLOSED_UNTRUSTED = ''closed_untrusted''"
definition GOALS_DISCHARGED_PENDING_QED :: str where
  "GOALS_DISCHARGED_PENDING_QED = ''goals_discharged_pending_qed''"
definition SESSION_CLOSED_PENDING_VERIFICATION :: str where
  "SESSION_CLOSED_PENDING_VERIFICATION = ''session_closed_pending_verification''"
definition VERIFIED_STATUS :: str where "VERIFIED_STATUS = ''verified''"

definition GOAL_IDENTITY_FREE_STATUSES :: "str list" where
  "GOAL_IDENTITY_FREE_STATUSES =
     [CLOSED_UNTRUSTED, GOALS_DISCHARGED_PENDING_QED, SESSION_CLOSED_PENDING_VERIFICATION, VERIFIED_STATUS]"

definition allows_qed :: "str \<Rightarrow> bool" where
  "allows_qed status \<longleftrightarrow> status = GOALS_DISCHARGED_PENDING_QED"

definition requires_qed_before_finish :: "str \<Rightarrow> bool" where
  "requires_qed_before_finish status \<longleftrightarrow> status = GOALS_DISCHARGED_PENDING_QED"

definition is_session_completion_candidate :: "str \<Rightarrow> bool" where
  "is_session_completion_candidate status \<longleftrightarrow>
     status \<in> set [SESSION_CLOSED_PENDING_VERIFICATION, VERIFIED_STATUS]"

definition has_discharged_goals :: "str \<Rightarrow> bool" where
  "has_discharged_goals status \<longleftrightarrow>
     status \<in> set [GOALS_DISCHARGED_PENDING_QED, SESSION_CLOSED_PENDING_VERIFICATION, VERIFIED_STATUS]"

definition is_verified :: "str \<Rightarrow> bool" where
  "is_verified status \<longleftrightarrow> status = VERIFIED_STATUS"

section \<open>One-line proofs\<close>

definition ident_char :: "char \<Rightarrow> bool" where
  "ident_char c \<longleftrightarrow> is_alpha c \<or> is_digit c \<or> c = CHR ''_'' \<or> c = quote_char"

definition PROOF_MARKER_RE :: re where
  "PROOF_MARKER_RE = Seq (NotBehind ident_char) (Lit ''proof.'')"

definition QED_MARKER_RE :: re where
  "QED_MARKER_RE = Seq (NotBehind ident_char) (Lit ''qed.'')"

record inline_span =
  ip_proof_start :: nat
  ip_proof_end :: nat
  ip_qed_start :: nat
  ip_qed_end :: nat

definition open_line :: "inline_span \<Rightarrow> str \<Rightarrow> str" where
  "open_line p source =
     py_rstrip (take (ip_proof_end p) source) @ (if ends_with [newline] source then [newline] else [])"

definition inline_proof :: "str \<Rightarrow> str option \<Rightarrow> inline_span option" where
  "inline_proof source masked_source =
     (let masked = (case masked_source of None \<Rightarrow> strip_comments source | Some t \<Rightarrow> t) in
      case re_search PROOF_MARKER_RE masked 0 of
        None \<Rightarrow> None
      | Some (a, b, _) \<Rightarrow>
          (case re_search QED_MARKER_RE masked b of
             None \<Rightarrow> None
           | Some (c, d, _) \<Rightarrow>
               Some \<lparr>ip_proof_start = a, ip_proof_end = b, ip_qed_start = c, ip_qed_end = d\<rparr>))"

section \<open>Committed history\<close>

definition TRAILING_QED :: re where
  "TRAILING_QED = Seqs [NotBehind ident_char, LitI ''qed'', Spaces, Cls (\<lambda>c. c = dot), Spaces, Dollar]"

definition committed_prefix_identity :: "(str \<Rightarrow> str) \<Rightarrow> str list \<Rightarrow> str" where
  "committed_prefix_identity sha256 tactics = sha256 (json_dumps False (JList (map JStr tactics)))"

text \<open>\<open>line.rstrip(".")\<close>.\<close>

definition rstrip_dots :: "str \<Rightarrow> str" where
  "rstrip_dots t = rev (dropWhile (\<lambda>c. c = dot) (rev t))"

definition is_standalone_qed :: "str \<Rightarrow> bool" where
  "is_standalone_qed line \<longleftrightarrow> py_strip (rstrip_dots (py_lower line)) = ''qed''"

definition split_trailing_qed :: "str list \<Rightarrow> str list" where
  "split_trailing_qed tactics =
     (if tactics = [] then tactics
      else if is_standalone_qed (last tactics) then tactics
      else case re_search TRAILING_QED (last tactics) 0 of
             None \<Rightarrow> tactics
           | Some (start, _, _) \<Rightarrow>
               (let head = py_rstrip (take start (last tactics))
                in butlast tactics @ (if head = [] then [] else [head]) @ [''qed.'']))"

definition stripped_commands :: "str \<Rightarrow> str list" where
  "stripped_commands t = filter (\<lambda>c. c \<noteq> []) (map py_strip (split_ec_commands t))"

definition read_committed_commands :: "str option \<Rightarrow> str list" where
  "read_committed_commands history = (case history of None \<Rightarrow> [] | Some t \<Rightarrow> stripped_commands t)"

definition read_committed_tactics :: "str option \<Rightarrow> str list" where
  "read_committed_tactics history = read_committed_commands history"

definition flatten_committed_transactions :: "str list \<Rightarrow> str list" where
  "flatten_committed_transactions transactions = concat (map stripped_commands transactions)"

text \<open>\<open>steps.log\<close>: absent, present but unreadable, or its text.\<close>

datatype step_ledger = No_Ledger | Unreadable_Ledger | Ledger str

text \<open>\<open>[int(item.strip()) for item in raw_entries if item.strip()]\<close>; \<open>None\<close> when an item is no integer.\<close>

fun ledger_entries :: "str list \<Rightarrow> int list option" where
  "ledger_entries [] = Some []"
| "ledger_entries (item # items) =
     (if py_strip item = [] then ledger_entries items
      else case int_of_str (py_strip item) of
             None \<Rightarrow> None
           | Some n \<Rightarrow> map_option (Cons n) (ledger_entries items))"

text \<open>The loop that cuts the lines into blocks; \<open>None\<close> when a block is blank.\<close>

fun cut_blocks :: "nat list \<Rightarrow> str list \<Rightarrow> str list option" where
  "cut_blocks [] ls = Some []"
| "cut_blocks (count # counts) ls =
     (let block = py_strip (py_join [newline] (take count ls))
      in if block = [] then None else map_option (Cons block) (cut_blocks counts (drop count ls)))"

definition read_committed_transactions :: "str option \<Rightarrow> step_ledger \<Rightarrow> str list" where
  "read_committed_transactions history ledger =
     (case history of
        None \<Rightarrow> []
      | Some t \<Rightarrow>
          (let commands = read_committed_commands history in
           if commands = [] then []
           else case ledger of
             No_Ledger \<Rightarrow> commands
           | Unreadable_Ledger \<Rightarrow> []
           | Ledger steps \<Rightarrow>
               (case ledger_entries (py_splitlines steps) of
                  None \<Rightarrow> []
                | Some entries \<Rightarrow>
                    if entries = [] \<or> list_ex (\<lambda>n. n \<le> 0) entries then []
                    else if sum_list entries \<noteq> int (length (py_splitlines t)) then []
                    else case cut_blocks (map nat entries) (py_splitlines t) of
                           None \<Rightarrow> []
                         | Some transactions \<Rightarrow>
                             if flatten_committed_transactions transactions \<noteq> commands then []
                             else transactions)))"

definition committed_tactics_have_qed :: "str list \<Rightarrow> bool" where
  "committed_tactics_have_qed tactics = list_ex is_standalone_qed (split_trailing_qed tactics)"

definition committed_history_has_qed :: "str option \<Rightarrow> bool" where
  "committed_history_has_qed history = committed_tactics_have_qed (read_committed_tactics history)"

definition closed_history_tactics :: "str option \<Rightarrow> str list" where
  "closed_history_tactics history =
     (let tactics = split_trailing_qed (read_committed_tactics history)
      in if committed_tactics_have_qed tactics then tactics else [])"

section \<open>Closing sentences\<close>

lemma qed_standalone: "is_standalone_qed ''qed.''"
  by code_simp

lemma split_trailing_qed_cases:
  obtains "split_trailing_qed ts = ts" "ts = [] \<or> is_standalone_qed (last ts) \<or> re_search TRAILING_QED (last ts) 0 = None"
  | start e g where "ts \<noteq> []" "\<not> is_standalone_qed (last ts)" "re_search TRAILING_QED (last ts) 0 = Some (start, e, g)"
      "split_trailing_qed ts = butlast ts
         @ (if py_rstrip (take start (last ts)) = [] then [] else [py_rstrip (take start (last ts))]) @ [''qed.'']"
proof (cases "ts = [] \<or> is_standalone_qed (last ts)")
  case True
  then have "split_trailing_qed ts = ts" by (auto simp: split_trailing_qed_def Let_def)
  with True that(1) show ?thesis by blast
next
  case open_end: False
  show ?thesis
  proof (cases "re_search TRAILING_QED (last ts) 0")
    case None
    then have "split_trailing_qed ts = ts" by (auto simp: split_trailing_qed_def Let_def)
    with None that(1) show ?thesis by blast
  next
    case (Some hit)
    obtain start e g where hit: "hit = (start, e, g)" by (cases hit)
    show ?thesis
      by (rule that(2) [of start e g]) (use open_end Some hit in \<open>simp_all add: split_trailing_qed_def Let_def\<close>)
  qed
qed

lemma split_trailing_qed_idem: "split_trailing_qed (split_trailing_qed ts) = split_trailing_qed ts"
proof (cases rule: split_trailing_qed_cases [of ts])
  case 1
  then show ?thesis by simp
next
  case (2 start e g)
  then have "last (split_trailing_qed ts) = ''qed.''" "split_trailing_qed ts \<noteq> []" by auto
  then show ?thesis using qed_standalone by (simp add: split_trailing_qed_def [of "split_trailing_qed ts"])
qed

lemma have_qed_iff:
  "committed_tactics_have_qed ts \<longleftrightarrow>
     (\<exists>t \<in> set ts. is_standalone_qed t) \<or> ts \<noteq> [] \<and> re_search TRAILING_QED (last ts) 0 \<noteq> None"
proof (cases rule: split_trailing_qed_cases [of ts])
  case 1
  then show ?thesis by (auto simp: committed_tactics_have_qed_def list_ex_iff)
next
  case (2 start e g)
  then show ?thesis using qed_standalone by (auto simp: committed_tactics_have_qed_def list_ex_iff)
qed

section \<open>Blocks of a step ledger\<close>

text \<open>The lines of the \<open>k\<close>-th block when the blocks have the given sizes.\<close>

definition ledger_block :: "nat list \<Rightarrow> nat \<Rightarrow> str list \<Rightarrow> str list" where
  "ledger_block counts k ls = take (counts ! k) (drop (sum_list (take k counts)) ls)"

lemma cut_blocks_iff:
  "cut_blocks counts ls = Some bs \<longleftrightarrow>
     length bs = length counts
     \<and> (\<forall>k < length bs. bs ! k = py_strip (py_join [newline] (ledger_block counts k ls)) \<and> bs ! k \<noteq> [])"
proof (induction counts arbitrary: ls bs)
  case Nil
  then show ?case by auto
next
  case (Cons n counts)
  have block: "ledger_block (n # counts) (Suc k) ls = ledger_block counts k (drop n ls)" for k
    by (simp add: ledger_block_def add.commute)
  have first: "ledger_block (n # counts) 0 ls = take n ls" by (simp add: ledger_block_def)
  show ?case
  proof (cases bs)
    case Nil
    then show ?thesis by (auto simp: Let_def)
  next
    case (Cons b rest)
    have "cut_blocks (n # counts) ls = Some bs \<longleftrightarrow>
        b = py_strip (py_join [newline] (take n ls)) \<and> b \<noteq> [] \<and> cut_blocks counts (drop n ls) = Some rest"
      using Cons by (auto simp: Let_def)
    then show ?thesis
      unfolding Cons.IH Cons by (auto simp: All_less_Suc2 block first)
  qed
qed

lemma read_transactions_Ledger:
  "read_committed_transactions (Some t) (Ledger steps) = ts \<and> ts \<noteq> [] \<longleftrightarrow>
     ts \<noteq> [] \<and> flatten_committed_transactions ts = read_committed_commands (Some t)
     \<and> read_committed_commands (Some t) \<noteq> []
     \<and> (\<exists>entries. ledger_entries (py_splitlines steps) = Some entries \<and> entries \<noteq> []
          \<and> (\<forall>n \<in> set entries. 0 < n) \<and> sum_list entries = int (length (py_splitlines t))
          \<and> cut_blocks (map nat entries) (py_splitlines t) = Some ts)"
  unfolding read_committed_transactions_def
  by (auto simp: Let_def list_ex_iff not_le split: option.splits if_splits)

section \<open>The encoding of a command list is uniquely decodable\<close>

lemma hex_digit_inj: "hex_digit m = hex_digit n \<Longrightarrow> m < 16 \<Longrightarrow> n < 16 \<Longrightarrow> m = n"
proof -
  have o: "k < 16 \<Longrightarrow> py_ord (hex_digit k) = (if k < 10 then 48 + k else 87 + k)" for k
    by (simp add: hex_digit_def)
  assume eq: "hex_digit m = hex_digit n" and m: "m < 16" and n: "n < 16"
  have "py_ord (hex_digit m) = py_ord (hex_digit n)" by (simp only: eq)
  then have "(if m < 10 then 48 + m else 87 + m) = (if n < 10 then 48 + n else 87 + n)"
    by (simp only: o [OF m] o [OF n])
  then show "m = n" by presburger
qed

lemma json_char_ne [simp]: "json_char c \<noteq> []" "hd (json_char c) \<noteq> CHR 0x22"
  by (auto simp: json_char_def)

lemma hex_pair_inj:
  assumes "py_ord c < 32" "py_ord d < 32"
    and "hex_digit (py_ord c div 16) = hex_digit (py_ord d div 16)"
    and "hex_digit (py_ord c mod 16) = hex_digit (py_ord d mod 16)"
  shows "c = d"
proof -
  have "py_ord c div 16 = py_ord d div 16" by (rule hex_digit_inj) (use assms in simp_all)
  moreover have "py_ord c mod 16 = py_ord d mod 16" by (rule hex_digit_inj) (use assms in simp_all)
  ultimately have "py_ord c div 16 * 16 + py_ord c mod 16 = py_ord d div 16 * 16 + py_ord d mod 16"
    by (simp only:)
  then show ?thesis by (simp only: div_mult_mod_eq of_char_eq_iff)
qed

lemma json_char_prefix: "json_char c @ u = json_char d @ v \<Longrightarrow> c = d \<and> u = v"
  by (auto simp: json_char_def dest: hex_pair_inj split: if_splits)

lemma json_body_prefix:
  "concat (map json_char s) @ CHR 0x22 # u = concat (map json_char t) @ CHR 0x22 # v \<Longrightarrow> s = t \<and> u = v"
proof (induction s arbitrary: t)
  case Nil
  then show ?case by (cases t) (auto, metis hd_append2 json_char_ne list.sel(1))
next
  case (Cons c s)
  show ?case
  proof (cases t)
    case Nil
    with Cons.prems show ?thesis by (auto, metis hd_append2 json_char_ne list.sel(1))
  next
    case (Cons d t')
    with Cons.prems json_char_prefix
    have "c = d" "concat (map json_char s) @ CHR 0x22 # u = concat (map json_char t') @ CHR 0x22 # v"
      by (auto dest!: json_char_prefix)
    with Cons.IH [of t'] Cons show ?thesis by blast
  qed
qed

lemma json_quote_prefix: "json_quote s @ u = json_quote t @ v \<Longrightarrow> s = t \<and> u = v"
  by (rule json_body_prefix) (simp add: json_quote_def)

lemma py_join_Cons: "py_join sep (p # ps) = p @ (if ps = [] then [] else sep @ py_join sep ps)"
  by (cases ps) auto

lemma json_list_inj:
  "py_join '','' (map json_quote as) @ '']'' = py_join '','' (map json_quote bs) @ '']'' \<Longrightarrow> as = bs"
proof (induction as arbitrary: bs)
  case Nil
  then show ?case by (cases bs) (auto simp: py_join_Cons json_quote_def)
next
  case (Cons a as)
  then obtain b bs' where bs: "bs = b # bs'" by (cases bs) (auto simp: py_join_Cons json_quote_def)
  let ?rest = "\<lambda>xs. if xs = [] then '']'' else '','' @ py_join '','' (map json_quote xs) @ '']''"
  from Cons.prems have "json_quote a @ ?rest as = json_quote b @ ?rest bs'"
    by (simp add: bs py_join_Cons split: if_splits)
  then have "a = b" "?rest as = ?rest bs'" using json_quote_prefix by blast+
  then show ?case using Cons.IH [of bs'] bs by (auto split: if_splits)
qed

section \<open>Properties\<close>

text \<open>C26. With a step ledger beside the history, the committed transactions are either none or an
  exact decomposition of the file: the ledger consists of positive line counts that add up to the
  lines of the history, there is one transaction for every count, the \<open>k\<close>-th transaction is the
  stripped \<open>k\<close>-th block of lines and not blank, and the transactions expand to exactly the commands
  of the history in their order.\<close>

theorem committed_transactions_exact:
  assumes "read_committed_transactions (Some t) (Ledger steps) \<noteq> []"
  shows "\<exists>entries. ledger_entries (py_splitlines steps) = Some entries
      \<and> (\<forall>n \<in> set entries. 0 < n) \<and> sum_list entries = int (length (py_splitlines t))
      \<and> length (read_committed_transactions (Some t) (Ledger steps)) = length entries
      \<and> (\<forall>k < length entries.
           read_committed_transactions (Some t) (Ledger steps) ! k
             = py_strip (py_join [newline] (ledger_block (map nat entries) k (py_splitlines t)))
           \<and> read_committed_transactions (Some t) (Ledger steps) ! k \<noteq> [])
      \<and> flatten_committed_transactions (read_committed_transactions (Some t) (Ledger steps))
          = read_committed_commands (Some t)"
proof -
  obtain entries where
    "ledger_entries (py_splitlines steps) = Some entries" "\<forall>n \<in> set entries. 0 < n"
    "sum_list entries = int (length (py_splitlines t))"
    "cut_blocks (map nat entries) (py_splitlines t) = Some (read_committed_transactions (Some t) (Ledger steps))"
    "flatten_committed_transactions (read_committed_transactions (Some t) (Ledger steps)) = read_committed_commands (Some t)"
    using read_transactions_Ledger [of t steps] assms by blast
  then show ?thesis
    by (intro exI [of _ entries]) (auto simp: cut_blocks_iff)
qed

theorem committed_transactions_exact_witness:
  "let t = ''move. '' @ [newline] @ ''auto. qed.''; ts = read_committed_transactions (Some t) (Ledger ''2'') in
   length ts = 1 \<and> flatten_committed_transactions ts = [''move.'', ''auto.'', ''qed.'']
   \<and> flatten_committed_transactions ts = read_committed_commands (Some t)"
proof -
  have run: "read_committed_transactions (Some (''move. '' @ [newline] @ ''auto. qed.'')) (Ledger ''2'')
      = [''move. '' @ [newline] @ ''auto. qed.'']" by code_simp
  have "read_committed_commands (Some (''move. '' @ [newline] @ ''auto. qed.'')) = [''move.'', ''auto.'', ''qed.'']"
    by code_simp
  then show ?thesis
    using committed_transactions_exact [of "''move. '' @ [newline] @ ''auto. qed.''" "''2''"] run
    by (auto simp: Let_def)
qed


text \<open>Two committed prefixes have the same identity exactly when they are the same list of
  commands, provided the digest does not collide on their two encodings: the encoding itself never
  confuses two lists of commands.\<close>

lemma prefix_identity_exact:
  assumes "inj_on sha256 {json_dumps False (JList (map JStr as)), json_dumps False (JList (map JStr bs))}"
  shows "committed_prefix_identity sha256 as = committed_prefix_identity sha256 bs \<longleftrightarrow> as = bs"
proof -
  have enc: "json_dumps False (JList (map JStr xs)) = ''['' @ py_join '','' (map json_quote xs) @ '']''" for xs
    by (simp add: comp_def)
  show ?thesis
    using assms json_list_inj [of as bs]
    by (auto simp: committed_prefix_identity_def inj_on_def enc simp del: json_dumps.simps)
qed

end
