(* ===== verification/Progress_Capsule.thy ===== *)
theory Progress_Capsule
  imports Job_Registry
begin

text \<open>
  The progress evidence of a Shannon job in \<open>workflow/interleaved/jobs.py\<close>: the validation of
  the continuation capsule a finished worker reports (\<open>_validated_progress\<close> with
  \<open>_valid_source_breadcrumb\<close>) and of the projection a running worker shows
  (\<open>_validated_live_progress\<close>), and the refresh that copies the latter into the job record.

  A validator is a list of checks, each the error its \<open>if\<close> raises or \<open>None\<close>; the first error
  in source order is the outcome. Membership of an unhashable value in a set literal raises
  \<open>TypeError\<close>. \<open>datetime.fromisoformat\<close> and SHA-256 are arguments.
\<close>

section \<open>Checks\<close>

type_synonym check = "reg_error option"

definition raise_if :: "bool \<Rightarrow> str \<Rightarrow> check" where
  "raise_if b message = (if b then Some (RegValueError message) else None)"

fun first_error :: "check list \<Rightarrow> check" where
  "first_error [] = None"
| "first_error (c # cs) = (case c of Some e \<Rightarrow> Some e | None \<Rightarrow> first_error cs)"

text \<open>\<open>x not in {...}\<close> for a set of strings, as part of a condition that raises \<open>message\<close>.\<close>

definition raise_unless_in :: "json \<Rightarrow> str list \<Rightarrow> str \<Rightarrow> check" where
  "raise_unless_in j names message =
     (if \<not> hashable j then Some RegTypeError else raise_if (j \<notin> JStr ` set names) message)"

fun raise_unless_all_in :: "json list \<Rightarrow> str list \<Rightarrow> str \<Rightarrow> check" where
  "raise_unless_all_in [] names message = None"
| "raise_unless_all_in (j # js) names message =
     (case raise_unless_in j names message of
        Some e \<Rightarrow> Some e | None \<Rightarrow> raise_unless_all_in js names message)"

definition json_int :: "json \<Rightarrow> int" where
  "json_int j = (case j of JInt i \<Rightarrow> i | JBool b \<Rightarrow> (if b then 1 else 0) | _ \<Rightarrow> 0)"

definition json_dict :: "json \<Rightarrow> (str \<times> json) list" where
  "json_dict j = (case j of JObj d \<Rightarrow> d | _ \<Rightarrow> [])"

definition json_list :: "json \<Rightarrow> json list" where
  "json_list j = (case j of JList js \<Rightarrow> js | _ \<Rightarrow> [])"

definition json_text :: "json \<Rightarrow> str" where
  "json_text j = (case j of JStr t \<Rightarrow> t | _ \<Rightarrow> [])"

definition py_is_list :: "json \<Rightarrow> bool" where
  "py_is_list j = (case j of JList _ \<Rightarrow> True | _ \<Rightarrow> False)"

definition py_is_bool :: "json \<Rightarrow> bool" where
  "py_is_bool j = (case j of JBool _ \<Rightarrow> True | _ \<Rightarrow> False)"

text \<open>\<open>isinstance(x, (int, float))\<close> and \<open>x < 0\<close>; a negative float has a minus sign in its \<open>repr\<close>.\<close>

definition py_is_number :: "json \<Rightarrow> bool" where
  "py_is_number j = (case j of JFloat _ \<Rightarrow> True | _ \<Rightarrow> py_is_int j)"

definition py_negative :: "json \<Rightarrow> bool" where
  "py_negative j =
     (case j of JFloat t \<Rightarrow> starts_with ''-'' t \<and> \<not> float_zero t | _ \<Rightarrow> json_int j < 0)"

text \<open>\<open>re.fullmatch(r"[0-9a-f]{64}", t)\<close> and the length of the UTF-8 encoding.\<close>

definition hex64 :: "str \<Rightarrow> bool" where
  "hex64 t \<longleftrightarrow> length t = 64 \<and> list_all is_hex t"

definition utf8_len :: "str \<Rightarrow> nat" where
  "utf8_len t = sum_list (map (\<lambda>c. if py_ord c < 128 then 1 else 2) t)"

text \<open>\<open>(?i)\b(?:admit|qed)\s*\.\<close>\<close>

definition CLOSING_RE :: re where
  "CLOSING_RE = Seqs [WordB, Alt (LitI ''admit'') (LitI ''qed''), Spaces, Cls (\<lambda>c. c = dot)]"

definition PARTIAL_PREFIX_MAX_BYTES :: nat where "PARTIAL_PREFIX_MAX_BYTES = 64 * 1024"
definition GUIDANCE_TEXT_MAX_CHARS :: nat where "GUIDANCE_TEXT_MAX_CHARS = 2000"
definition GUIDANCE_ITEMS_MAX :: nat where "GUIDANCE_ITEMS_MAX = 5"
definition CHECKPOINT_KIND :: str where "CHECKPOINT_KIND = ''interleaved_shannon_managed_checkpoint''"
definition CHECKPOINT_SCHEMA_VERSION :: int where "CHECKPOINT_SCHEMA_VERSION = 1"
definition MANAGED_LIVE_PROGRESS_KIND :: str where
  "MANAGED_LIVE_PROGRESS_KIND = ''managed_prover_live_progress''"
definition MANAGED_LIVE_PROGRESS_SCHEMA_VERSION :: int where "MANAGED_LIVE_PROGRESS_SCHEMA_VERSION = 1"

section \<open>Source breadcrumbs\<close>

definition BREADCRUMB_KEYS :: "str list" where
  "BREADCRUMB_KEYS = [''tool'', ''path'', ''query'', ''scope'', ''requested'', ''resolved'',
     ''status'', ''start_line'', ''end_line'', ''match_count'', ''locations'']"

definition BREADCRUMB_LIMITS :: "(str \<times> nat) list" where
  "BREADCRUMB_LIMITS = [(''path'', 1000), (''query'', 256), (''scope'', 16), (''requested'', 256),
     (''resolved'', 512), (''status'', 32)]"

definition breadcrumb_text_ok :: "(str \<times> json) list \<Rightarrow> str \<times> nat \<Rightarrow> bool" where
  "breadcrumb_text_ok d kl =
     (case dict_get d (fst kl) of
        None \<Rightarrow> True | Some j \<Rightarrow> py_is_str j \<and> length (json_text j) \<le> snd kl)"

definition breadcrumb_count_ok :: "(str \<times> json) list \<Rightarrow> str \<Rightarrow> bool" where
  "breadcrumb_count_ok d k =
     (case dict_get d k of
        None \<Rightarrow> True | Some j \<Rightarrow> \<not> py_is_bool j \<and> py_is_int j \<and> 0 \<le> json_int j)"

definition valid_source_breadcrumb :: "json \<Rightarrow> reg_error + bool" where
  "valid_source_breadcrumb value =
     (if \<not> py_is_dict value then Inr False
      else let d = json_dict value; tool = jget d ''tool''; locations = jget d ''locations'' in
        if \<not> hashable tool then Inl RegTypeError
        else if tool \<notin> JStr ` set [''read'', ''search'', ''resolve''] then Inr False
        else if \<not> list_all (\<lambda>k. k \<in> set BREADCRUMB_KEYS) (dict_keys d) then Inr False
        else if \<not> list_all (breadcrumb_text_ok d) BREADCRUMB_LIMITS then Inr False
        else if \<not> list_all (breadcrumb_count_ok d) [''start_line'', ''end_line'', ''match_count''] then Inr False
        else Inr (locations = JNull
               \<or> (py_is_list locations \<and> length (json_list locations) \<le> 8
                  \<and> list_all (\<lambda>j. py_is_str j \<and> length (json_text j) \<le> 1200) (json_list locations))))"

fun raise_unless_breadcrumbs :: "json list \<Rightarrow> str \<Rightarrow> check" where
  "raise_unless_breadcrumbs [] message = None"
| "raise_unless_breadcrumbs (j # js) message =
     (case valid_source_breadcrumb j of
        Inl e \<Rightarrow> Some e
      | Inr False \<Rightarrow> Some (RegValueError message)
      | Inr True \<Rightarrow> raise_unless_breadcrumbs js message)"

section \<open>The continuation capsule\<close>

definition identity_check :: "(str \<times> json) list \<Rightarrow> str \<Rightarrow> check" where
  "identity_check d lemma_name =
     raise_if (\<not> py_eq_int (jget d ''schema_version'') 2
       \<or> jget d ''kind'' \<noteq> JStr ''interleaved_shannon_progress_capsule''
       \<or> jget d ''lemma'' \<noteq> JStr lemma_name
       \<or> \<not> py_is_int (jget d ''turns'') \<or> json_int (jget d ''turns'') < 0
       \<or> \<not> py_is_number (jget d ''elapsed_seconds'') \<or> py_negative (jget d ''elapsed_seconds''))
       ''invalid Shannon progress capsule''"

definition prefix_text_check :: "(str \<Rightarrow> str) \<Rightarrow> (str \<times> json) list \<Rightarrow> check" where
  "prefix_text_check sha256 a =
     (let t = json_text (jget a ''text'') in
      if jget a ''text'' \<noteq> JNull
      then raise_if (\<not> py_is_str (jget a ''text'')
             \<or> PARTIAL_PREFIX_MAX_BYTES < utf8_len t
             \<or> int (utf8_len t) \<noteq> json_int (jget a ''byte_count'')
             \<or> JStr (sha256 t) \<noteq> jget a ''sha256''
             \<or> re_search CLOSING_RE t 0 \<noteq> None)
             ''accepted-prefix progress text does not match its hash''
      else raise_if (\<not> py_is_str (jget a ''text_omitted_reason'') \<or> jget a ''text_omitted_reason'' = JStr [])
             ''accepted-prefix text is missing without an omission reason'')"

definition accepted_check :: "(str \<Rightarrow> str) \<Rightarrow> json \<Rightarrow> check" where
  "accepted_check sha256 accepted =
     (if accepted = JNull then None
      else let a = json_dict accepted in
        first_error
          [raise_if (\<not> py_is_dict accepted
             \<or> \<not> py_is_int (jget a ''tactic_count'') \<or> json_int (jget a ''tactic_count'') \<le> 0
             \<or> \<not> py_is_int (jget a ''byte_count'') \<or> json_int (jget a ''byte_count'') \<le> 0
             \<or> \<not> hex64 (str_or_empty (jget a ''sha256''))
             \<or> jget a ''authority'' \<noteq> JStr ''manager_committed_history_reporting_artifact''
             \<or> jget a ''replay_required_before_use'' \<noteq> JBool True)
             ''invalid accepted-prefix progress evidence'',
           prefix_text_check sha256 a])"

definition guidance_items_ok :: "json \<Rightarrow> bool" where
  "guidance_items_ok items \<longleftrightarrow>
     items = JNull
     \<or> (py_is_list items \<and> length (json_list items) \<le> GUIDANCE_ITEMS_MAX
        \<and> list_all py_is_str (json_list items)
        \<and> list_all (\<lambda>j. length (json_text j) \<le> GUIDANCE_TEXT_MAX_CHARS) (json_list items))"

definition guidance_check :: "json \<Rightarrow> check" where
  "guidance_check guidance =
     (if guidance = JNull then None
      else let g = json_dict guidance in
        first_error
          [raise_if (\<not> py_is_dict guidance \<or> jget g ''authority'' \<noteq> JStr ''untrusted_inner_agent_report'')
             ''invalid incomplete Shannon agent guidance'',
           raise_if (\<not> guidance_items_ok (jget g ''blockers''))
             ''invalid incomplete Shannon guidance items'',
           raise_if (\<not> guidance_items_ok (jget g ''discoveries''))
             ''invalid incomplete Shannon guidance items''])"

definition breadcrumbs_check :: "json \<Rightarrow> check" where
  "breadcrumbs_check crumbs =
     (if crumbs = JNull then None
      else let c = json_dict crumbs; items = json_list (jget c ''items'') in
        first_error
          [raise_if (\<not> py_is_dict crumbs
             \<or> jget c ''authority'' \<noteq> JStr ''manager_observed_source_navigation''
             \<or> \<not> py_is_list (jget c ''items'') \<or> \<not> (1 \<le> length items \<and> length items \<le> 12))
             ''invalid incomplete Shannon source breadcrumbs'',
           raise_unless_breadcrumbs items ''invalid incomplete Shannon source breadcrumbs''])"

definition goal_check :: "json \<Rightarrow> check" where
  "goal_check goal =
     (let g = json_dict goal in
      raise_if (\<not> py_is_dict goal
        \<or> jget g ''identity_required'' \<noteq> JBool True
        \<or> \<not> py_is_str (jget g ''identity'') \<or> jget g ''identity'' = JStr []
        \<or> 128 < length (json_text (jget g ''identity''))
        \<or> \<not> py_is_str (jget g ''proof_status'')
        \<or> \<not> py_is_str (jget g ''preview'') \<or> 6000 < length (json_text (jget g ''preview'')))
        ''invalid managed Shannon residual goal'')"

text \<open>The binding of a checkpoint to the accepted prefix: the lag is the tail the capsule reports.\<close>

definition tail_absent :: "json \<Rightarrow> bool" where
  "tail_absent tail \<longleftrightarrow> tail = JNull \<or> py_eq_int tail 0"

definition binding_check :: "(str \<times> json) list \<Rightarrow> json \<Rightarrow> json \<Rightarrow> check" where
  "binding_check c accepted tail =
     (let a = json_dict accepted;
          lag = json_int (jget a ''tactic_count'') - json_int (jget c ''tactic_count'')
      in first_error
        [raise_if (accepted = JNull \<or> json_int (jget a ''tactic_count'') < json_int (jget c ''tactic_count''))
           ''managed checkpoint exceeds the accepted prefix'',
         (if lag = 0
          then first_error
            [raise_if (jget c ''accepted_prefix_sha256'' \<noteq> jget a ''sha256'')
               ''managed checkpoint is not bound to accepted prefix'',
             (if \<not> hashable tail then Some RegTypeError
              else raise_if (\<not> tail_absent tail) ''exact checkpoint reports an uncheckpointed tail'')]
          else raise_if (\<not> py_eq_int tail lag) ''managed checkpoint lag is not explicitly reported'')])"

definition rejection_check :: "json \<Rightarrow> check" where
  "rejection_check rejection =
     (let r = json_dict rejection;
          message = ''invalid managed Shannon boundary rejection''
      in if rejection = JNull then None
         else first_error
           [raise_if (\<not> py_is_dict rejection) message,
            raise_unless_in (jget r ''status'') [''rejected'', ''no_progress''] message,
            raise_if (\<not> py_is_str (jget r ''tactic'') \<or> 2000 < length (json_text (jget r ''tactic''))) message])"

definition checkpoint_head_check :: "json \<Rightarrow> check" where
  "checkpoint_head_check checkpoint =
     (let c = json_dict checkpoint in
      raise_if (\<not> py_is_dict checkpoint
        \<or> \<not> py_eq_int (jget c ''schema_version'') CHECKPOINT_SCHEMA_VERSION
        \<or> jget c ''kind'' \<noteq> JStr CHECKPOINT_KIND
        \<or> jget c ''authority'' \<noteq> JStr ''manager_owned_resume_capsule''
        \<or> jget c ''continuation_available'' \<noteq> JBool True
        \<or> \<not> py_is_int (jget c ''tactic_count'') \<or> json_int (jget c ''tactic_count'') \<le> 0
        \<or> \<not> hex64 (str_or_empty (jget c ''checkpoint_id''))
        \<or> \<not> hex64 (str_or_empty (jget c ''accepted_prefix_sha256'')))
        ''invalid managed Shannon checkpoint'')"

definition checkpoint_check :: "json \<Rightarrow> json \<Rightarrow> json \<Rightarrow> check" where
  "checkpoint_check checkpoint accepted tail =
     (if checkpoint = JNull then None
      else let c = json_dict checkpoint in
        first_error
          [checkpoint_head_check checkpoint, goal_check (jget c ''goal''), binding_check c accepted tail,
           rejection_check (jget c ''boundary_rejection'')])"

definition tail_check :: "json \<Rightarrow> json \<Rightarrow> check" where
  "tail_check checkpoint tail =
     first_error
       [raise_if (tail \<noteq> JNull \<and> (\<not> py_is_int tail \<or> py_is_bool tail \<or> json_int tail \<le> 0))
          ''invalid uncheckpointed-tail tactic count'',
        raise_if (checkpoint = JNull \<and> tail \<noteq> JNull)
          ''uncheckpointed tail requires a managed checkpoint'']"

definition NEXT_ACTIONS :: "str list" where
  "NEXT_ACTIONS = [''resume_checkpoint'', ''replay_prefix_in_outer'', ''warm_handoff'',
     ''fresh_restart'', ''redesign_boundary'']"

definition actions_check :: "json \<Rightarrow> check" where
  "actions_check next_actions =
     first_error
       [raise_if (\<not> py_is_list next_actions \<or> json_list next_actions = [])
          ''invalid Shannon progress next actions'',
        raise_unless_all_in (json_list next_actions) NEXT_ACTIONS ''invalid Shannon progress next actions'']"

definition terminal_check :: "json \<Rightarrow> str \<Rightarrow> check" where
  "terminal_check terminal terminal_status =
     (let t = json_dict terminal in
      raise_if (\<not> py_is_dict terminal \<or> jget t ''status'' \<noteq> JStr terminal_status
        \<or> \<not> py_is_str (jget t ''cause'') \<or> jget t ''cause'' = JStr []
        \<or> \<not> py_is_str (jget t ''message'') \<or> 2000 < length (json_text (jget t ''message'')))
        ''invalid Shannon progress terminal cause'')"

definition progress_checks :: "(str \<Rightarrow> str) \<Rightarrow> (str \<times> json) list \<Rightarrow> str \<Rightarrow> str \<Rightarrow> check list" where
  "progress_checks sha256 d lemma_name terminal_status =
     (let accepted = jget d ''accepted_prefix''; guidance = jget d ''agent_guidance'';
          checkpoint = jget d ''checkpoint''; tail = jget d ''uncheckpointed_tail_tactics''
      in [identity_check d lemma_name,
          accepted_check sha256 accepted,
          guidance_check guidance,
          breadcrumbs_check (jget d ''source_breadcrumbs''),
          checkpoint_check checkpoint accepted tail,
          tail_check checkpoint tail,
          actions_check (jget d ''next_actions''),
          terminal_check (jget d ''terminal'') terminal_status,
          raise_if (accepted = JNull \<and> guidance = JNull \<and> \<not> py_is_str (jget d ''summary''))
            ''empty Shannon progress capsule''])"

definition validated_progress ::
  "(str \<Rightarrow> str) \<Rightarrow> json \<Rightarrow> str \<Rightarrow> str \<Rightarrow> reg_error + (str \<times> json) list" where
  "validated_progress sha256 value lemma_name terminal_status =
     (case value of
        JObj d \<Rightarrow> (case first_error (progress_checks sha256 d lemma_name terminal_status) of
                     Some e \<Rightarrow> Inl e | None \<Rightarrow> Inr d)
      | _ \<Rightarrow> Inl (RegValueError ''incomplete Shannon result lacks a progress capsule''))"

section \<open>Live progress\<close>

definition LIVE_COUNTS :: "str list" where
  "LIVE_COUNTS = [''accepted_tactic_count'', ''checkpoint_tactic_count'', ''inner_turns'', ''active_nodes'']"

definition LIVE_KEYS :: "str list" where
  "LIVE_KEYS = [''schema_version'', ''kind'', ''authority'', ''lemma'', ''phase'',
     ''accepted_tactic_count'', ''checkpoint_tactic_count'', ''inner_turns'', ''active_nodes'',
     ''last_progress_at'', ''observed_at'']"

text \<open>\<open>item.replace("Z", "+00:00")\<close>.\<close>

definition zulu_offset :: "str \<Rightarrow> str" where
  "zulu_offset t = concat (map (\<lambda>c. if c = CHR ''Z'' then ''+00:00'' else [c]) t)"

definition live_count_check :: "(str \<times> json) list \<Rightarrow> str \<Rightarrow> check" where
  "live_count_check d key =
     (let item = jget d key in
      raise_if (py_is_bool item \<or> \<not> py_is_int item \<or> json_int item < 0)
        (''invalid managed live-progress field: '' @ key))"

definition live_time_check :: "(str \<Rightarrow> bool) \<Rightarrow> (str \<times> json) list \<Rightarrow> bool \<Rightarrow> str \<Rightarrow> check" where
  "live_time_check iso_ok d required key =
     (let item = jget d key; t = json_text item in
      raise_if (\<not> py_is_str item \<or> (required \<and> t = []) \<or> (t \<noteq> [] \<and> \<not> iso_ok (zulu_offset t)))
        (''invalid managed live-progress timestamp: '' @ key))"

definition live_checks :: "(str \<Rightarrow> bool) \<Rightarrow> (str \<times> json) list \<Rightarrow> str \<Rightarrow> check list" where
  "live_checks iso_ok d lemma_name =
     [raise_if (\<not> py_eq_int (jget d ''schema_version'') MANAGED_LIVE_PROGRESS_SCHEMA_VERSION
        \<or> jget d ''kind'' \<noteq> JStr MANAGED_LIVE_PROGRESS_KIND
        \<or> jget d ''authority'' \<noteq> JStr ''tree_supervisor_manager_observer_projection''
        \<or> jget d ''lemma'' \<noteq> JStr lemma_name) ''invalid managed live-progress identity'',
      raise_unless_in (jget d ''phase'') [''proof_search'', ''finalizing'']
        ''invalid managed live-progress identity'']
     @ map (live_count_check d) LIVE_COUNTS
     @ [raise_if (json_int (jget d ''accepted_tactic_count'') < json_int (jget d ''checkpoint_tactic_count''))
          ''managed live checkpoint exceeds the accepted prefix'',
        live_time_check iso_ok d True ''observed_at'',
        live_time_check iso_ok d False ''last_progress_at'',
        raise_if (json_int (jget d ''accepted_tactic_count'') = 0 \<and> jget d ''last_progress_at'' \<noteq> JStr [])
          ''zero accepted tactics cannot report accepted progress'',
        raise_if (\<not> list_all (\<lambda>k. k \<in> set LIVE_KEYS) (dict_keys d))
          ''managed live progress contains unknown fields'']"

definition validated_live_progress ::
  "(str \<Rightarrow> bool) \<Rightarrow> json \<Rightarrow> str \<Rightarrow> reg_error + (str \<times> json) list" where
  "validated_live_progress iso_ok value lemma_name =
     (case value of
        JObj d \<Rightarrow> (case first_error (live_checks iso_ok d lemma_name) of Some e \<Rightarrow> Inl e | None \<Rightarrow> Inr d)
      | _ \<Rightarrow> Inl (RegValueError ''managed live progress must be a JSON object''))"

text \<open>
  The refresh of a running job. \<open>candidates\<close> are the values of the projection files found (a file
  that cannot be read or parsed is \<open>None\<close>, its error is caught); a \<open>ValueError\<close> of the validator
  is caught and every other error reaches the caller.
\<close>

definition refresh_live_job_progress ::
  "world \<Rightarrow> (str \<Rightarrow> bool) \<Rightarrow> json option list \<Rightarrow> str \<Rightarrow> str \<Rightarrow> unit reg_op" where
  "refresh_live_job_progress w iso_ok candidates job_id lemma_name =
     (case candidates of
        [Some value] \<Rightarrow>
          (if \<not> py_is_dict value then ret ()
           else case validated_live_progress iso_ok value lemma_name of
             Inl (RegValueError _) \<Rightarrow> ret ()
           | Inl e \<Rightarrow> throw e
           | Inr progress \<Rightarrow>
               bind_op (lift_op (load_job job_id)) (\<lambda>current.
                 if jr_status current \<notin> set ACTIVE_STATUSES then ret ()
                 else if py_eq (attr current ''live_progress'') (JObj progress) then ret ()
                 else bind_op (save_job w (set_attr ''live_progress'' (JObj progress) current)) (\<lambda>_. ret ())))
      | _ \<Rightarrow> ret ())"

section \<open>Passing checks\<close>

lemma raise_if_None [simp]: "raise_if b message = None \<longleftrightarrow> \<not> b"
  by (simp add: raise_if_def)

lemma first_error_None [simp]: "first_error cs = None \<longleftrightarrow> (\<forall>c \<in> set cs. c = None)"
  by (induction cs) (auto split: option.splits)

declare first_error.simps [simp del]

lemma raise_unless_in_None: "raise_unless_in j names message = None \<longleftrightarrow> j \<in> JStr ` set names"
  by (auto simp: raise_unless_in_def hashable_def)

lemma raise_unless_all_in_None:
  "raise_unless_all_in js names message = None \<longleftrightarrow> set js \<subseteq> JStr ` set names"
proof (induction js)
  case (Cons j js)
  then show ?case
    using raise_unless_in_None [of j names message] by (cases "raise_unless_in j names message") auto
qed simp

lemma first_error_Inr:
  "(case first_error cs of Some e \<Rightarrow> Inl e | None \<Rightarrow> Inr d) = Inr x \<longleftrightarrow> (\<forall>c \<in> set cs. c = None) \<and> d = x"
  unfolding first_error_None [symmetric] by (cases "first_error cs") (simp_all del: first_error_None)

lemma validated_progress_Inr:
  "validated_progress sha256 value lemma_name status = Inr d \<longleftrightarrow>
     value = JObj d \<and> (\<forall>c \<in> set (progress_checks sha256 d lemma_name status). c = None)"
  by (auto simp: validated_progress_def first_error_Inr split: json.splits)

lemma py_is_dict_iff: "py_is_dict j \<longleftrightarrow> (\<exists>d. j = JObj d)"
  by (auto simp: py_is_dict_def split: json.splits)

lemma py_is_str_iff: "py_is_str j \<longleftrightarrow> (\<exists>t. j = JStr t)"
  by (auto simp: py_is_str_def split: json.splits)

lemma py_is_list_iff: "py_is_list j \<longleftrightarrow> (\<exists>js. j = JList js)"
  by (auto simp: py_is_list_def split: json.splits)

lemma py_is_plain_int_iff: "py_is_int j \<and> \<not> py_is_bool j \<longleftrightarrow> (\<exists>i. j = JInt i)"
  by (auto simp: py_is_int_def py_is_bool_def split: json.splits)

lemmas json_kinds = py_is_dict_iff py_is_str_iff py_is_list_iff

lemma json_views [simp]:
  "json_dict (JObj d) = d" "json_list (JList js) = js" "json_text (JStr t) = t" "json_int (JInt i) = i"
  by (simp_all add: json_dict_def json_list_def json_text_def json_int_def)

text \<open>What an accepted prefix and a checkpoint promise once they pass.\<close>

lemma accepted_check_text:
  assumes "accepted_check sha256 accepted = None" and "accepted \<noteq> JNull"
  shows "\<exists>a. accepted = JObj a \<and> 0 < json_int (jget a ''tactic_count'')
    \<and> (jget a ''text'' \<noteq> JNull \<longrightarrow>
        (\<exists>t. jget a ''text'' = JStr t \<and> jget a ''sha256'' = JStr (sha256 t)
          \<and> json_int (jget a ''byte_count'') = int (utf8_len t) \<and> utf8_len t \<le> PARTIAL_PREFIX_MAX_BYTES
          \<and> re_search CLOSING_RE t 0 = None))"
proof -
  obtain a where a: "accepted = JObj a"
    using assms by (auto simp: accepted_check_def Let_def json_kinds)
  then have pos: "0 < json_int (jget a ''tactic_count'')" and body: "prefix_text_check sha256 a = None"
    using assms by (simp_all add: accepted_check_def Let_def)
  have "jget a ''text'' \<noteq> JNull \<longrightarrow> (\<exists>t. jget a ''text'' = JStr t \<and> jget a ''sha256'' = JStr (sha256 t)
          \<and> json_int (jget a ''byte_count'') = int (utf8_len t) \<and> utf8_len t \<le> PARTIAL_PREFIX_MAX_BYTES
          \<and> re_search CLOSING_RE t 0 = None)"
    using body by (auto simp: prefix_text_check_def Let_def json_kinds simp del: not_None_eq split: if_splits)
  with a pos show ?thesis by blast
qed

lemma checkpoint_check_bound:
  assumes "checkpoint_check checkpoint accepted tail = None" and "checkpoint \<noteq> JNull"
    and "tail_check checkpoint tail = None"
  shows "\<exists>c. checkpoint = JObj c \<and> accepted \<noteq> JNull \<and> 0 < json_int (jget c ''tactic_count'')
    \<and> json_int (jget c ''tactic_count'') \<le> json_int (jget (json_dict accepted) ''tactic_count'')
    \<and> (if json_int (jget c ''tactic_count'') = json_int (jget (json_dict accepted) ''tactic_count'')
       then jget c ''accepted_prefix_sha256'' = jget (json_dict accepted) ''sha256'' \<and> tail = JNull
       else tail = JInt (json_int (jget (json_dict accepted) ''tactic_count'') - json_int (jget c ''tactic_count'')))"
proof -
  obtain c where c: "checkpoint = JObj c" and pos: "0 < json_int (jget c ''tactic_count'')"
    and b: "binding_check c accepted tail = None"
    using assms(1,2) by (auto simp: checkpoint_check_def checkpoint_head_check_def Let_def json_kinds)
  have tail: "tail = JNull \<or> (\<exists>i. tail = JInt i \<and> 0 < i)"
    using assms(3) py_is_plain_int_iff [of tail] by (auto simp: tail_check_def)
  show ?thesis
    using b tail pos by (auto simp: c binding_check_def Let_def tail_absent_def py_eq_int_def split: if_splits)
qed

lemma terminal_check_status:
  "terminal_check terminal status = None \<Longrightarrow> \<exists>t. terminal = JObj t \<and> jget t ''status'' = JStr status"
  by (auto simp: terminal_check_def Let_def json_kinds)

section \<open>Properties\<close>

text \<open>C22. A progress capsule that passes validation is returned unchanged and is bound to its job: it
  names the lemma and the terminal status it was asked for; an accepted prefix that carries its text
  carries exactly the text its hash and byte count describe, of at most 64 KiB, with no \<open>admit.\<close> or
  \<open>qed.\<close> sentence; a checkpoint comes with an accepted prefix at least as long, and the difference of
  the two lengths is the reported uncheckpointed tail, which is absent, with equal hashes, when there
  is no difference; and the next actions are a non-empty selection of the known ones.\<close>

theorem validated_progress_sound:
  assumes "validated_progress sha256 value lemma_name status = Inr d"
  shows "value = JObj d \<and> jget d ''lemma'' = JStr lemma_name
    \<and> (\<exists>t. jget d ''terminal'' = JObj t \<and> jget t ''status'' = JStr status)
    \<and> (jget d ''accepted_prefix'' \<noteq> JNull \<longrightarrow>
        (\<exists>a. jget d ''accepted_prefix'' = JObj a \<and> 0 < json_int (jget a ''tactic_count'')
          \<and> (jget a ''text'' \<noteq> JNull \<longrightarrow>
              (\<exists>t. jget a ''text'' = JStr t \<and> jget a ''sha256'' = JStr (sha256 t)
                \<and> json_int (jget a ''byte_count'') = int (utf8_len t) \<and> utf8_len t \<le> PARTIAL_PREFIX_MAX_BYTES
                \<and> re_search CLOSING_RE t 0 = None))))
    \<and> (jget d ''checkpoint'' \<noteq> JNull \<longrightarrow>
        (\<exists>c a. jget d ''checkpoint'' = JObj c \<and> jget d ''accepted_prefix'' = JObj a
          \<and> 0 < json_int (jget c ''tactic_count'')
          \<and> json_int (jget c ''tactic_count'') \<le> json_int (jget a ''tactic_count'')
          \<and> (if json_int (jget c ''tactic_count'') = json_int (jget a ''tactic_count'')
             then jget c ''accepted_prefix_sha256'' = jget a ''sha256''
               \<and> jget d ''uncheckpointed_tail_tactics'' = JNull
             else jget d ''uncheckpointed_tail_tactics''
               = JInt (json_int (jget a ''tactic_count'') - json_int (jget c ''tactic_count'')))))
    \<and> (\<exists>acts. jget d ''next_actions'' = JList acts \<and> acts \<noteq> [] \<and> set acts \<subseteq> JStr ` set NEXT_ACTIONS)"
proof -
  let ?acc = "jget d ''accepted_prefix''" and ?cp = "jget d ''checkpoint''"
    and ?tail = "jget d ''uncheckpointed_tail_tactics''"
  have v: "value = JObj d" and checks:
    "identity_check d lemma_name = None" "accepted_check sha256 ?acc = None"
    "checkpoint_check ?cp ?acc ?tail = None" "tail_check ?cp ?tail = None"
    "actions_check (jget d ''next_actions'') = None" "terminal_check (jget d ''terminal'') status = None"
    using assms by (simp_all add: validated_progress_Inr progress_checks_def Let_def)
  have acts: "\<exists>acts. jget d ''next_actions'' = JList acts \<and> acts \<noteq> [] \<and> set acts \<subseteq> JStr ` set NEXT_ACTIONS"
    using checks(5) by (auto simp: actions_check_def json_kinds raise_unless_all_in_None)
  have lem: "jget d ''lemma'' = JStr lemma_name" using checks(1) by (simp add: identity_check_def)
  note acc = accepted_check_text [OF checks(2)]
  note bound = checkpoint_check_bound [OF checks(3) _ checks(4)]
  have cp: "?cp \<noteq> JNull \<longrightarrow> (\<exists>c a. ?cp = JObj c \<and> ?acc = JObj a
          \<and> 0 < json_int (jget c ''tactic_count'')
          \<and> json_int (jget c ''tactic_count'') \<le> json_int (jget a ''tactic_count'')
          \<and> (if json_int (jget c ''tactic_count'') = json_int (jget a ''tactic_count'')
             then jget c ''accepted_prefix_sha256'' = jget a ''sha256'' \<and> ?tail = JNull
             else ?tail = JInt (json_int (jget a ''tactic_count'') - json_int (jget c ''tactic_count''))))"
    using bound acc by (metis json_views(1))
  show ?thesis
    using v lem acc cp acts terminal_check_status [OF checks(6)] by blast
qed

subsection \<open>Live progress\<close>

lemma validated_live_Inr:
  "validated_live_progress iso_ok value lemma_name = Inr d \<longleftrightarrow>
     value = JObj d \<and> (\<forall>c \<in> set (live_checks iso_ok d lemma_name). c = None)"
  by (auto simp: validated_live_progress_def first_error_Inr split: json.splits)

lemma first_error_Some: "first_error cs = Some e \<Longrightarrow> Some e \<in> set cs"
  by (induction cs) (auto simp: first_error.simps split: option.splits)

lemma raise_if_Some: "Some e = raise_if b message \<longleftrightarrow> b \<and> e = RegValueError message"
  by (auto simp: raise_if_def)

lemma raise_unless_in_Some:
  "Some e = raise_unless_in j names message \<longleftrightarrow>
     \<not> hashable j \<and> e = RegTypeError \<or> hashable j \<and> j \<notin> JStr ` set names \<and> e = RegValueError message"
  by (auto simp: raise_unless_in_def raise_if_Some)

lemma live_error_kinds:
  assumes "validated_live_progress iso_ok (JObj d) lemma_name = Inl e"
  shows "(\<exists>m. e = RegValueError m) \<or> e = RegTypeError \<and> \<not> hashable (jget d ''phase'')"
proof -
  have "Some e \<in> set (live_checks iso_ok d lemma_name)"
    using assms first_error_Some [of "live_checks iso_ok d lemma_name" e]
    by (simp add: validated_live_progress_def split: option.splits)
  then show ?thesis
    unfolding live_checks_def live_count_check_def live_time_check_def Let_def set_append set_map Un_iff
      list.set insert_iff image_iff raise_if_Some raise_unless_in_Some by blast
qed

lemma live_progress_counts:
  assumes "validated_live_progress iso_ok value lemma_name = Inr d"
  shows "0 \<le> json_int (jget d ''checkpoint_tactic_count'')
    \<and> json_int (jget d ''checkpoint_tactic_count'') \<le> json_int (jget d ''accepted_tactic_count'')
    \<and> set (dict_keys d) \<subseteq> set LIVE_KEYS \<and> jget d ''lemma'' = JStr lemma_name"
  using assms
  by (auto simp: validated_live_Inr live_checks_def live_count_check_def LIVE_COUNTS_def Let_def list_all_iff)

lemma save_active_set_attr:
  assumes wf: "wf_registry g" and current: "load_job k g = Inr current" and active: "jr_status current \<in> set ACTIVE_STATUSES"
    and n: "n \<in> set ATTR_NAMES" "n \<noteq> ''job_id''" "n \<noteq> ''schema_version''"
  obtains g' where "save_job w (set_attr n v current) g = (g', Inr (set_attr n v current))"
    "wf_registry g'" "status_at g' = status_at g" "reg_target g' = reg_target g"
    "reg_released g' = reg_released g" "load_job k g' = Inr (set_attr n v current)"
    "\<And>j. j \<noteq> k \<Longrightarrow> dict_get (reg_jobs g') j = dict_get (reg_jobs g) j"
proof -
  let ?r = "set_attr n v current"
  have ok: "job_record_wf current" "job_id_of current = k" "status_at g k = Some (jr_status current)" "job_id_ok k"
    using load_job_ok [OF wf current] by auto
  then have r: "job_record_wf ?r" "job_id_of ?r = k" "jr_status ?r = jr_status current"
    using n by (simp_all add: wf_set_attr)
  obtain stored where "dict_get (reg_jobs g) k = Some stored" "read_job stored k = Inr current"
    using current by (auto simp: load_job_def split: if_splits option.splits)
  then have save: "save_job w ?r g = (g\<lparr>reg_jobs := dict_set k (JObj (to_dict ?r)) (reg_jobs g)\<rparr>, Inr ?r)"
    using ok r active by (auto simp: save_job_def Let_def require_transition_def status_sets)
  note s = save_job_saved [OF save]
  show ?thesis
  proof (rule that [OF save])
    show "load_job k (g\<lparr>reg_jobs := dict_set k (JObj (to_dict ?r)) (reg_jobs g)\<rparr>) = Inr ?r"
      using ok(4) r read_job_to_dict [OF r(1)] by (simp add: load_job_def dict_get_set)
    show "status_at (g\<lparr>reg_jobs := dict_set k (JObj (to_dict ?r)) (reg_jobs g)\<rparr>) = status_at g"
      using saved_ok(5) [OF s r(1) wf] r ok(3) by (auto simp: fun_eq_iff)
  qed (use saved_ok [OF s r(1) wf] in \<open>simp_all add: dict_get_set\<close>)
qed

lemma refresh_not_object:
  "\<nexists>d. candidates = [Some (JObj d)] \<Longrightarrow> refresh_live_job_progress w iso_ok candidates k lemma_name g = (g, Inr ())"
  by (auto simp: refresh_live_job_progress_def ret_def json_kinds split: list.split option.split)

lemma refresh_object:
  "refresh_live_job_progress w iso_ok [Some (JObj d)] k lemma_name g =
     (case validated_live_progress iso_ok (JObj d) lemma_name of
        Inl e \<Rightarrow> (g, case e of RegValueError _ \<Rightarrow> Inr () | _ \<Rightarrow> Inl e)
      | Inr p \<Rightarrow> (case load_job k g of
          Inl e \<Rightarrow> (g, Inl e)
        | Inr current \<Rightarrow>
            if jr_status current \<notin> set ACTIVE_STATUSES \<or> py_eq (attr current ''live_progress'') (JObj p) then (g, Inr ())
            else bind_op (save_job w (set_attr ''live_progress'' (JObj p) current)) (\<lambda>_. ret ()) g))"
  by (simp add: refresh_live_job_progress_def py_is_dict_def ret_def throw_def bind_op_def lift_op_def
      split: sum.split reg_error.split)

lemma refresh_cases [consumes 1, case_names idle raised missing saving]:
  assumes "refresh_live_job_progress w iso_ok candidates k lemma_name g = (g', out)"
  obtains "g' = g" "out = Inr ()"
  | d e where "candidates = [Some (JObj d)]" "validated_live_progress iso_ok (JObj d) lemma_name = Inl e" "g' = g" "out = Inl e"
  | e where "load_job k g = Inl e" "g' = g" "out = Inl e"
  | d current where "candidates = [Some (JObj d)]" "validated_live_progress iso_ok (JObj d) lemma_name = Inr d"
      "load_job k g = Inr current" "jr_status current \<in> set ACTIVE_STATUSES"
      "bind_op (save_job w (set_attr ''live_progress'' (JObj d) current)) (\<lambda>_. ret ()) g = (g', out)"
proof (cases "\<exists>d. candidates = [Some (JObj d)]")
  case False
  then have "g' = g" "out = Inr ()" using assms refresh_not_object by simp_all
  then show ?thesis by (rule that(1))
next
  case True
  then obtain d where d: "candidates = [Some (JObj d)]" by blast
  show ?thesis
  proof (cases "validated_live_progress iso_ok (JObj d) lemma_name")
    case (Inl e)
    with assms d have out: "g' = g" "out = (case e of RegValueError _ \<Rightarrow> Inr () | _ \<Rightarrow> Inl e)"
      by (simp_all add: refresh_object)
    show ?thesis
    proof (cases "out = Inl e")
      case True
      then show ?thesis by (rule that(2) [OF d Inl out(1)])
    next
      case False
      with out(2) have "out = Inr ()" by (cases e) simp_all
      then show ?thesis by (rule that(1) [OF out(1)])
    qed
  next
    case (Inr p)
    then have p: "p = d" using validated_live_Inr by auto
    show ?thesis
    proof (cases "load_job k g")
      case (Inl e)
      with assms d Inr have "g' = g" "out = Inl e" by (simp_all add: refresh_object)
      then show ?thesis by (rule that(3) [OF Inl])
    next
      case current: (Inr current)
      show ?thesis
      proof (cases "jr_status current \<notin> set ACTIVE_STATUSES \<or> py_eq (attr current ''live_progress'') (JObj p)")
        case True
        with assms d Inr current have "g' = g" "out = Inr ()" by (simp_all add: refresh_object)
        then show ?thesis by (rule that(1))
      next
        case False
        with assms d Inr current p show ?thesis by (intro that(4) [of d current]) (simp_all add: refresh_object)
      qed
    qed
  qed
qed


subsection \<open>Sample evidence\<close>

definition sample_sha :: "str \<Rightarrow> str" where
  "sample_sha t = replicate 64 (CHR ''a'')"

definition sample_capsule :: "(str \<times> json) list" where
  "sample_capsule =
     [(''schema_version'', JInt 2), (''kind'', JStr ''interleaved_shannon_progress_capsule''),
      (''lemma'', JStr ''foo''), (''turns'', JInt 3), (''elapsed_seconds'', JFloat ''12.5''),
      (''accepted_prefix'', JObj
         [(''tactic_count'', JInt 2), (''byte_count'', JInt 11), (''sha256'', JStr (sample_sha [])),
          (''authority'', JStr ''manager_committed_history_reporting_artifact''),
          (''replay_required_before_use'', JBool True), (''text'', JStr ''move. auto.'')]),
      (''checkpoint'', JObj
         [(''schema_version'', JInt 1), (''kind'', JStr CHECKPOINT_KIND),
          (''authority'', JStr ''manager_owned_resume_capsule''), (''continuation_available'', JBool True),
          (''tactic_count'', JInt 1), (''checkpoint_id'', JStr (sample_sha [])),
          (''accepted_prefix_sha256'', JStr (sample_sha [])),
          (''goal'', JObj [(''identity_required'', JBool True), (''identity'', JStr ''g1''),
             (''proof_status'', JStr ''open''), (''preview'', JStr ''x = x'')])]),
      (''uncheckpointed_tail_tactics'', JInt 1),
      (''next_actions'', JList [JStr ''resume_checkpoint'', JStr ''fresh_restart'']),
      (''terminal'', JObj [(''status'', JStr ''incomplete''), (''cause'', JStr ''timeout''), (''message'', JStr [])])]"

definition sample_live :: "(str \<times> json) list" where
  "sample_live =
     [(''schema_version'', JInt 1), (''kind'', JStr MANAGED_LIVE_PROGRESS_KIND),
      (''authority'', JStr ''tree_supervisor_manager_observer_projection''), (''lemma'', JStr ''foo''),
      (''phase'', JStr ''proof_search''), (''accepted_tactic_count'', JInt 2),
      (''checkpoint_tactic_count'', JInt 1), (''inner_turns'', JInt 4), (''active_nodes'', JInt 1),
      (''last_progress_at'', JStr ''2026-01-01T00:00:00Z''), (''observed_at'', JStr ''2026-01-01T00:00:01Z'')]"

definition running_registry :: registry where
  "running_registry = empty_registry\<lparr>reg_jobs :=
     [(''0123456789abcdef'', JObj [(''schema_version'', JInt 1), (''job_id'', JStr ''0123456789abcdef''),
        (''status'', JStr ''running'')])]\<rparr>"

theorem validated_progress_sound_witness:
  "\<exists>t. jget sample_capsule ''terminal'' = JObj t \<and> jget t ''status'' = JStr ''incomplete''"
proof -
  have "validated_progress sample_sha (JObj sample_capsule) ''foo'' ''incomplete'' = Inr sample_capsule"
    by code_simp
  from validated_progress_sound [OF this] show ?thesis by blast
qed


lemma live_phase_type_error:
  "snd (refresh_live_job_progress sample_world (\<lambda>_. True)
      [Some (JObj (dict_set ''phase'' (JList []) sample_live))] ''0123456789abcdef'' ''foo'' running_registry)
    = Inl RegTypeError"
  by code_simp

end
