(* ===== verification/Resume_Contract.thy ===== *)
theory Resume_Contract
  imports Progress_Capsule Complex_Main "HOL-Library.Product_Lexorder"
begin

text \<open>
  \<open>workflow/interleaved/resume_contract.py\<close>: the public checkpoint projected from a resume
  capsule of the proof node, the choice of the checkpoint to resume from, the rebinding of a copied
  capsule to a new target, and the hash of a capsule directory. Reading and checking a capsule file
  (\<open>load_resume_capsule\<close>) is an argument: the answers it gives. Scores are finite floats, given by
  their rational values.
\<close>

section \<open>Capsules\<close>

record resume_capsule =
  rc_path :: str
  rc_target_file :: str
  rc_lemma :: str
  rc_include_dir :: str
  rc_commit :: str
  rc_session_name :: str
  rc_replay_prefix :: "str list"
  rc_replay_transactions :: "str list"
  rc_current_goal_hash :: str
  rc_proof_status :: str
  rc_goal_identity_required :: bool
  rc_current_goal_preview :: str
  rc_current_goal_path :: str
  rc_score :: rat
  rc_reasons :: "str list"
  rc_handoff_notes :: "str list"
  rc_recent_tactics :: "(str \<times> json) list list"
  rc_route_family :: str
  rc_resume_diversity :: json
  rc_resume_prefix_count :: int
  rc_resume_context :: json
  rc_recorded_tactic_count :: int

definition tactic_count :: "resume_capsule \<Rightarrow> nat" where
  "tactic_count c = length (rc_replay_prefix c)"

definition GOAL_PREVIEW_MAX_CHARS :: nat where "GOAL_PREVIEW_MAX_CHARS = 6000"
definition CONTINUATION_NOTE_MAX_CHARS :: nat where "CONTINUATION_NOTE_MAX_CHARS = 8000"

definition canonical_json_sha256 :: "(str \<Rightarrow> str) \<Rightarrow> (str \<times> json) list \<Rightarrow> str" where
  "canonical_json_sha256 sha256 value = sha256 (json_dumps True (JObj value))"

section \<open>Directory hash\<close>

text \<open>One entry of \<open>root.rglob("*")\<close>: its path below the root in POSIX form and what it is, a regular file
  with its bytes, of which \<open>sha256_bytes\<close> is the digest.
  \<open>sorted\<close> compares paths by their components.\<close>

datatype dir_entry = Symlink | Regular_File str | Other_Entry

definition dir_record :: "(str \<Rightarrow> str) \<Rightarrow> str \<times> dir_entry \<Rightarrow> json list" where
  "dir_record sha256_bytes pe =
     (case snd pe of
        Regular_File raw \<Rightarrow>
          [JObj [(''path'', JStr (fst pe)), (''byte_count'', JInt (int (length raw))), (''sha256'', JStr (sha256_bytes raw))]]
      | _ \<Rightarrow> [])"

fun path_parts_from :: "str \<Rightarrow> str \<Rightarrow> str list" where
  "path_parts_from cur [] = [cur]"
| "path_parts_from cur (c # cs) =
     (if c = CHR ''/'' then cur # path_parts_from [] cs else path_parts_from (cur @ [c]) cs)"

definition path_parts :: "str \<Rightarrow> str list" where
  "path_parts p = path_parts_from [] p"

definition is_regular :: "dir_entry \<Rightarrow> bool" where
  "is_regular e = (case e of Regular_File _ \<Rightarrow> True | _ \<Rightarrow> False)"

definition directory_content_sha256 ::
  "(str \<Rightarrow> str) \<Rightarrow> (str \<Rightarrow> str) \<Rightarrow> (str \<times> dir_entry) list option \<Rightarrow> reg_error + str" where
  "directory_content_sha256 sha256 sha256_bytes dir =
     (case dir of
        None \<Rightarrow> Inl (RegValueError ''resume capsule root is not a directory'')
      | Some found \<Rightarrow>
          (let entries = concat (map (dir_record sha256_bytes) (sort_key (\<lambda>pe. path_parts (fst pe)) found)) in
           if list_ex (\<lambda>pe. snd pe = Symlink) found
           then Inl (RegValueError ''resume capsule directory contains a symlink'')
           else if entries = [] \<or> \<not> list_ex (\<lambda>pe. fst pe = ''resume.json'' \<and> is_regular (snd pe)) found
           then Inl (RegValueError ''resume capsule directory is incomplete'')
           else Inr (canonical_json_sha256 sha256 [(''files'', JList entries)])))"

section \<open>Projection\<close>

definition prefix_text :: "resume_capsule \<Rightarrow> str" where
  "prefix_text c =
     (if rc_replay_prefix c = [] then [] else py_join [newline] (rc_replay_prefix c) @ [newline])"

definition rejection_of :: "(str \<times> json) list \<Rightarrow> (str \<times> json) list" where
  "rejection_of item =
     (let outcome = py_strip (str_or_empty (jget item ''outcome''))
      in [(''status'', JStr (str_or_empty (jget item ''status''))),
          (''intent'', JStr (str_or_empty (jget item ''intent''))),
          (''tactic'', JStr (take 2000 (str_or_empty (jget item ''tactic''))))]
         @ (if outcome = [] then [] else [(''outcome'', JStr (take 2000 outcome))]))"

definition boundary_rejection :: "resume_capsule \<Rightarrow> (str \<times> json) list" where
  "boundary_rejection c =
     (case find (\<lambda>item. str_or_empty (jget item ''status'') \<in> set [''rejected'', ''no_progress''])
             (rev (rc_recent_tactics c)) of
        Some item \<Rightarrow> rejection_of item | None \<Rightarrow> [])"

definition checkpoint_body :: "(str \<Rightarrow> str) \<Rightarrow> resume_capsule \<Rightarrow> (str \<times> json) list" where
  "checkpoint_body sha256 c =
     [(''schema_version'', JInt CHECKPOINT_SCHEMA_VERSION), (''kind'', JStr CHECKPOINT_KIND),
      (''authority'', JStr ''manager_owned_resume_capsule''),
      (''tactic_count'', JInt (int (tactic_count c))),
      (''accepted_prefix_sha256'', JStr (sha256 (prefix_text c))),
      (''goal'', JObj [(''identity'', JStr (rc_current_goal_hash c)), (''identity_required'', JBool True),
         (''proof_status'', JStr (rc_proof_status c)),
         (''preview'', JStr (take GOAL_PREVIEW_MAX_CHARS (rc_current_goal_preview c)))]),
      (''continuation_available'', JBool True)]
     @ (if boundary_rejection c = [] then [] else [(''boundary_rejection'', JObj (boundary_rejection c))])"

definition checkpoint_projection ::
  "(str \<Rightarrow> str) \<Rightarrow> resume_capsule \<Rightarrow> reg_error + (str \<times> json) list \<times> str" where
  "checkpoint_projection sha256 c =
     (if prefix_text c = [] \<or> tactic_count c = 0
      then Inl (RegValueError ''resume capsule has no accepted prefix'')
      else if \<not> rc_goal_identity_required c \<or> rc_current_goal_hash c = []
      then Inl (RegValueError ''resume capsule does not describe an open residual goal'')
      else Inr (dict_set ''checkpoint_id'' (JStr (canonical_json_sha256 sha256 (checkpoint_body sha256 c)))
                  (checkpoint_body sha256 c), prefix_text c))"

section \<open>Selection\<close>

text \<open>What reading one candidate path gives: no file below the allowed root, an error the loop
  catches (\<open>OSError\<close>, \<open>ValueError\<close>), another error, or a capsule.\<close>

datatype capsule_read = Not_A_File | Load_Caught | Load_Raised reg_error | Loaded resume_capsule

record selected_checkpoint =
  sc_manifest_path :: str
  sc_capsule :: resume_capsule
  sc_public :: "(str \<times> json) list"
  sc_prefix_text :: str

definition accepted_spine :: "json list option \<Rightarrow> str list option" where
  "accepted_spine accepted_prefix =
     map_option (\<lambda>items. concat (map (\<lambda>j. case j of JStr t \<Rightarrow> if py_strip t = [] then [] else [py_strip t] | _ \<Rightarrow> []) items))
       accepted_prefix"

definition compatible :: "str \<Rightarrow> str list option \<Rightarrow> resume_capsule \<Rightarrow> bool" where
  "compatible lemma_name accepted c \<longleftrightarrow>
     rc_lemma c = lemma_name
     \<and> (case accepted of
          None \<Rightarrow> True
        | Some spine \<Rightarrow> rc_replay_prefix c \<noteq> [] \<and> rc_replay_prefix c = take (length (rc_replay_prefix c)) spine)"

fun checkpoint_candidates ::
  "(str \<Rightarrow> str) \<Rightarrow> str \<Rightarrow> str list option \<Rightarrow> (str \<times> capsule_read) list \<Rightarrow> reg_error + selected_checkpoint list" where
  "checkpoint_candidates sha256 lemma_name accepted [] = Inr []"
| "checkpoint_candidates sha256 lemma_name accepted ((path, got) # rest) =
     (let others = checkpoint_candidates sha256 lemma_name accepted rest in
      case got of
        Not_A_File \<Rightarrow> others
      | Load_Caught \<Rightarrow> others
      | Load_Raised e \<Rightarrow> Inl e
      | Loaded c \<Rightarrow>
          if \<not> compatible lemma_name accepted c then others
          else (case checkpoint_projection sha256 c of
                  Inl _ \<Rightarrow> others
                | Inr (public, spine_text) \<Rightarrow>
                    map_sum id (Cons \<lparr>sc_manifest_path = path, sc_capsule = c, sc_public = public,
                                      sc_prefix_text = spine_text\<rparr>) others))"

definition checkpoint_key :: "selected_checkpoint \<Rightarrow> nat \<times> rat" where
  "checkpoint_key s = (tactic_count (sc_capsule s), rc_score (sc_capsule s))"

text \<open>\<open>max(xs, key=key)\<close> of a non-empty list: the first element with the largest key.\<close>

fun py_max_by :: "('a \<Rightarrow> 'k::linorder) \<Rightarrow> 'a \<Rightarrow> 'a list \<Rightarrow> 'a" where
  "py_max_by key best [] = best"
| "py_max_by key best (x # xs) = py_max_by key (if key best < key x then x else best) xs"

definition select_resume_checkpoint ::
  "(str \<Rightarrow> str) \<Rightarrow> (str \<times> capsule_read) list \<Rightarrow> str \<Rightarrow> json list option \<Rightarrow> reg_error + selected_checkpoint option" where
  "select_resume_checkpoint sha256 paths lemma_name accepted_prefix =
     (case checkpoint_candidates sha256 lemma_name (accepted_spine accepted_prefix) paths of
        Inl e \<Rightarrow> Inl e
      | Inr [] \<Rightarrow> Inr None
      | Inr (s # ss) \<Rightarrow> Inr (Some (py_max_by checkpoint_key s ss)))"

section \<open>Rebinding\<close>

definition BRIEFING_HEADER :: str where
  "BRIEFING_HEADER =
     ''Outer continuation briefing (untrusted strategy guidance; ''
     @ ''the manager-owned checkpoint remains authoritative):'' @ [newline]"

definition with_note :: "str \<Rightarrow> (str \<times> json) list \<Rightarrow> reg_error + (str \<times> json) list" where
  "with_note note data =
     (if note = [] then Inr data
      else case jget data ''handoff'' of
             JObj handoff \<Rightarrow>
               (let notes = jget handoff ''notes'';
                    old = json_list notes
                in if \<not> (notes = JNull \<or> py_is_list notes) \<or> \<not> list_all py_is_str old
                   then Inl (RegValueError ''resume capsule handoff notes are invalid'')
                   else Inr (dict_set ''handoff''
                     (JObj (dict_set ''notes'' (JList (old @ [JStr (BRIEFING_HEADER @ note)])) handoff)) data))
           | _ \<Rightarrow> Inl (RegValueError ''resume capsule handoff is missing''))"

definition continuation_entry :: "(str \<Rightarrow> str) \<Rightarrow> str \<Rightarrow> str \<Rightarrow> str \<Rightarrow> json" where
  "continuation_entry sha256 parent_job_id checkpoint_id note =
     JObj [(''schema_version'', JInt 1), (''parent_job_id'', JStr parent_job_id),
           (''checkpoint_id'', JStr checkpoint_id),
           (''target_rebound_for_fresh_isolated_replay'', JBool True),
           (''continuation_note_sha256'', JStr (if note = [] then [] else sha256 note))]"

text \<open>The manifest as it is read back (\<open>data\<close>) and the capsule \<open>load_resume_capsule\<close> made of it;
  the result is the manifest that is written.\<close>

definition rebind_resume_capsule ::
  "(str \<Rightarrow> str) \<Rightarrow> reg_error + resume_capsule \<Rightarrow> json \<Rightarrow> str \<Rightarrow> str \<Rightarrow> str \<Rightarrow> str \<Rightarrow> reg_error + (str \<times> json) list" where
  "rebind_resume_capsule sha256 loaded data target_file parent_job_id checkpoint_id continuation_note =
     (case loaded of
        Inl e \<Rightarrow> Inl e
      | Inr c \<Rightarrow>
        (case checkpoint_projection sha256 c of
           Inl e \<Rightarrow> Inl e
         | Inr (public, _) \<Rightarrow>
           if jget public ''checkpoint_id'' \<noteq> JStr checkpoint_id
           then Inl (RegValueError ''resume checkpoint identity mismatch'')
           else case data of
             JObj d \<Rightarrow>
               (case jget d ''target'' of
                  JObj target \<Rightarrow>
                    (let d1 = dict_set ''target'' (JObj (dict_set ''file'' (JStr target_file) target)) d;
                         note = py_strip continuation_note
                     in if CONTINUATION_NOTE_MAX_CHARS < length note
                        then Inl (RegValueError ''continuation note exceeds its character limit'')
                        else map_sum id (dict_set ''interleaved_continuation''
                               (continuation_entry sha256 parent_job_id checkpoint_id note)) (with_note note d1))
                | _ \<Rightarrow> Inl (RegValueError ''resume capsule target is missing''))
           | _ \<Rightarrow> Inl (RegValueError ''resume capsule manifest must be an object'')))"

section \<open>Lemmas\<close>

lemma jget_append: "jget (d @ e) k = (if k \<in> set (dict_keys d) then jget d k else jget e k)"
  by (induction d) (auto simp: jget_def dict_get_def dict_keys_def)

lemma py_max_by_max:
  "py_max_by key best xs \<in> set (best # xs) \<and> (\<forall>x \<in> set (best # xs). key x \<le> key (py_max_by key best xs))"
proof (induction xs arbitrary: best)
  case (Cons x xs)
  from Cons [of "if key best < key x then x else best"] show ?case
    by (auto split: if_splits intro: order_trans less_imp_le)
qed simp

lemma checkpoint_candidates_iff:
  "checkpoint_candidates sha256 lemma_name accepted paths = Inr ss \<Longrightarrow>
     s \<in> set ss \<longleftrightarrow>
       (sc_manifest_path s, Loaded (sc_capsule s)) \<in> set paths \<and> compatible lemma_name accepted (sc_capsule s)
       \<and> checkpoint_projection sha256 (sc_capsule s) = Inr (sc_public s, sc_prefix_text s)"
proof (induction sha256 lemma_name accepted paths arbitrary: ss rule: checkpoint_candidates.induct)
  case (2 sha256 lemma_name accepted path got rest)
  show ?case
  proof (cases "\<exists>c p. got = Loaded c \<and> compatible lemma_name accepted c \<and> checkpoint_projection sha256 c = Inr p")
    case True
    then obtain c public t where got: "got = Loaded c" "compatible lemma_name accepted c"
      "checkpoint_projection sha256 c = Inr (public, t)" by auto
    with 2(2) obtain ss' where ss': "checkpoint_candidates sha256 lemma_name accepted rest = Inr ss'"
      "ss = \<lparr>sc_manifest_path = path, sc_capsule = c, sc_public = public, sc_prefix_text = t\<rparr> # ss'"
      by (cases "checkpoint_candidates sha256 lemma_name accepted rest") (auto simp: Let_def)
    show ?thesis using 2(1) [OF ss'(1)] got by (cases s) (auto simp: ss'(2))
  next
    case False
    with 2(2) have "checkpoint_candidates sha256 lemma_name accepted rest = Inr ss"
      by (auto simp: Let_def split: capsule_read.splits if_splits sum.splits)
    with 2(1) False show ?thesis by auto
  qed
qed simp

section \<open>Properties\<close>

text \<open>C25. Choosing the checkpoint to resume from: when a checkpoint is chosen it comes from one of the
  given files, describes the lemma, has an exact prefix of the accepted spine (when one is given) and
  its public projection, and no other file with those qualities has more tactics, or as many and a
  higher score; when none is chosen, no given file qualifies.\<close>

theorem select_resume_checkpoint_best:
  assumes "select_resume_checkpoint sha256 paths lemma_name accepted_prefix = Inr chosen"
  shows "case chosen of
      None \<Rightarrow> (\<forall>path c. (path, Loaded c) \<in> set paths \<longrightarrow> compatible lemma_name (accepted_spine accepted_prefix) c
          \<longrightarrow> (\<exists>e. checkpoint_projection sha256 c = Inl e))
    | Some s \<Rightarrow>
        (sc_manifest_path s, Loaded (sc_capsule s)) \<in> set paths
        \<and> rc_lemma (sc_capsule s) = lemma_name
        \<and> (\<forall>spine. accepted_spine accepted_prefix = Some spine \<longrightarrow>
             rc_replay_prefix (sc_capsule s) \<noteq> [] \<and> prefix (rc_replay_prefix (sc_capsule s)) spine)
        \<and> checkpoint_projection sha256 (sc_capsule s) = Inr (sc_public s, sc_prefix_text s)
        \<and> (\<forall>path c p. (path, Loaded c) \<in> set paths \<longrightarrow> compatible lemma_name (accepted_spine accepted_prefix) c
             \<longrightarrow> checkpoint_projection sha256 c = Inr p
             \<longrightarrow> tactic_count c < tactic_count (sc_capsule s)
                \<or> tactic_count c = tactic_count (sc_capsule s) \<and> rc_score c \<le> rc_score (sc_capsule s))"
proof -
  let ?acc = "accepted_spine accepted_prefix"
  obtain ss where ss: "checkpoint_candidates sha256 lemma_name ?acc paths = Inr ss"
    and chosen: "chosen = (case ss of [] \<Rightarrow> None | s # rest \<Rightarrow> Some (py_max_by checkpoint_key s rest))"
    using assms by (auto simp: select_resume_checkpoint_def split: sum.splits list.splits)
  note mem = checkpoint_candidates_iff [OF ss]
  have found: "\<exists>s \<in> set ss. sc_capsule s = c"
    if "(path, Loaded c) \<in> set paths" "compatible lemma_name ?acc c" "checkpoint_projection sha256 c = Inr p" for path c p
    using that mem [of "\<lparr>sc_manifest_path = path, sc_capsule = c, sc_public = fst p, sc_prefix_text = snd p\<rparr>"] by force
  show ?thesis
  proof (cases ss)
    case Nil
    show ?thesis unfolding chosen Nil using found Nil by (simp) (meson sum.exhaust)
  next
    case (Cons s0 rest)
    define s where "s = py_max_by checkpoint_key s0 rest"
    have s: "s \<in> set ss" and best: "\<And>x. x \<in> set ss \<Longrightarrow> checkpoint_key x \<le> checkpoint_key s"
      using py_max_by_max [of checkpoint_key s0 rest] by (auto simp: s_def Cons)
    have "tactic_count c < tactic_count (sc_capsule s)
        \<or> tactic_count c = tactic_count (sc_capsule s) \<and> rc_score c \<le> rc_score (sc_capsule s)"
      if c: "(path, Loaded c) \<in> set paths" "compatible lemma_name ?acc c" "checkpoint_projection sha256 c = Inr p" for path c p
    proof -
      from found [OF c] obtain x where "x \<in> set ss" "sc_capsule x = c" by blast
      with best [of x] show ?thesis by (auto simp: checkpoint_key_def)
    qed
    moreover have "chosen = Some s" by (simp add: chosen Cons s_def)
    moreover have "prefix (rc_replay_prefix (sc_capsule s)) spine \<and> rc_replay_prefix (sc_capsule s) \<noteq> []"
      if "?acc = Some spine" for spine
      using s mem [of s] that by (simp add: compatible_def) (metis take_is_prefix)
    ultimately show ?thesis using s mem [of s] by (simp add: compatible_def)
  qed
qed

text \<open>C24. The checkpoint a capsule is projected to passes the validation of progress capsules: for a goal
  identity of at most 128 characters, and any accepted prefix at least as long (with the same hash
  when it is as long) whose excess is reported as the uncheckpointed tail, every check on the
  checkpoint succeeds. The digest is only assumed to give 64 hexadecimal digits.\<close>

theorem projected_checkpoint_validates:
  assumes "checkpoint_projection sha256 c = Inr (public, spine_text)"
    and "\<And>t. hex64 (sha256 t)" and "length (rc_current_goal_hash c) \<le> 128"
    and "jget a ''tactic_count'' = JInt n" and "int (tactic_count c) \<le> n"
    and "n = int (tactic_count c) \<Longrightarrow> jget a ''sha256'' = JStr (sha256 spine_text)"
  shows "checkpoint_check (JObj public) (JObj a)
      (if n = int (tactic_count c) then JNull else JInt (n - int (tactic_count c))) = None"
proof -
  have parts: "public = dict_set ''checkpoint_id'' (JStr (canonical_json_sha256 sha256 (checkpoint_body sha256 c)))
      (checkpoint_body sha256 c)" "spine_text = prefix_text c" "0 < tactic_count c" "rc_current_goal_hash c \<noteq> []"
    using assms(1) by (auto simp: checkpoint_projection_def split: if_splits)
  have body: "jget (checkpoint_body sha256 c) k = (if k = ''boundary_rejection'' then
        (if boundary_rejection c = [] then JNull else JObj (boundary_rejection c))
      else jget (take 7 (checkpoint_body sha256 c)) k)" for k
    by (simp add: checkpoint_body_def jget_append dict_keys_def) (simp add: jget_def dict_get_def)
  have head: "checkpoint_head_check (JObj public) = None"
    using parts(3) assms(2)
    by (simp add: checkpoint_head_check_def parts(1) jget_set body)
       (simp add: checkpoint_body_def jget_def dict_get_def py_eq_int_def py_is_int_def py_is_dict_def canonical_json_sha256_def)
  have goal: "goal_check (jget public ''goal'') = None"
    using parts(4) assms(3)
    by (simp add: goal_check_def parts(1) jget_set body)
       (simp add: checkpoint_body_def jget_def dict_get_def py_is_str_def py_is_dict_def GOAL_PREVIEW_MAX_CHARS_def)
  have count: "jget public ''tactic_count'' = JInt (int (tactic_count c))"
    "jget public ''accepted_prefix_sha256'' = JStr (sha256 spine_text)"
    by (simp_all add: parts(1,2) jget_set body) (simp_all add: checkpoint_body_def jget_def dict_get_def)
  have bind: "binding_check public (JObj a) (if n = int (tactic_count c) then JNull else JInt (n - int (tactic_count c))) = None"
    using assms(4-6) by (simp add: binding_check_def count Let_def tail_absent_def hashable_def py_eq_int_def)
  have "rejection_check (jget public ''boundary_rejection'') = None"
  proof (cases "boundary_rejection c = []")
    case True
    then show ?thesis by (simp add: rejection_check_def parts(1) jget_set body)
  next
    case False
    then obtain item where item: "boundary_rejection c = rejection_of item"
      "str_or_empty (jget item ''status'') \<in> set [''rejected'', ''no_progress'']"
      by (auto simp: boundary_rejection_def find_Some_iff split: option.splits)
    then show ?thesis
      using False by (simp add: rejection_check_def parts(1) jget_set body)
        (auto simp: rejection_of_def Let_def jget_def dict_get_def py_is_dict_def py_is_str_def raise_unless_in_def hashable_def)
  qed
  with head goal bind show ?thesis by (simp add: checkpoint_check_def Let_def)
qed

text \<open>Rebinding a capsule to a new target keeps the proof state: it succeeds only for the capsule whose
  projection has the expected checkpoint id and a note of at most 8000 characters, changes in the
  manifest nothing but the target file, the continuation entry and, for a note that is not blank,
  the handoff notes, to which it appends the briefing.\<close>

lemma rebind_keeps_replay:
  assumes "rebind_resume_capsule sha256 loaded data target_file parent checkpoint_id note = Inr d'"
  shows "\<exists>c public t d target.
      loaded = Inr c \<and> checkpoint_projection sha256 c = Inr (public, t) \<and> jget public ''checkpoint_id'' = JStr checkpoint_id
      \<and> data = JObj d \<and> jget d ''target'' = JObj target
      \<and> length (py_strip note) \<le> CONTINUATION_NOTE_MAX_CHARS
      \<and> jget d' ''target'' = JObj (dict_set ''file'' (JStr target_file) target)
      \<and> jget d' ''interleaved_continuation'' = continuation_entry sha256 parent checkpoint_id (py_strip note)
      \<and> (\<forall>k. k \<noteq> ''target'' \<and> k \<noteq> ''handoff'' \<and> k \<noteq> ''interleaved_continuation'' \<longrightarrow> jget d' k = jget d k)
      \<and> (if py_strip note = [] then jget d' ''handoff'' = jget d ''handoff''
         else \<exists>h. jget d ''handoff'' = JObj h
           \<and> jget d' ''handoff'' = JObj (dict_set ''notes''
               (JList (json_list (jget h ''notes'') @ [JStr (BRIEFING_HEADER @ py_strip note)])) h))"
proof -
  obtain c public t d target where r: "loaded = Inr c" "checkpoint_projection sha256 c = Inr (public, t)"
    "jget public ''checkpoint_id'' = JStr checkpoint_id" "data = JObj d" "jget d ''target'' = JObj target"
    "\<not> CONTINUATION_NOTE_MAX_CHARS < length (py_strip note)"
    "map_sum id (dict_set ''interleaved_continuation'' (continuation_entry sha256 parent checkpoint_id (py_strip note)))
       (with_note (py_strip note) (dict_set ''target'' (JObj (dict_set ''file'' (JStr target_file) target)) d)) = Inr d'"
    using assms by (auto simp: rebind_resume_capsule_def Let_def split: sum.splits if_splits json.splits)
  define d1 where "d1 = dict_set ''target'' (JObj (dict_set ''file'' (JStr target_file) target)) d"
  obtain d2 where d2: "with_note (py_strip note) d1 = Inr d2"
    and d': "d' = dict_set ''interleaved_continuation'' (continuation_entry sha256 parent checkpoint_id (py_strip note)) d2"
    using r(7) unfolding d1_def [symmetric] by (cases "with_note (py_strip note) d1") auto
  have "if py_strip note = [] then d2 = d1 else \<exists>h. jget d ''handoff'' = JObj h
      \<and> d2 = dict_set ''handoff'' (JObj (dict_set ''notes''
           (JList (json_list (jget h ''notes'') @ [JStr (BRIEFING_HEADER @ py_strip note)])) h)) d1"
    using d2 by (auto simp: with_note_def Let_def d1_def jget_set split: if_splits json.splits)
  then show ?thesis
    using r(1-6) by (intro exI [of _ c] exI [of _ public] exI [of _ t] exI [of _ d] exI [of _ target])
      (auto simp: d' d1_def jget_set split: if_splits)
qed

subsection \<open>Sample capsule\<close>

definition sample_resume :: resume_capsule where
  "sample_resume =
     \<lparr>rc_path = ''/r/resume.json'', rc_target_file = ''T.ec'', rc_lemma = ''foo'', rc_include_dir = [], rc_commit = [],
      rc_session_name = ''n'', rc_replay_prefix = [''move.''], rc_replay_transactions = [''move.''],
      rc_current_goal_hash = ''g1'', rc_proof_status = ''open'', rc_goal_identity_required = True,
      rc_current_goal_preview = ''x = x'', rc_current_goal_path = [], rc_score = 3, rc_reasons = [],
      rc_handoff_notes = [], rc_recent_tactics = [[(''status'', JStr ''rejected''), (''tactic'', JStr ''smt().'')]],
      rc_route_family = [], rc_resume_diversity = JObj [], rc_resume_prefix_count = 0, rc_resume_context = JObj [],
      rc_recorded_tactic_count = 1\<rparr>"

lemma sample_projects:
  "\<exists>public. checkpoint_projection sample_sha sample_resume = Inr (public, ''move.'' @ [newline])"
  by (simp add: checkpoint_projection_def sample_resume_def prefix_text_def tactic_count_def)

theorem select_resume_checkpoint_best_witness:
  "\<exists>s. select_resume_checkpoint sample_sha [(''a'', Load_Caught), (''b'', Loaded sample_resume)] ''foo''
        (Some [JStr ''move.'', JStr ''auto.'']) = Inr (Some s)
     \<and> prefix (rc_replay_prefix (sc_capsule s)) [''move.'', ''auto.'']"
proof -
  let ?acc = "Some [JStr ''move.'', JStr ''auto.'']"
  have spine: "accepted_spine ?acc = Some [''move.'', ''auto.'']" by code_simp
  have c: "compatible ''foo'' (Some [''move.'', ''auto.'']) sample_resume" by code_simp
  obtain public where "checkpoint_projection sample_sha sample_resume = Inr (public, ''move.'' @ [newline])"
    using sample_projects by blast
  with spine c obtain s where s: "select_resume_checkpoint sample_sha
      [(''a'', Load_Caught), (''b'', Loaded sample_resume)] ''foo'' ?acc = Inr (Some s)"
    by (simp add: select_resume_checkpoint_def Let_def)
  have "prefix (rc_replay_prefix (sc_capsule s)) [''move.'', ''auto.'']"
    using select_resume_checkpoint_best [OF s] spine unfolding option.case by blast
  with s show ?thesis by blast
qed

theorem projected_checkpoint_validates_witness:
  "\<exists>public. checkpoint_check (JObj public) (JObj [(''tactic_count'', JInt 3)]) (JInt 2) = None"
proof -
  obtain public where p: "checkpoint_projection sample_sha sample_resume = Inr (public, ''move.'' @ [newline])"
    using sample_projects by blast
  have hex: "hex64 (sample_sha t)" for t by (simp add: hex64_def sample_sha_def list_all_iff) code_simp
  have one: "tactic_count sample_resume = 1" by code_simp
  have "checkpoint_check (JObj public) (JObj [(''tactic_count'', JInt 3)])
      (if 3 = int (tactic_count sample_resume) then JNull else JInt (3 - int (tactic_count sample_resume))) = None"
    by (rule projected_checkpoint_validates [OF p hex])
       (simp_all add: one, simp_all add: sample_resume_def jget_def dict_get_def)
  then show ?thesis by (auto simp: one)
qed

end
