(* ===== verification/Worker_Result.thy ===== *)
theory Worker_Result
  imports Resume_Contract
begin

text \<open>
  How a worker of \<open>workflow/interleaved/jobs.py\<close> turns the wrapper's result file into the record
  that finalizes its job (\<open>_worker_result\<close>), the invocation receipt it is checked against, the
  provider identity of \<open>workflow/interleaved/agent_config.py\<close>, and the delegation boundary a
  submission has to respect (\<open>_lemma_claim_projection\<close>, \<open>_require_outer_decomposition_boundary\<close>).

  The file system is an argument: the wrapper's JSON object, the resolution of the checkpoint
  artifact's path, and the proved target. A method called on a value of the wrong shape raises
  \<open>AttributeError\<close> or \<open>TypeError\<close>, both \<^const>\<open>RegTypeError\<close> here.
\<close>

section \<open>Provider identity\<close>

definition PROVIDER_IDENTITY_FIELDS :: "str list" where
  "PROVIDER_IDENTITY_FIELDS = [''agent_backend'', ''model'', ''binary_sha256'', ''version'']"

definition provider_identity_projection :: "(str \<times> json) list \<Rightarrow> reg_error + (str \<times> str) list" where
  "provider_identity_projection value =
     (let identity = map (\<lambda>f. (f, str_or_empty (jget value f))) PROVIDER_IDENTITY_FIELDS in
      if list_ex (\<lambda>fv. snd fv = []) identity
      then Inl (RegValueError ''provider identity has an empty required field'')
      else Inr identity)"

definition provider_identity_sha256 :: "(str \<Rightarrow> str) \<Rightarrow> (str \<times> json) list \<Rightarrow> reg_error + str" where
  "provider_identity_sha256 sha256 value =
     map_sum id (\<lambda>identity. sha256 (json_dumps True (JObj (map (map_prod id JStr) identity))))
       (provider_identity_projection value)"

text \<open>The identity of the environment variable, as parsed (\<open>None\<close> when it is no JSON), against the
  selected profile.\<close>

definition expected_provider_identity ::
  "json option \<Rightarrow> str \<Rightarrow> str \<Rightarrow> reg_error + (str \<times> str) list" where
  "expected_provider_identity raw backend model =
     (case raw of
        None \<Rightarrow> Inl (RegValueError ''fixed inner provider identity is invalid JSON'')
      | Some (JObj value) \<Rightarrow>
          (case provider_identity_projection value of
             Inl e \<Rightarrow> Inl e
           | Inr identity \<Rightarrow>
               if map_of identity ''agent_backend'' \<noteq> Some backend \<or> map_of identity ''model'' \<noteq> Some model
               then Inl (RegValueError ''selected inner provider identity does not match its profile'')
               else Inr identity)
      | Some _ \<Rightarrow> Inl (RegValueError ''fixed inner provider identity must be a JSON object''))"

section \<open>Invocation receipt\<close>

definition INVOCATION_RECEIPT_KIND :: str where
  "INVOCATION_RECEIPT_KIND = ''interleaved_shannon_invocation_receipt''"
definition INVOCATION_RECEIPT_SCHEMA_VERSION :: int where "INVOCATION_RECEIPT_SCHEMA_VERSION = 3"

definition receipt_body :: "job_record \<Rightarrow> str \<Rightarrow> json \<Rightarrow> (str \<times> json) list" where
  "receipt_body r run_rel target_sha256 =
     [(''schema_version'', JInt INVOCATION_RECEIPT_SCHEMA_VERSION), (''kind'', JStr INVOCATION_RECEIPT_KIND),
      (''job_id'', attr r ''job_id''), (''run_directory'', JStr run_rel), (''lemma'', attr r ''lemma''),
      (''timeout_minutes'', attr r ''timeout_minutes''), (''source_commit'', attr r ''source_commit''),
      (''target_sha256'', target_sha256), (''agent_profiles_sha256'', attr r ''agent_profiles_sha256''),
      (''inner_profile_sha256'', attr r ''inner_profile_sha256''), (''inner_agent'', attr r ''inner_agent''),
      (''expected_provider_identity'', attr r ''expected_provider_identity''),
      (''has_resource_anchors'', JBool (py_truthy (attr r ''has_resource_anchors''))),
      (''resource_anchors_sha256'', JStr (str_or_empty (attr r ''resource_anchors_sha256''))),
      (''has_resume_checkpoint'', JBool (py_truthy (attr r ''resume_from_job_id''))),
      (''resume_from_job_id'', JStr (str_or_empty (attr r ''resume_from_job_id''))),
      (''resume_from_run_directory'', JStr (str_or_empty (attr r ''resume_from_run_directory''))),
      (''resume_checkpoint_id'', JStr (str_or_empty (attr r ''resume_checkpoint_id''))),
      (''resume_checkpoint_directory_sha256'', JStr (str_or_empty (attr r ''resume_checkpoint_directory_sha256''))),
      (''has_continuation_note'', JBool (py_truthy (attr r ''has_continuation_note''))),
      (''continuation_note_sha256'', JStr (str_or_empty (attr r ''continuation_note_sha256'')))]"

text \<open>\<open>None\<close> when the record has no source contract with a target hash: the subscript raises.\<close>

definition invocation_receipt :: "(str \<Rightarrow> str) \<Rightarrow> job_record \<Rightarrow> str \<Rightarrow> (str \<times> json) list option" where
  "invocation_receipt sha256 r run_rel =
     (case attr r ''source_contract'' of
        JObj contract \<Rightarrow>
          map_option (\<lambda>target_sha256.
              dict_set ''content_sha256'' (JStr (canonical_json_sha256 sha256 (receipt_body r run_rel target_sha256)))
                (receipt_body r run_rel target_sha256)) (dict_get contract ''target_sha256'')
      | _ \<Rightarrow> None)"

section \<open>The delegation boundary\<close>

text \<open>\<open>content.find(needle, start)\<close>.\<close>

definition find_from :: "str \<Rightarrow> str \<Rightarrow> nat \<Rightarrow> nat option" where
  "find_from needle t start = find (\<lambda>i. starts_at needle t i) [start ..< Suc (length t)]"

definition AMP_NAME_RE :: re where
  "AMP_NAME_RE = Seqs [Lit ''&'', Cls (\<lambda>c. is_alpha c \<or> c = CHR ''_''),
     Star (Cls (\<lambda>c. is_alpha c \<or> is_digit c \<or> c = CHR ''_'' \<or> c = quote_char))]"

definition lemma_claim_projection :: "str \<Rightarrow> str \<Rightarrow> reg_error + str" where
  "lemma_claim_projection content lemma_name =
     (case (lemma_decl_matches content lemma_name, find_target_proof_block content lemma_name) of
        ([(_, name_end, _)], Some (proof_start, _)) \<Rightarrow>
          if proof_start \<le> name_end
          then Inl (RegValueError (''could not project the unique claim for '' @ lemma_name))
          else Inr (py_strip (re_sub (Plus (Cls py_isspace)) '' ''
                      (re_sub AMP_NAME_RE ''&MEM'' (py_slice content name_end proof_start))))
      | _ \<Rightarrow> Inl (RegValueError (''could not project the unique claim for '' @ lemma_name)))"

text \<open>The configured region: the final lemma and the two markers (empty when not configured).\<close>

definition delegation_region :: "str \<Rightarrow> str \<Rightarrow> str \<Rightarrow> str option" where
  "delegation_region content region_begin region_end =
     (if region_begin = [] then Some content
      else case find_from region_begin content 0 of
             None \<Rightarrow> None
           | Some b \<Rightarrow>
               map_option (\<lambda>e. py_slice content (b + length region_begin) e)
                 (find_from region_end content (b + length region_begin)))"

definition require_outer_decomposition_boundary ::
  "str \<Rightarrow> str \<Rightarrow> str \<Rightarrow> str \<Rightarrow> str \<Rightarrow> reg_error + unit" where
  "require_outer_decomposition_boundary final_lemma region_begin region_end content lemma_name =
     (if lemma_name = final_lemma
      then Inl (RegValueError (''final target '' @ final_lemma @ '' cannot be delegated to Shannon; ''
             @ ''decompose it into a scratchpad helper lemma first''))
      else case delegation_region content region_begin region_end of
        None \<Rightarrow> Inl (RegValueError ''configured delegation region markers are missing'')
      | Some region \<Rightarrow>
          if length (lemma_decl_matches region lemma_name) \<noteq> 1
          then Inl (RegValueError (''Shannon target must be exactly one outer-defined helper lemma in ''
                 @ ''the configured delegation region''))
          else (case lemma_claim_projection content lemma_name of
                  Inl e \<Rightarrow> Inl e
                | Inr claim \<Rightarrow>
                    (case lemma_claim_projection content final_lemma of
                       Inl e \<Rightarrow> Inl e
                     | Inr final_claim \<Rightarrow>
                         if claim = final_claim
                         then Inl (RegValueError (''scratchpad helper claim duplicates final target '' @ final_lemma
                                @ ''; decompose a proper subclaim before invoking Shannon''))
                         else Inr ())))"

section \<open>The wrapper's result\<close>

definition WRAPPER_EXIT_CODES :: "job_status \<Rightarrow> int" where
  "WRAPPER_EXIT_CODES s = (case s of VERIFIED \<Rightarrow> 0 | INCOMPLETE \<Rightarrow> 10 | _ \<Rightarrow> 20)"

text \<open>The checkpoint artifact at a relative path below the wrapper's directory: what resolving the
  path gives.\<close>

record artifact =
  art_name :: str
  art_is_file :: bool
  art_in_output_root :: bool
  art_relative_to_lane :: str
  art_capsule :: "reg_error + resume_capsule"
  art_directory_sha256 :: "reg_error + str"

record lane_world =
  lw_artifact :: "str \<Rightarrow> artifact"
  lw_answer_visible :: bool
  lw_proved :: "reg_error + str"

definition wrapper_status :: "(str \<times> json) list \<Rightarrow> job_status option" where
  "wrapper_status wrapper =
     find (\<lambda>s. status_value s = str_or_empty (jget wrapper ''status'')) RESULT_STATUSES"

definition wrapper_identity_check :: "job_record \<Rightarrow> (str \<times> json) list \<Rightarrow> int \<Rightarrow> check" where
  "wrapper_identity_check r wrapper exit_code =
     first_error
       [raise_if (jget wrapper ''kind'' \<noteq> JStr ''interleaved_shannon_wrapper_result'')
          ''worker received an invalid Shannon wrapper result'',
        raise_if (\<not> py_eq (jget wrapper ''invocation_id'') (attr r ''job_id'')
            \<or> jget wrapper ''lemma'' \<noteq> JStr (py_str (attr r ''lemma'')))
          ''Shannon wrapper result identity mismatch'',
        raise_if (\<not> py_eq (jget wrapper ''inner_provider'') (attr r ''inner_provider'')
            \<or> \<not> py_eq (jget wrapper ''inner_model'') (attr r ''inner_model'')
            \<or> \<not> py_eq (jget wrapper ''inner_effort'') (attr r ''inner_effort''))
          ''Shannon wrapper inner-agent configuration mismatch'',
        raise_if (\<not> py_eq (jget wrapper ''invocation_receipt_sha256'') (attr r ''invocation_receipt_sha256''))
          ''Shannon wrapper invocation receipt mismatch'',
        (case wrapper_status wrapper of
           None \<Rightarrow> Some (RegValueError (''unsupported Shannon wrapper status: '' @ str_or_empty (jget wrapper ''status'')))
         | Some s \<Rightarrow> raise_if (exit_code \<noteq> WRAPPER_EXIT_CODES s)
                        ''Shannon wrapper shell status does not match its canonical result'')]"

definition runtime_evidence_present :: "(str \<times> json) list \<Rightarrow> bool" where
  "runtime_evidence_present wrapper \<longleftrightarrow>
     list_ex (\<lambda>k. py_truthy (jget wrapper k))
       [''provider_identity'', ''eval_source_boundary'', ''provider_identity_sha256'',
        ''eval_source_manifest_sha256'', ''prover_result_id'']"

definition same_identity_check :: "json \<Rightarrow> json \<Rightarrow> check" where
  "same_identity_check actual expected =
     (case actual of
        JObj a \<Rightarrow>
          (case provider_identity_projection a of
             Inl e \<Rightarrow> Some e
           | Inr pa \<Rightarrow>
               (case py_or expected (JObj []) of
                  JObj e \<Rightarrow>
                    (case provider_identity_projection e of
                       Inl err \<Rightarrow> Some err
                     | Inr pe \<Rightarrow> raise_if (pa \<noteq> pe) ''Shannon wrapper actual provider identity mismatch'')
                | _ \<Rightarrow> Some RegTypeError))
      | _ \<Rightarrow> Some (RegValueError ''Shannon wrapper actual provider identity mismatch''))"

definition evidence_check :: "job_record \<Rightarrow> (str \<times> json) list \<Rightarrow> check" where
  "evidence_check r wrapper =
     (let boundary = jget wrapper ''eval_source_boundary''; b = json_dict boundary;
          expected = str_or_empty (attr r ''expected_provider_identity_sha256'')
      in first_error
        [same_identity_check (jget wrapper ''provider_identity'') (attr r ''expected_provider_identity''),
         raise_if (\<not> py_is_dict boundary
             \<or> jget b ''kind'' \<noteq> JStr ''interleaved_shannon_source_boundary''
             \<or> jget b ''source_contract'' \<noteq> JStr ''proof_stripped_project''
             \<or> \<not> py_eq (jget b ''source_manifest_sha256'') (jget wrapper ''eval_source_manifest_sha256'')
             \<or> list_ex (\<lambda>k. jget b k \<noteq> JBool False)
                 [''answer_source_visible_before'', ''answer_source_visible_during'', ''answer_source_visible_after''])
           ''Shannon wrapper lacks valid eval source-boundary evidence'',
         raise_if (\<not> list_all (\<lambda>k. py_is_str (jget wrapper k) \<and> py_truthy (jget wrapper k))
                     [''provider_identity_sha256'', ''eval_source_manifest_sha256''])
           ''Shannon wrapper lacks canonical identity hashes'',
         raise_if (expected = [] \<or> jget wrapper ''provider_identity_sha256'' \<noteq> JStr expected)
           ''Shannon wrapper provider identity fingerprint mismatch''])"

definition wrapper_progress ::
  "(str \<Rightarrow> str) \<Rightarrow> job_status \<Rightarrow> str \<Rightarrow> (str \<times> json) list \<Rightarrow> reg_error + (str \<times> json) list" where
  "wrapper_progress sha256 status lemma_name wrapper =
     (if status \<noteq> VERIFIED \<and> py_is_dict (jget wrapper ''progress'') \<and> py_truthy (jget wrapper ''progress'')
      then validated_progress sha256 (jget wrapper ''progress'') lemma_name (status_value status)
      else Inr [])"

text \<open>\<open>Path(raw).is_absolute()\<close> and \<open>".." in Path(raw).parts\<close>.\<close>

definition unsafe_relative :: "str \<Rightarrow> bool" where
  "unsafe_relative raw \<longleftrightarrow> starts_with ''/'' raw \<or> ''..'' \<in> set (path_parts raw)"

definition checkpoint_fields ::
  "(str \<Rightarrow> str) \<Rightarrow> lane_world \<Rightarrow> (str \<times> json) list \<Rightarrow> (str \<times> json) list \<Rightarrow> reg_error + (str \<times> json) list" where
  "checkpoint_fields sha256 lw wrapper checkpoint =
     (let raw = str_or_empty (jget wrapper ''resume_checkpoint_artifact''); art = lw_artifact lw raw in
      if raw = [] \<or> unsafe_relative raw \<or> art_name art \<noteq> ''resume.json'' \<or> \<not> art_is_file art
         \<or> \<not> art_in_output_root art
      then Inl (RegValueError ''Shannon checkpoint artifact is unavailable'')
      else case art_capsule art of
        Inl e \<Rightarrow> Inl e
      | Inr loaded \<Rightarrow>
          (case checkpoint_projection sha256 loaded of
             Inl e \<Rightarrow> Inl e
           | Inr (projected, spine_text) \<Rightarrow>
               if \<not> py_eq (jget projected ''checkpoint_id'') (jget checkpoint ''checkpoint_id'')
                  \<or> \<not> py_eq (jget projected ''tactic_count'') (jget checkpoint ''tactic_count'')
                  \<or> jget checkpoint ''accepted_prefix_sha256'' \<noteq> JStr (sha256 spine_text)
               then Inl (RegValueError ''Shannon checkpoint artifact identity mismatch'')
               else map_sum id (\<lambda>directory.
                      [(''resume_checkpoint_artifact'', JStr (''lane_run_artifacts/'' @ art_relative_to_lane art)),
                       (''resume_checkpoint_id'', JStr (py_str (jget checkpoint ''checkpoint_id''))),
                       (''resume_checkpoint_directory_sha256'', JStr directory)]) (art_directory_sha256 art)))"

text \<open>The items of a value in a \<open>for\<close>: a list's items, a text's characters, a dict's keys.\<close>

definition iter_items :: "json \<Rightarrow> json list option" where
  "iter_items j =
     (case j of JList js \<Rightarrow> Some js | JStr t \<Rightarrow> Some (map (\<lambda>c. JStr [c]) t)
      | JObj d \<Rightarrow> Some (map (\<lambda>k. JStr k) (dict_keys d)) | _ \<Rightarrow> None)"

definition infrastructure_errors :: "job_status \<Rightarrow> (str \<times> json) list \<Rightarrow> reg_error + str list" where
  "infrastructure_errors status wrapper =
     (case iter_items (py_or (jget wrapper ''infrastructure_errors'') (JList [])) of
        None \<Rightarrow> Inl RegTypeError
      | Some items \<Rightarrow>
          (let errors = filter (\<lambda>t. t \<noteq> []) (map (\<lambda>j. py_strip (py_str j)) items)
           in Inr (if status = INFRASTRUCTURE_INVALID \<and> errors = [] then [''missing_terminal_failure_reason''] else errors)))"

definition set_attrs :: "(str \<times> json) list \<Rightarrow> job_record \<Rightarrow> job_record" where
  "set_attrs kvs r = foldl (\<lambda>r (n, v). set_attr n v r) r kvs"

definition result_fields ::
  "world \<Rightarrow> lane_world \<Rightarrow> job_status \<Rightarrow> (str \<times> json) list \<Rightarrow> int \<Rightarrow> str list \<Rightarrow> (str \<times> json) list" where
  "result_fields w lw status wrapper exit_code errors =
     [(''finished_at'', JStr (w_now w)), (''wrapper_exit_code'', JInt exit_code),
      (''prover_result_id'', JStr (str_or_empty (jget wrapper ''prover_result_id''))),
      (''actual_provider_identity'', JObj (json_dict (jget wrapper ''provider_identity''))),
      (''actual_provider_identity_sha256'', JStr (str_or_empty (jget wrapper ''provider_identity_sha256''))),
      (''eval_source_manifest_sha256'', JStr (str_or_empty (jget wrapper ''eval_source_manifest_sha256''))),
      (''error'', JStr (py_join ''; '' errors)),
      (''failure_class'', JStr (if status = INFRASTRUCTURE_INVALID
         then py_str (py_or (jget wrapper ''failure_class'') (JStr ''wrapper_infrastructure_invalid'')) else [])),
      (''failure_message'', JStr (take 4000 (py_str (py_or (jget wrapper ''failure_message'') (JStr (py_join ''; '' errors)))))),
      (''answer_source_visible_after'', JBool (lw_answer_visible lw))]"

text \<open>The evidence of a verified result: the bytes written to \<open>proved_candidate.ec\<close>, if that line is
  reached, and the record with the contract of the proved text.\<close>

definition verified_result ::
  "world \<Rightarrow> lane_world \<Rightarrow> str \<Rightarrow> job_record \<Rightarrow> str option \<times> (reg_error + job_record)" where
  "verified_result w lw lemma_name result =
     (case lw_proved lw of
        Inl e \<Rightarrow> (None, Inl e)
      | Inr proved \<Rightarrow>
          (case proof_body_span proved lemma_name of
             Inl (SourceValueError e) \<Rightarrow> (None, Inl (RegValueError e))
           | Inr (body, _) \<Rightarrow>
               if unchecked_proof_constructs body \<noteq> []
               then (None, Inl (RegValueError ''verified Shannon result still contains admit''))
               else (Some proved, map_sum id (\<lambda>contract.
                       set_attrs [(''proved_source_contract'', JObj contract),
                                  (''proved_proof_body_sha256'', JStr (w_sha256 w body))] result)
                     (lift_source (source_contract w proved lemma_name)))))"

definition worker_record ::
  "world \<Rightarrow> lane_world \<Rightarrow> job_record \<Rightarrow> (str \<times> json) list \<Rightarrow> int \<Rightarrow> job_status \<Rightarrow> reg_error + job_record" where
  "worker_record w lw r wrapper exit_code status =
     (case (if status \<noteq> INFRASTRUCTURE_INVALID \<or> runtime_evidence_present wrapper then evidence_check r wrapper else None) of
        Some e \<Rightarrow> Inl e
      | None \<Rightarrow>
        (case wrapper_progress (w_sha256 w) status (py_str (attr r ''lemma'')) wrapper of
           Inl e \<Rightarrow> Inl e
         | Inr progress \<Rightarrow>
           (case (case jget progress ''checkpoint'' of
                    JObj checkpoint \<Rightarrow> checkpoint_fields (w_sha256 w) lw wrapper checkpoint | _ \<Rightarrow> Inr []) of
              Inl e \<Rightarrow> Inl e
            | Inr resume_fields \<Rightarrow>
              (case infrastructure_errors status wrapper of
                 Inl e \<Rightarrow> Inl e
               | Inr errors \<Rightarrow>
                   Inr (set_attrs (result_fields w lw status wrapper exit_code errors @ resume_fields
                          @ (if progress = [] then [] else [(''progress'', JObj progress)]))
                        (r\<lparr>jr_status := status\<rparr>))))))"

definition worker_result ::
  "world \<Rightarrow> lane_world \<Rightarrow> job_record \<Rightarrow> reg_error + (str \<times> json) list \<Rightarrow> int \<Rightarrow> str option \<times> (reg_error + job_record)" where
  "worker_result w lw r wrapper_file exit_code =
     (case wrapper_file of
        Inl e \<Rightarrow> (None, Inl e)
      | Inr wrapper \<Rightarrow>
        (case (wrapper_identity_check r wrapper exit_code, wrapper_status wrapper) of
           (None, Some status) \<Rightarrow>
             (case worker_record w lw r wrapper exit_code status of
                Inl e \<Rightarrow> (None, Inl e)
              | Inr result \<Rightarrow>
                  if lw_answer_visible lw
                  then (None, Inl (RegValueError ''answer-bearing source remained visible after Shannon''))
                  else if status = VERIFIED then verified_result w lw (py_str (attr r ''lemma'')) result
                  else (None, Inr result))
         | (Some e, _) \<Rightarrow> (None, Inl e)
         | (None, None) \<Rightarrow> (None, Inl RegTypeError)))"

section \<open>Records built from a result\<close>

definition RESULT_ATTRS :: "str list" where
  "RESULT_ATTRS = [''finished_at'', ''wrapper_exit_code'', ''prover_result_id'', ''actual_provider_identity'',
     ''actual_provider_identity_sha256'', ''eval_source_manifest_sha256'', ''error'', ''failure_class'',
     ''failure_message'', ''answer_source_visible_after'', ''progress'', ''resume_checkpoint_artifact'',
     ''resume_checkpoint_id'', ''resume_checkpoint_directory_sha256'', ''proved_source_contract'',
     ''proved_proof_body_sha256'']"

lemma result_attrs_names: "set RESULT_ATTRS \<subseteq> set ATTR_NAMES - {''job_id'', ''schema_version'', ''lemma''}"
  by (simp add: RESULT_ATTRS_def ATTR_NAMES_def FIELD_NAMES_def)

lemma set_attrs_simps [simp]:
  "set_attrs [] r = r" "set_attrs ((n, v) # kvs) r = set_attrs kvs (set_attr n v r)"
  "set_attrs (xs @ ys) r = set_attrs ys (set_attrs xs r)"
  by (simp_all add: set_attrs_def)

text \<open>What setting result attributes keeps.\<close>

definition result_of :: "job_record \<Rightarrow> job_record \<Rightarrow> bool" where
  "result_of r res \<longleftrightarrow>
     (job_record_wf r \<longrightarrow> job_record_wf res) \<and> jr_status res = jr_status r \<and> job_id_of res = job_id_of r
     \<and> jr_extra res = jr_extra r \<and> (\<forall>n. n \<notin> set RESULT_ATTRS \<longrightarrow> attr res n = attr r n)"

lemma result_of_set_attr: "n \<in> set RESULT_ATTRS \<Longrightarrow> result_of r (set_attr n v r)"
  using result_attrs_names by (auto simp: result_of_def wf_set_attr) (auto simp: set_attr_def)

lemma result_of_trans: "result_of r s \<Longrightarrow> result_of s t \<Longrightarrow> result_of r t"
  by (auto simp: result_of_def)

lemma result_of_set_attrs: "fst ` set kvs \<subseteq> set RESULT_ATTRS \<Longrightarrow> result_of r (set_attrs kvs r)"
proof (induction kvs arbitrary: r)
  case Nil
  then show ?case by (simp add: result_of_def)
next
  case (Cons kv kvs)
  obtain n v where kv: "kv = (n, v)" by (cases kv)
  with Cons have "result_of r (set_attr n v r)" "result_of (set_attr n v r) (set_attrs kvs (set_attr n v r))"
    by (auto intro: result_of_set_attr)
  then show ?case unfolding kv set_attrs_simps by (rule result_of_trans)
qed

lemma attr_set_attrs:
  "attr (set_attrs kvs r) n = (case map_of (rev kvs) n of Some v \<Rightarrow> v | None \<Rightarrow> attr r n)"
proof (induction kvs rule: rev_induct)
  case (snoc kv kvs)
  then show ?case by (cases kv) (simp split: option.split)
qed simp

lemma checkpoint_fields_keys:
  "checkpoint_fields sha256 lw wrapper checkpoint = Inr resume_fields \<Longrightarrow>
     map fst resume_fields = [''resume_checkpoint_artifact'', ''resume_checkpoint_id'', ''resume_checkpoint_directory_sha256'']"
  by (auto simp: checkpoint_fields_def Let_def map_sum_def split: if_splits sum.splits)

lemma result_fields_keys: "map fst (result_fields w lw status wrapper code errors) = take 10 RESULT_ATTRS"
  by (simp add: result_fields_def RESULT_ATTRS_def)

lemma worker_record_ok:
  assumes "worker_record w lw r wrapper code status = Inr res"
  shows "result_of (r\<lparr>jr_status := status\<rparr>) res" "attr res ''wrapper_exit_code'' = JInt code"
    "\<exists>errors. infrastructure_errors status wrapper = Inr errors \<and> attr res ''error'' = JStr (py_join ''; '' errors)"
proof -
  define resume where "resume progress = (case jget progress ''checkpoint'' of
      JObj checkpoint \<Rightarrow> checkpoint_fields (w_sha256 w) lw wrapper checkpoint | _ \<Rightarrow> Inr [])" for progress
  from assms obtain progress resume_fields errors where
    res: "res = set_attrs (result_fields w lw status wrapper code errors @ resume_fields
        @ (if progress = [] then [] else [(''progress'', JObj progress)])) (r\<lparr>jr_status := status\<rparr>)"
    and part: "resume progress = Inr resume_fields"
    and err: "infrastructure_errors status wrapper = Inr errors"
    unfolding worker_record_def resume_def [symmetric]
    by (auto simp del: set_attrs_simps split: option.splits sum.splits)
  have keys: "map fst resume_fields = []
        \<or> map fst resume_fields = [''resume_checkpoint_artifact'', ''resume_checkpoint_id'', ''resume_checkpoint_directory_sha256'']"
    using part checkpoint_fields_keys by (auto simp: resume_def split: json.splits)
  let ?all = "result_fields w lw status wrapper code errors @ resume_fields
        @ (if progress = [] then [] else [(''progress'', JObj progress)])"
  have all: "map fst ?all = take 10 RESULT_ATTRS @ map fst resume_fields @ (if progress = [] then [] else [''progress''])"
    by (simp add: result_fields_keys)
  then have "set (map fst ?all) \<subseteq> set RESULT_ATTRS"
    using keys by (auto simp: RESULT_ATTRS_def)
  then show "result_of (r\<lparr>jr_status := status\<rparr>) res"
    unfolding res by (intro result_of_set_attrs) (simp only: set_map)
  have "n \<notin> set (map fst (resume_fields @ (if progress = [] then [] else [(''progress'', JObj progress)])))"
    if "n = ''wrapper_exit_code'' \<or> n = ''error''" for n
    using keys that by auto
  then have tail: "map_of (rev (resume_fields @ (if progress = [] then [] else [(''progress'', JObj progress)]))) n = None"
    if "n = ''wrapper_exit_code'' \<or> n = ''error''" for n
    using that by (simp add: map_of_eq_None_iff)
  show "attr res ''wrapper_exit_code'' = JInt code"
    "\<exists>errors. infrastructure_errors status wrapper = Inr errors \<and> attr res ''error'' = JStr (py_join ''; '' errors)"
    using tail err unfolding res attr_set_attrs rev_append map_of_append
    by (auto simp: map_add_def result_fields_def)
qed

lemma py_join_ne: "ts \<noteq> [] \<Longrightarrow> list_all (\<lambda>t. t \<noteq> []) ts \<Longrightarrow> py_join sep ts \<noteq> []"
  by (cases "(sep, ts)" rule: py_join.cases) auto

lemma infrastructure_errors_ne:
  "infrastructure_errors INFRASTRUCTURE_INVALID wrapper = Inr errors \<Longrightarrow> py_join ''; '' errors \<noteq> []"
proof (rule py_join_ne)
  assume "infrastructure_errors INFRASTRUCTURE_INVALID wrapper = Inr errors"
  then show "errors \<noteq> []" "list_all (\<lambda>t. t \<noteq> []) errors"
    by (auto simp: infrastructure_errors_def Let_def list_all_iff split: option.splits if_splits)
qed

lemma worker_result_Inr:
  assumes "worker_result w lw r wrapper_file code = (candidate, Inr res)"
  obtains wrapper status rec where "wrapper_file = Inr wrapper" "wrapper_identity_check r wrapper code = None"
    "wrapper_status wrapper = Some status" "worker_record w lw r wrapper code status = Inr rec" "\<not> lw_answer_visible lw"
    "if status = VERIFIED then verified_result w lw (py_str (attr r ''lemma'')) rec = (candidate, Inr res)
     else candidate = None \<and> res = rec"
  using assms unfolding worker_result_def
  by (auto split: sum.splits option.splits if_splits)

lemma verified_result_Inr:
  assumes "verified_result w lw lemma_name rec = (candidate, Inr res)"
  obtains proved body span contract where "lw_proved lw = Inr proved" "proof_body_span proved lemma_name = Inr (body, span)"
    "unchecked_proof_constructs body = []" "candidate = Some proved" "source_contract w proved lemma_name = Inr contract"
    "res = set_attrs [(''proved_source_contract'', JObj contract), (''proved_proof_body_sha256'', JStr (w_sha256 w body))] rec"
proof -
  from assms obtain proved body span where p: "lw_proved lw = Inr proved" "proof_body_span proved lemma_name = Inr (body, span)"
    "unchecked_proof_constructs body = []" "candidate = Some proved"
    "map_sum id (\<lambda>contract. set_attrs [(''proved_source_contract'', JObj contract),
        (''proved_proof_body_sha256'', JStr (w_sha256 w body))] rec) (lift_source (source_contract w proved lemma_name)) = Inr res"
    unfolding verified_result_def by (auto split: sum.splits source_error.splits if_splits)
  from p(5) obtain contract where c: "source_contract w proved lemma_name = Inr contract"
    "res = set_attrs [(''proved_source_contract'', JObj contract), (''proved_proof_body_sha256'', JStr (w_sha256 w body))] rec"
    by (cases "source_contract w proved lemma_name") (auto simp: lift_source_def split: source_error.splits)
  show thesis by (rule that [OF p(1-4) c])
qed
lemma worker_result_of:
  assumes "worker_result w lw r wrapper_file code = (candidate, Inr res)"
  obtains status where "result_of (r\<lparr>jr_status := status\<rparr>) res" "status \<in> set RESULT_STATUSES"
    "code = WRAPPER_EXIT_CODES status"
proof -
  from assms obtain wrapper status rec where d: "wrapper_identity_check r wrapper code = None"
    "wrapper_status wrapper = Some status" "worker_record w lw r wrapper code status = Inr rec"
    "if status = VERIFIED then verified_result w lw (py_str (attr r ''lemma'')) rec = (candidate, Inr res)
     else candidate = None \<and> res = rec"
    by (rule worker_result_Inr)
  have "result_of rec res"
  proof (cases "status = VERIFIED")
    case True
    with d(4) have "verified_result w lw (py_str (attr r ''lemma'')) rec = (candidate, Inr res)" by simp
    then obtain contract body where "res = set_attrs [(''proved_source_contract'', JObj contract),
        (''proved_proof_body_sha256'', JStr (w_sha256 w body))] rec" by (rule verified_result_Inr)
    then show ?thesis by (simp only:) (rule result_of_set_attrs, simp add: RESULT_ATTRS_def)
  next
    case False
    with d(4) show ?thesis by (simp add: result_of_def)
  qed
  with worker_record_ok(1) [OF d(3)] have "result_of (r\<lparr>jr_status := status\<rparr>) res" by (rule result_of_trans)
  moreover have "status \<in> set RESULT_STATUSES" using d(2) by (auto simp: wrapper_status_def find_Some_iff)
  moreover have "code = WRAPPER_EXIT_CODES status" using d(1,2) by (simp add: wrapper_identity_check_def)
  ultimately show ?thesis by (rule that)
qed

section \<open>Finalizing a job with its worker's outcome\<close>

text \<open>The worker keeps the record it built, or none when building it raised.\<close>

definition worker_outcome ::
  "world \<Rightarrow> lane_world \<Rightarrow> job_record \<Rightarrow> reg_error + (str \<times> json) list \<Rightarrow> int \<Rightarrow> job_record option" where
  "worker_outcome w lw r wrapper_file code =
     (case snd (worker_result w lw r wrapper_file code) of Inr res \<Rightarrow> Some res | Inl _ \<Rightarrow> None)"

definition final_status :: "job_record option \<Rightarrow> job_status \<Rightarrow> job_status" where
  "final_status result current =
     (case result of None \<Rightarrow> INFRASTRUCTURE_INVALID
      | Some res \<Rightarrow> if current = CANCELLING then CANCELLED else jr_status res)"

lemma save_job_succeeds:
  assumes wf: "wf_registry g" and r: "job_id_of r = k" and st: "status_at g k = Some s" and ok: "job_id_ok k"
    and tr: "require_transition (Some s) (jr_status r) = Inr ()" and seq: "latest_terminal_sequence g = Inr m"
  shows "\<exists>g' r'. save_job w r g = (g', Inr r')"
proof -
  obtain v stored where "dict_get (reg_jobs g) k = Some v" "read_job v k = Inr stored" "jr_status stored = s"
    using st by (auto simp: status_at_def split: option.splits sum.splits)
  then show ?thesis using r ok tr seq by (auto simp: save_job_def Let_def)
qed

lemma finalized_status:
  "jr_status (finalized_record w result failure cancel_failure code current) =
     final_status result (jr_status current)"
  by (simp add: finalized_record_def final_status_def Let_def split: option.split)

lemma finalized_job_id:
  assumes "job_record_wf current" and "\<And>res. result = Some res \<Longrightarrow> job_id_of res = job_id_of current"
  shows "job_id_of (finalized_record w result failure cancel_failure code current) = job_id_of current"
proof (cases result)
  case None
  then show ?thesis by (simp add: finalized_record_def Let_def split: option.split)
next
  case (Some res)
  have "job_id_of (mark_progress_cancelled (copy_fields RECOVERED_FIELDS res current)) = job_id_of current"
    using copy_fields_ok [OF assms(1) recovered_names, of res] mark_progress_ok by metis
  with Some assms(2) show ?thesis by (simp add: finalized_record_def)
qed

lemma find_from_Some:
  assumes "find_from needle t start = Some i"
  shows "start \<le> i \<and> i \<le> length t \<and> (\<exists>after. drop i t = needle @ after)"
  using assms by (auto simp: find_from_def find_Some_iff starts_at_def starts_with_iff nth_append)

lemma delegation_region_between:
  assumes "delegation_region content region_begin region_end = Some region" "region_begin \<noteq> []"
  shows "\<exists>before after. content = before @ region_begin @ region @ region_end @ after"
proof -
  from assms obtain b e where b: "find_from region_begin content 0 = Some b"
    and e: "find_from region_end content (b + length region_begin) = Some e"
    and region: "region = py_slice content (b + length region_begin) e"
    by (auto simp: delegation_region_def split: option.splits)
  from find_from_Some [OF b] obtain after1 where after1: "drop b content = region_begin @ after1" by blast
  from find_from_Some [OF e] obtain after where "b + length region_begin \<le> e" "drop e content = region_end @ after" by blast
  moreover have "drop (b + length region_begin) content = after1"
    using after1 by (metis append_eq_conv_conj drop_drop add.commute)
  ultimately have "after1 = region @ region_end @ after"
    by (metis region py_slice_def append_take_drop_id drop_drop le_add_diff_inverse add.commute)
  with after1 have "content = take b content @ region_begin @ region @ region_end @ after"
    by (metis append_take_drop_id append_assoc)
  then show ?thesis by blast
qed

section \<open>Properties\<close>

text \<open>C2. A record built from a wrapper's result is what the scheduler's finalization relies on: it is well
  formed, belongs to the job the worker started with, carries one of the three result statuses with
  the exit code of that status, and differs from the starting record only in the result attributes.
  An infrastructure failure always carries an error text. A verified result comes with the proved
  text, whose proof body has no unchecked construct and whose source contract is recorded; no other
  result writes a candidate, and none is built while the answer source is visible.\<close>

theorem worker_result_sound:
  assumes "worker_result w lw r wrapper_file code = (candidate, Inr res)" and "job_record_wf r"
  shows "job_record_wf res \<and> job_id_of res = job_id_of r \<and> jr_status res \<in> set RESULT_STATUSES
    \<and> code = WRAPPER_EXIT_CODES (jr_status res) \<and> jr_extra res = jr_extra r
    \<and> (\<forall>n. n \<notin> set RESULT_ATTRS \<longrightarrow> attr res n = attr r n)
    \<and> \<not> lw_answer_visible lw
    \<and> (jr_status res = INFRASTRUCTURE_INVALID \<longrightarrow> (\<exists>t. t \<noteq> [] \<and> attr res ''error'' = JStr t))
    \<and> (if jr_status res = VERIFIED
       then \<exists>proved body span contract. lw_proved lw = Inr proved \<and> candidate = Some proved
         \<and> proof_body_span proved (py_str (attr r ''lemma'')) = Inr (body, span)
         \<and> unchecked_proof_constructs body = []
         \<and> source_contract w proved (py_str (attr r ''lemma'')) = Inr contract
         \<and> attr res ''proved_source_contract'' = JObj contract
         \<and> attr res ''proved_proof_body_sha256'' = JStr (w_sha256 w body)
       else candidate = None)"
proof -
  obtain status where s: "result_of (r\<lparr>jr_status := status\<rparr>) res" "status \<in> set RESULT_STATUSES"
    "code = WRAPPER_EXIT_CODES status" by (rule worker_result_of [OF assms(1)])
  from assms(1) obtain wrapper st rec where d: "worker_record w lw r wrapper code st = Inr rec"
    "\<not> lw_answer_visible lw" "if st = VERIFIED then verified_result w lw (py_str (attr r ''lemma'')) rec = (candidate, Inr res)
     else candidate = None \<and> res = rec" by (rule worker_result_Inr)
  have rec: "jr_status rec = st" using worker_record_ok(1) [OF d(1)] by (simp add: result_of_def)
  have st: "jr_status res = st"
  proof (cases "st = VERIFIED")
    case True
    with d(3) show ?thesis using rec by (auto elim!: verified_result_Inr)
  next
    case False
    with d(3) rec show ?thesis by simp
  qed
  have basic: "job_record_wf res" "job_id_of res = job_id_of r" "jr_status res = status" "jr_extra res = jr_extra r"
    "\<forall>n. n \<notin> set RESULT_ATTRS \<longrightarrow> attr res n = attr r n"
    using s(1) assms(2) by (simp_all add: result_of_def)
  have err: "jr_status res = INFRASTRUCTURE_INVALID \<longrightarrow> (\<exists>t. t \<noteq> [] \<and> attr res ''error'' = JStr t)"
    using worker_record_ok(3) [OF d(1)] d(3) st infrastructure_errors_ne by auto
  have ver: "if jr_status res = VERIFIED
       then \<exists>proved body span contract. lw_proved lw = Inr proved \<and> candidate = Some proved
         \<and> proof_body_span proved (py_str (attr r ''lemma'')) = Inr (body, span)
         \<and> unchecked_proof_constructs body = []
         \<and> source_contract w proved (py_str (attr r ''lemma'')) = Inr contract
         \<and> attr res ''proved_source_contract'' = JObj contract
         \<and> attr res ''proved_proof_body_sha256'' = JStr (w_sha256 w body)
       else candidate = None"
  proof (cases "st = VERIFIED")
    case True
    with d(3) have v: "verified_result w lw (py_str (attr r ''lemma'')) rec = (candidate, Inr res)" by simp
    then obtain proved body span contract where "lw_proved lw = Inr proved" "candidate = Some proved"
      "proof_body_span proved (py_str (attr r ''lemma'')) = Inr (body, span)" "unchecked_proof_constructs body = []"
      "source_contract w proved (py_str (attr r ''lemma'')) = Inr contract"
      "res = set_attrs [(''proved_source_contract'', JObj contract), (''proved_proof_body_sha256'', JStr (w_sha256 w body))] rec"
      by (rule verified_result_Inr)
    moreover from this have "attr res ''proved_source_contract'' = JObj contract"
      "attr res ''proved_proof_body_sha256'' = JStr (w_sha256 w body)" by simp_all
    ultimately show ?thesis using st True by (simp only: simp_thms if_True) blast
  next
    case False
    with d(3) st show ?thesis by simp
  qed
  show ?thesis using basic s(2,3) d(2) err ver by blast
qed

text \<open>C16. A worker that ends always leaves its job finished. Whatever the wrapper reported, when the job is
  running or being cancelled and the stored sequence numbers are readable, finalizing it with the
  worker's outcome writes a terminal status: the status of the validated result (a cancelled job
  stays cancelled) or an infrastructure failure when the result was refused. No other job changes
  its status and the registry stays well formed.\<close>

theorem worker_end_finishes_job:
  assumes wf: "wf_registry g" and current: "load_job k g = Inr current"
    and active: "jr_status current = RUNNING \<or> jr_status current = CANCELLING"
    and start: "job_record_wf r" "job_id_of r = k" and seq: "latest_terminal_sequence g = Inr m"
  shows "let result = worker_outcome w lw r wrapper_file code;
             final = final_status result (jr_status current);
             g' = fst (finalize_job w k result failure cancel_failure exit_code g)
         in status_at g' = (status_at g)(k := Some final) \<and> final \<in> set TERMINAL_STATUSES \<and> wf_registry g'"
proof -
  define result where "result = worker_outcome w lw r wrapper_file code"
  define final where "final = final_status result (jr_status current)"
  define g' where "g' = fst (finalize_job w k result failure cancel_failure exit_code g)"
  have res: "job_record_wf res \<and> job_id_of res = k \<and> jr_status res \<in> set RESULT_STATUSES" if "result = Some res" for res
  proof -
    obtain candidate where "worker_result w lw r wrapper_file code = (candidate, Inr res)"
      using \<open>result = Some res\<close>
      by (cases "worker_result w lw r wrapper_file code") (auto simp: result_def worker_outcome_def split: sum.splits)
    then obtain status where "result_of (r\<lparr>jr_status := status\<rparr>) res" "status \<in> set RESULT_STATUSES"
      by (rule worker_result_of)
    with start show ?thesis by (auto simp: result_of_def)
  qed
  let ?f = "finalized_record w result failure cancel_failure exit_code current"
  let ?g = "g\<lparr>reg_released := reg_released g @ [k]\<rparr>"
  have c: "job_record_wf current" "job_id_of current = k" "status_at g k = Some (jr_status current)" "job_id_ok k"
    using load_job_ok [OF wf current] by auto
  have st: "jr_status ?f = final" by (simp add: finalized_status final_def)
  have id: "job_id_of ?f = k" using finalized_job_id [OF c(1)] res c(2) by metis
  have wff: "job_record_wf ?f" using finalized_record_ok [OF c(1)] res by blast
  have final: "final \<in> set TERMINAL_STATUSES" "require_transition (Some (jr_status current)) final = Inr ()"
    using res active by (auto simp: final_def final_status_def require_transition_def status_sets split: option.splits)
  have g: "wf_registry ?g" "status_at ?g = status_at g" "latest_terminal_sequence ?g = Inr m" "load_job k ?g = Inr current"
    using wf seq current c(4) by (simp_all add: wf_registry_def latest_terminal_sequence_def load_job_def)
  obtain g1 r1 where save: "save_job w ?f ?g = (g1, Inr r1)"
    using save_job_succeeds [OF g(1) id _ c(4) _ g(3)] c(3) final(2) st g(2) by metis
  have "jr_status current \<in> set ACTIVE_STATUSES" using active by (auto simp: status_sets)
  then have "g' = g1"
    using save g(4) by (simp add: g'_def finalize_job_def bind_op_def release_job_def modify_def lift_op_def ret_def)
  then have "status_at g' = (status_at g)(k := Some final) \<and> final \<in> set TERMINAL_STATUSES \<and> wf_registry g'"
    using saved_ok [OF save_job_saved [OF save] wff g(1)] final(1) g(2) id st by simp
  then show ?thesis by (simp add: Let_def g'_def final_def result_def)
qed

text \<open>C17. A lemma passes the delegation boundary only if it is not the final target, is declared exactly once
  in the delegation region, which is the text between the first begin marker and the next end marker
  when markers are configured, and its claim differs from the final target's after memory names are
  identified and blanks are normalized.\<close>

theorem delegation_boundary_sound:
  assumes "require_outer_decomposition_boundary final_lemma region_begin region_end content lemma_name = Inr ()"
  shows "lemma_name \<noteq> final_lemma
    \<and> (\<exists>region before after claim final_claim.
        (if region_begin = [] then region = content
         else content = before @ region_begin @ region @ region_end @ after)
        \<and> length (lemma_decl_matches region lemma_name) = 1
        \<and> lemma_claim_projection content lemma_name = Inr claim
        \<and> lemma_claim_projection content final_lemma = Inr final_claim \<and> claim \<noteq> final_claim)"
proof -
  obtain region claim final_claim where d: "lemma_name \<noteq> final_lemma"
    "delegation_region content region_begin region_end = Some region"
    "length (lemma_decl_matches region lemma_name) = 1" "lemma_claim_projection content lemma_name = Inr claim"
    "lemma_claim_projection content final_lemma = Inr final_claim" "claim \<noteq> final_claim"
    using assms by (auto simp: require_outer_decomposition_boundary_def split: if_splits option.splits sum.splits)
  have "\<exists>before after. if region_begin = [] then region = content
      else content = before @ region_begin @ region @ region_end @ after"
    using delegation_region_between [OF d(2)] d(2)
    by (cases "region_begin = []") (simp_all add: delegation_region_def)
  with d show ?thesis by blast
qed

subsection \<open>Sample results\<close>

definition sample_lane :: lane_world where
  "sample_lane = \<lparr>lw_artifact = (\<lambda>_. \<lparr>art_name = [], art_is_file = False, art_in_output_root = False,
     art_relative_to_lane = [], art_capsule = Inl RegTypeError, art_directory_sha256 = Inl RegTypeError\<rparr>),
     lw_answer_visible = False, lw_proved = Inl RegTypeError\<rparr>"

definition sample_start :: job_record where
  "sample_start = new_job_record RUNNING
     [(''job_id'', JStr ''0123456789abcdef''), (''schema_version'', JInt 1), (''lemma'', JStr ''foo'')] []"

definition sample_wrapper :: "(str \<times> json) list" where
  "sample_wrapper =
     [(''kind'', JStr ''interleaved_shannon_wrapper_result''), (''invocation_id'', JStr ''0123456789abcdef''),
      (''lemma'', JStr ''foo''), (''status'', JStr ''infrastructure_invalid'')]"

lemma sample_start_wf: "job_record_wf sample_start" "job_id_of sample_start = ''0123456789abcdef''"
  by code_simp+

theorem worker_result_sound_witness:
  "\<exists>res. worker_result sample_world sample_lane sample_start (Inr sample_wrapper) 20 = (None, Inr res)
     \<and> jr_status res = INFRASTRUCTURE_INVALID \<and> (\<exists>t. t \<noteq> [] \<and> attr res ''error'' = JStr t)"
proof -
  have "\<exists>res. worker_result sample_world sample_lane sample_start (Inr sample_wrapper) 20 = (None, Inr res)
      \<and> jr_status res = INFRASTRUCTURE_INVALID"
  proof -
    have ok: "wrapper_identity_check sample_start sample_wrapper 20 = None"
      "wrapper_status sample_wrapper = Some INFRASTRUCTURE_INVALID" "\<not> lw_answer_visible sample_lane"
      by code_simp+
    obtain res where rec: "worker_record sample_world sample_lane sample_start sample_wrapper 20 INFRASTRUCTURE_INVALID = Inr res"
      unfolding worker_record_def
      by (simp add: wrapper_progress_def runtime_evidence_present_def sample_wrapper_def infrastructure_errors_def
          jget_def dict_get_def py_truthy_def py_is_dict_def py_or_def iter_items_def)
    have "jr_status res = INFRASTRUCTURE_INVALID" using worker_record_ok(1) [OF rec] by (simp add: result_of_def)
    with ok rec show ?thesis by (simp add: worker_result_def)
  qed
  then obtain res where res: "worker_result sample_world sample_lane sample_start (Inr sample_wrapper) 20 = (None, Inr res)"
    "jr_status res = INFRASTRUCTURE_INVALID" by blast
  from worker_result_sound [OF res(1) sample_start_wf(1)] res show ?thesis by blast
qed

theorem worker_end_finishes_job_witness:
  "status_at (fst (finalize_job sample_world ''0123456789abcdef''
      (worker_outcome sample_world sample_lane sample_start (Inl RegTypeError) 1) [] [] None running_registry))
    ''0123456789abcdef'' = Some INFRASTRUCTURE_INVALID"
proof -
  have "\<exists>current. load_job ''0123456789abcdef'' running_registry = Inr current \<and> jr_status current = RUNNING"
  proof -
    have "status_at running_registry ''0123456789abcdef'' = Some RUNNING" "job_id_ok ''0123456789abcdef''" by code_simp+
    then show ?thesis by (auto simp: status_at_def load_job_def split: option.splits sum.splits)
  qed
  then obtain current where current: "load_job ''0123456789abcdef'' running_registry = Inr current"
    and run: "jr_status current = RUNNING \<or> jr_status current = CANCELLING" by blast
  have wf: "wf_registry running_registry" by code_simp
  have seq: "latest_terminal_sequence running_registry = Inr 0" by code_simp
  have "final_status (worker_outcome sample_world sample_lane sample_start (Inl RegTypeError) 1) (jr_status current)
      = INFRASTRUCTURE_INVALID"
    by (simp add: worker_outcome_def worker_result_def final_status_def)
  then show ?thesis
    using worker_end_finishes_job [OF wf current run sample_start_wf seq, of sample_world sample_lane "Inl RegTypeError" 1 "[]" "[]" None]
    by (simp add: Let_def)
qed

definition sample_delegation :: str where
  "sample_delegation = ''lemma a:p. proof. qed. lemma b:q. proof. qed.''"

theorem delegation_boundary_sound_witness:
  "\<exists>claim final_claim. lemma_claim_projection sample_delegation ''a'' = Inr claim
     \<and> lemma_claim_projection sample_delegation ''b'' = Inr final_claim \<and> claim \<noteq> final_claim"
proof -
  have "length (lemma_decl_matches sample_delegation ''a'') = 1" by code_simp
  moreover have "lemma_claim_projection sample_delegation ''a'' = Inr '':p.''" by code_simp
  moreover have "lemma_claim_projection sample_delegation ''b'' = Inr '':q.''" by code_simp
  ultimately have "require_outer_decomposition_boundary ''b'' [] [] sample_delegation ''a'' = Inr ()"
    by (simp add: require_outer_decomposition_boundary_def delegation_region_def)
  from delegation_boundary_sound [OF this] show ?thesis by blast
qed

end
