(* ===== verification/Ctx_Respawn.thy ===== *)
theory Ctx_Respawn
  imports Lemma_Decls Py_Json
begin

text \<open>
  \<open>workflow/provider/ctx_respawn.py\<close>, the decision logic of the fresh-context continuation, with
  \<open>env_bool\<close> of \<open>core/env_loader.py\<close>: the environment knobs and their defaults, the token
  watermark detector of one session generation, and the handoff text. The environment is a map
  from names to values. Python's \<open>float(text)\<close> is an argument. The frontier brief's cut mark is
  the one character of the source outside the text model; it is the argument \<open>ellipsis\<close>.
\<close>

type_synonym environ = "str \<Rightarrow> str option"

datatype ctx_error = CtxValueError str | CtxOverflowError

section \<open>Knobs\<close>

definition DEFAULT_WATERMARK_TOKENS :: int where "DEFAULT_WATERMARK_TOKENS = 140000"
definition ONE_M_WINDOW_WATERMARK_TOKENS :: int where "ONE_M_WINDOW_WATERMARK_TOKENS = 400000"
definition ONE_M_WINDOW_MODELS :: "str list" where
  "ONE_M_WINDOW_MODELS =
     [''claude-opus-4-7'', ''claude-opus-4-8'', ''claude-opus-5'', ''claude-opus-5-5'',
      ''claude-sonnet-5'', ''claude-sonnet-5-5'', ''claude-haiku-5-5'', ''claude-fable-5'',
      ''claude-fable-5-1'', ''claude-mythos-5'', ''claude-mythos-5-1'']"
definition DEFAULT_WATERMARK_TURNS :: int where "DEFAULT_WATERMARK_TURNS = 2"
definition DEFAULT_RESPAWN_MAX :: int where "DEFAULT_RESPAWN_MAX = 2"

definition env_int :: "environ \<Rightarrow> str \<Rightarrow> int \<Rightarrow> int" where
  "env_int env name dflt =
     (case env name of
        None \<Rightarrow> dflt
      | Some raw \<Rightarrow>
          if py_strip raw = [] then dflt
          else case int_of_str (py_strip raw) of Some n \<Rightarrow> n | None \<Rightarrow> dflt)"

definition TRUTHY :: "str list" where "TRUTHY = [''1'', ''true'', ''yes'', ''on'']"
definition FALSY :: "str list" where "FALSY = [''0'', ''false'', ''no'', ''off'']"

text \<open>\<open>env_bool\<close>; the message of the error is abbreviated to the name and the value.\<close>

definition env_bool :: "environ \<Rightarrow> str \<Rightarrow> bool \<Rightarrow> bool \<Rightarrow> ctx_error + bool" where
  "env_bool env name dflt strict =
     (case env name of
        None \<Rightarrow> Inr dflt
      | Some raw \<Rightarrow>
          (let v = py_lower (py_strip raw) in
           if v = [] then Inr dflt
           else if v \<in> set TRUTHY then Inr True
           else if v \<in> set FALSY then Inr False
           else if strict then Inl (CtxValueError (''env knob '' @ name @ ''='' @ repr_str raw))
           else Inr dflt))"

text \<open>\<open>re.sub(r"-\d{8}$", "", name)\<close> of a stripped name: it ends in no newline, so the pattern matches
  at the end only.\<close>

definition drop_snapshot_date :: "str \<Rightarrow> str" where
  "drop_snapshot_date name =
     (let cut = length name - 9 in
      if 9 \<le> length name \<and> name ! cut = CHR ''-'' \<and> list_all is_digit (drop (Suc cut) name)
      then take cut name else name)"

definition default_watermark_tokens :: "str option \<Rightarrow> int" where
  "default_watermark_tokens model =
     (let name = py_lower (py_strip (case model of Some m \<Rightarrow> m | None \<Rightarrow> [])) in
      if ends_with ''[1m]'' name then ONE_M_WINDOW_WATERMARK_TOKENS
      else if drop_snapshot_date name \<in> set ONE_M_WINDOW_MODELS then ONE_M_WINDOW_WATERMARK_TOKENS
      else DEFAULT_WATERMARK_TOKENS)"

definition watermark_tokens :: "environ \<Rightarrow> str option \<Rightarrow> int" where
  "watermark_tokens env model =
     env_int env ''SHANNON_CTX_WATERMARK_TOKENS'' (default_watermark_tokens model)"

definition watermark_turns :: "environ \<Rightarrow> int" where
  "watermark_turns env = max 1 (env_int env ''SHANNON_CTX_WATERMARK_TURNS'' DEFAULT_WATERMARK_TURNS)"

definition respawn_max :: "environ \<Rightarrow> int" where
  "respawn_max env = max 0 (env_int env ''SHANNON_CTX_RESPAWN_MAX'' DEFAULT_RESPAWN_MAX)"

definition respawn_disabled :: "environ \<Rightarrow> ctx_error + bool" where
  "respawn_disabled env = env_bool env ''SHANNON_DISABLE_CTX_RESPAWN'' False True"

definition min_runway_seconds :: "(str \<Rightarrow> 'f option) \<Rightarrow> 'f \<Rightarrow> environ \<Rightarrow> 'f" where
  "min_runway_seconds float_of DEFAULT_MIN_RUNWAY_S env =
     (case env ''SHANNON_CTX_RESPAWN_MIN_RUNWAY_S'' of
        None \<Rightarrow> DEFAULT_MIN_RUNWAY_S
      | Some raw \<Rightarrow>
          if py_strip raw = [] then DEFAULT_MIN_RUNWAY_S
          else case float_of (py_strip raw) of Some x \<Rightarrow> x | None \<Rightarrow> DEFAULT_MIN_RUNWAY_S)"

section \<open>Context size of a turn\<close>

text \<open>\<open>_n(key)\<close>: a value that is no number counts 0, an infinite one raises \<open>OverflowError\<close>.\<close>

definition usage_count :: "(str \<times> json) list \<Rightarrow> str \<Rightarrow> ctx_error + int" where
  "usage_count usage key =
     (let v = py_or (jget usage key) (JInt 0) in
      if v = JFloat ''inf'' \<or> v = JFloat ''-inf'' then Inl CtxOverflowError
      else Inr (case py_int v of Some n \<Rightarrow> n | None \<Rightarrow> 0))"

definition sum_counts :: "(ctx_error + int) list \<Rightarrow> ctx_error + int" where
  "sum_counts cs = foldr (\<lambda>c acc. case c of Inl e \<Rightarrow> Inl e | Inr n \<Rightarrow> map_sum id (\<lambda>m. n + m) acc) cs (Inr 0)"

definition context_tokens_from_assistant_event :: "json \<Rightarrow> ctx_error + int option" where
  "context_tokens_from_assistant_event event =
     (case event of
        JObj e \<Rightarrow>
          if jget e ''type'' \<noteq> JStr ''assistant'' then Inr None
          else (case jget e ''message'' of
                  JObj message \<Rightarrow>
                    (case jget message ''usage'' of
                       JObj usage \<Rightarrow>
                         map_sum id (\<lambda>total. if 0 < total then Some total else None)
                           (sum_counts (map (usage_count usage)
                              [''input_tokens'', ''cache_read_input_tokens'', ''cache_creation_input_tokens'']))
                     | _ \<Rightarrow> Inr None)
                | _ \<Rightarrow> Inr None)
      | _ \<Rightarrow> Inr None)"

definition context_tokens_from_codex_event :: "json \<Rightarrow> int option" where
  "context_tokens_from_codex_event event = None"

section \<open>The watermark detector\<close>

record ctx_detector =
  cd_tokens :: int
  cd_turns :: int
  cd_enabled :: bool
  cd_hot_turns :: int
  cd_ctx_pressure :: bool
  cd_last_ctx_tokens :: int

definition new_ctx_detector ::
  "environ \<Rightarrow> int option \<Rightarrow> int option \<Rightarrow> bool option \<Rightarrow> str option \<Rightarrow> ctx_error + ctx_detector" where
  "new_ctx_detector env tokens turns enabled model =
     map_sum id (\<lambda>on. \<lparr>cd_tokens = (case tokens of None \<Rightarrow> watermark_tokens env model | Some n \<Rightarrow> n),
          cd_turns = (case turns of None \<Rightarrow> watermark_turns env | Some n \<Rightarrow> max 1 n),
          cd_enabled = on, cd_hot_turns = 0, cd_ctx_pressure = False, cd_last_ctx_tokens = 0\<rparr>)
       (case enabled of Some b \<Rightarrow> Inr b | None \<Rightarrow> map_sum id Not (respawn_disabled env))"

definition reset_detector :: "ctx_detector \<Rightarrow> ctx_detector" where
  "reset_detector d = d\<lparr>cd_hot_turns := 0, cd_ctx_pressure := False\<rparr>"

definition observe_tokens :: "int option \<Rightarrow> ctx_detector \<Rightarrow> ctx_detector \<times> bool" where
  "observe_tokens ctx d =
     (if \<not> cd_enabled d \<or> cd_ctx_pressure d then (d, False)
      else case ctx of
        None \<Rightarrow> (d, False)
      | Some n \<Rightarrow>
          (let d1 = d\<lparr>cd_last_ctx_tokens := n\<rparr>;
               d2 = d1\<lparr>cd_hot_turns := (if cd_tokens d \<le> n then cd_hot_turns d + 1 else 0)\<rparr>
           in if cd_turns d \<le> cd_hot_turns d2 then (d2\<lparr>cd_ctx_pressure := True\<rparr>, True) else (d2, False)))"

definition observe_event :: "json \<Rightarrow> ctx_detector \<Rightarrow> ctx_detector \<times> (ctx_error + bool)" where
  "observe_event event d =
     (case context_tokens_from_assistant_event event of
        Inl e \<Rightarrow> (d, Inl e)
      | Inr ctx \<Rightarrow> map_prod id Inr (observe_tokens ctx d))"

section \<open>Handoff\<close>

definition canonical_tactic_shape :: "str \<Rightarrow> str" where
  "canonical_tactic_shape tactic = py_strip (rstrip_by (\<lambda>c. c = CHR ''.'') (py_join '' '' (py_split tactic)))"

definition phase_of :: "(str \<times> json) list \<Rightarrow> str" where
  "phase_of view =
     (case filter (\<lambda>t. t \<noteq> []) (map (\<lambda>k. case jget view k of JStr t \<Rightarrow> py_strip t | _ \<Rightarrow> [])
             [''phase'', ''proof_phase'', ''route_phase'']) of
        t # _ \<Rightarrow> t | [] \<Rightarrow> [])"

definition goal_preview :: "(str \<times> json) list \<Rightarrow> str" where
  "goal_preview view =
     (case jget view ''current_goal'' of
        JObj cg \<Rightarrow>
          (case jget cg ''lines'' of
             JList (l # ls) \<Rightarrow> py_join '' / '' (map py_str (take 4 (l # ls)))
           | _ \<Rightarrow> (case jget cg ''text'' of JStr t \<Rightarrow> t | _ \<Rightarrow> []))
      | _ \<Rightarrow> [])"

definition build_frontier_brief :: "str \<Rightarrow> json \<Rightarrow> str" where
  "build_frontier_brief ellipsis latest_view =
     (case latest_view of
        JObj view \<Rightarrow>
          (let ps = (case jget view ''proof_status'' of JObj d \<Rightarrow> d | _ \<Rightarrow> []);
               remaining = jget ps ''remaining_goals'';
               status = py_str (py_or (jget ps ''status'') (JStr ''unknown''));
               phase = phase_of view;
               joined = py_join '' '' (py_split (goal_preview view));
               preview = (if 400 < length joined then take 399 joined @ ellipsis else joined);
               rem_text = (if py_is_int remaining then py_str remaining @ '' goal(s) remaining'' else ''status='' @ status);
               parts = [''Frontier: '' @ rem_text]
                 @ (if phase = [] then [] else [''phase='' @ phase])
                 @ (if preview = [] then [] else [''current subgoal: '' @ preview])
           in py_join ''; '' parts @ ''.'')
      | _ \<Rightarrow> ''Frontier: proof state unavailable from the current view.'')"

text \<open>\<open>spine[-cap:]\<close>.\<close>

definition build_accepted_spine :: "str list \<Rightarrow> nat \<Rightarrow> str list" where
  "build_accepted_spine committed_tactics cap =
     (let spine = filter (\<lambda>t. py_strip t \<noteq> []) committed_tactics in
      if cap \<noteq> 0 \<and> cap < length spine then drop (length spine - cap) spine else spine)"

definition SpacesI :: re where "SpacesI = Plus (Cls py_isspace)"
definition GapI :: re where "GapI = Opt (Cls (\<lambda>c. py_isspace c \<or> c = CHR ''-''))"

definition CLOSED_VERDICT_RE :: re where
  "CLOSED_VERDICT_RE = Seqs [WordB, Grp 1 (Alts
     [Seq (LitI ''unprovable'') (Opt (Seqs [SpacesI, LitI ''as'', SpacesI, LitI ''posed''])),
      Seqs [LitI ''impossible'', SpacesI, LitI ''as'', SpacesI, LitI ''posed''],
      Seqs [LitI ''impossible'', SpacesI, LitI ''to'', SpacesI, Alts [LitI ''prove'', LitI ''close'', LitI ''discharge'']],
      Seqs [LitI ''cannot'', SpacesI, Alts [Seqs [LitI ''be'', SpacesI, LitI ''proved''],
        Seq (LitI ''prove'') (Opt (Seq SpacesI (LitI ''this'')))]],
      Seqs [LitI ''no'', SpacesI, Alts [LitI ''route'',
        Seqs [LitI ''way'', SpacesI, LitI ''to'', SpacesI, LitI ''prove'', Opt (Seq SpacesI (LitI ''this''))]]],
      Seqs [LitI ''giv'', Alts [LitI ''e'', LitI ''ing'', LitI ''en''], GapI, LitI ''up''],
      Seqs [LitI ''gave'', GapI, LitI ''up''],
      LitI ''unsatisfiable'']), WordB]"

definition strip_closed_verdicts :: "str \<Rightarrow> str" where
  "strip_closed_verdicts t = (if t = [] then t else re_sub CLOSED_VERDICT_RE ''[disposition removed]'' t)"

section \<open>Runs of the detector\<close>

text \<open>The detector fed with one context size after the other, with the answers it gives.\<close>

fun observe_sizes :: "int option list \<Rightarrow> ctx_detector \<Rightarrow> ctx_detector \<times> bool list" where
  "observe_sizes [] d = (d, [])"
| "observe_sizes (x # xs) d =
     (let (d1, b) = observe_tokens x d; (d2, bs) = observe_sizes xs d1 in (d2, b # bs))"

definition known_sizes :: "int option list \<Rightarrow> int list" where
  "known_sizes xs = map the (filter (\<lambda>x. x \<noteq> None) xs)"

text \<open>The reference: some run of \<open>k\<close> consecutive known sizes is at or above the watermark.\<close>

definition hot_run :: "nat \<Rightarrow> bool list \<Rightarrow> bool" where
  "hot_run k hot \<longleftrightarrow> sublist (replicate k True) hot"

lemma known_sizes_simps [simp]:
  "known_sizes [] = []" "known_sizes (None # xs) = known_sizes xs" "known_sizes (Some n # xs) = n # known_sizes xs"
  by (simp_all add: known_sizes_def)

lemma hot_run_cold:
  assumes "h < k"
  shows "hot_run k (replicate h True @ False # hot) \<longleftrightarrow> hot_run k hot"
  using assms
proof (induction h)
  case 0
  then have "\<not> prefix (replicate k True) (False # hot)" by (cases k) auto
  then show ?case by (simp add: hot_run_def sublist_Cons_right)
next
  case (Suc h)
  have "\<not> prefix (replicate k True) (replicate (Suc h) True @ False # hot)"
  proof
    assume "prefix (replicate k True) (replicate (Suc h) True @ False # hot)"
    then obtain r where r: "replicate (Suc h) True @ False # hot = replicate k True @ r" by (auto simp: prefix_def)
    have "(replicate (Suc h) True @ False # hot) ! Suc h = False" by (simp add: nth_append)
    moreover have "(replicate k True @ r) ! Suc h = True" using Suc.prems by (simp add: nth_append)
    ultimately show False using r by metis
  qed
  then have "hot_run k (replicate (Suc h) True @ False # hot) \<longleftrightarrow> hot_run k (replicate h True @ False # hot)"
    by (simp add: hot_run_def sublist_Cons_right)
  with Suc show ?case by simp
qed

lemma hot_run_reached: "hot_run k (replicate k True @ hot)"
  by (simp add: hot_run_def)

lemma hot_run_short: "h < k \<Longrightarrow> \<not> hot_run k (replicate h True)"
  using sublist_length_le [of "replicate k True" "replicate h True"] by (auto simp: hot_run_def)

lemma observe_sizes_Cons [simp]:
  "fst (observe_sizes (x # xs) d) = fst (observe_sizes xs (fst (observe_tokens x d)))"
  "snd (observe_sizes (x # xs) d) = snd (observe_tokens x d) # snd (observe_sizes xs (fst (observe_tokens x d)))"
  by (simp_all add: Let_def split: prod.split)

lemma observe_latched:
  "\<not> cd_enabled d \<or> cd_ctx_pressure d \<Longrightarrow> observe_sizes xs d = (d, replicate (length xs) False)"
  by (induction xs) (simp_all add: observe_tokens_def)

declare observe_sizes.simps(2) [simp del]

lemma observe_sizes_hot:
  assumes "cd_enabled d" "\<not> cd_ctx_pressure d" "cd_hot_turns d = int h" "int h < cd_turns d"
  shows "(cd_ctx_pressure (fst (observe_sizes xs d)) \<longleftrightarrow>
      hot_run (nat (cd_turns d)) (replicate h True @ map (\<lambda>n. cd_tokens d \<le> n) (known_sizes xs)))
    \<and> length (filter (\<lambda>b. b) (snd (observe_sizes xs d))) = (if cd_ctx_pressure (fst (observe_sizes xs d)) then 1 else 0)"
  using assms
proof (induction xs arbitrary: d h)
  case Nil
  then show ?case using hot_run_short [of h "nat (cd_turns d)"] by auto
next
  case (Cons x xs)
  note IH = Cons.IH and d = Cons.prems
  show ?case
  proof (cases x)
    case None
    with d IH [OF d] show ?thesis by (simp add: observe_tokens_def)
  next
    case (Some n)
    define d1 where "d1 = d\<lparr>cd_last_ctx_tokens := n, cd_hot_turns := (if cd_tokens d \<le> n then cd_hot_turns d + 1 else 0)\<rparr>"
    consider (trip) "cd_tokens d \<le> n" "cd_turns d = int (Suc h)"
      | (hot) "cd_tokens d \<le> n" "int (Suc h) < cd_turns d" | (cold) "\<not> cd_tokens d \<le> n"
      using d(4) by linarith
    then show ?thesis
    proof cases
      case trip
      have step: "observe_tokens (Some n) d = (d1\<lparr>cd_ctx_pressure := True\<rparr>, True)"
        using d trip by (simp add: observe_tokens_def d1_def)
      have "nat (cd_turns d) = Suc h" using trip(2) by simp
      moreover have "replicate h True @ map (\<lambda>n. cd_tokens d \<le> n) (known_sizes (x # xs))
          = replicate (Suc h) True @ map (\<lambda>n. cd_tokens d \<le> n) (known_sizes xs)"
        using Some trip(1) by (simp add: replicate_app_Cons_same)
      ultimately have "hot_run (nat (cd_turns d)) (replicate h True @ map (\<lambda>n. cd_tokens d \<le> n) (known_sizes (x # xs)))"
        using hot_run_reached by metis
      with step Some show ?thesis by (simp add: observe_latched)
    next
      case hot
      have step: "observe_tokens (Some n) d = (d1, False)"
        using d hot by (simp add: observe_tokens_def d1_def)
      have d1: "cd_enabled d1" "\<not> cd_ctx_pressure d1" "cd_hot_turns d1 = int (Suc h)" "int (Suc h) < cd_turns d1"
        "cd_tokens d1 = cd_tokens d" "cd_turns d1 = cd_turns d"
        using d hot by (simp_all add: d1_def)
      have "hot_run (nat (cd_turns d)) (replicate h True @ map (\<lambda>n. cd_tokens d \<le> n) (known_sizes (x # xs)))
          = hot_run (nat (cd_turns d)) (replicate (Suc h) True @ map (\<lambda>n. cd_tokens d \<le> n) (known_sizes xs))"
        using Some hot(1) by (simp add: replicate_app_Cons_same)
      with IH [OF d1(1-4)] step Some d1(5,6) show ?thesis by (simp del: replicate_Suc known_sizes_simps)
    next
      case cold
      have step: "observe_tokens (Some n) d = (d1, False)"
        using d cold by (simp add: observe_tokens_def d1_def)
      have d1: "cd_enabled d1" "\<not> cd_ctx_pressure d1" "cd_hot_turns d1 = int 0" "int 0 < cd_turns d1"
        "cd_tokens d1 = cd_tokens d" "cd_turns d1 = cd_turns d"
        using d cold by (simp_all add: d1_def)
      have "hot_run (nat (cd_turns d)) (replicate h True @ map (\<lambda>n. cd_tokens d \<le> n) (known_sizes (x # xs)))
          = hot_run (nat (cd_turns d)) (map (\<lambda>n. cd_tokens d \<le> n) (known_sizes xs))"
        using Some cold hot_run_cold [of h "nat (cd_turns d)"] d(4) by simp
      with IH [OF d1(1-4)] step Some d1(5,6) show ?thesis by simp
    qed
  qed
qed

section \<open>Properties\<close>

text \<open>C36. The watermark detector decides exactly the condition it debounces: a detector built from the
  environment and fed with any sequence of context sizes (a turn of unknown size changes nothing)
  ends under pressure exactly when it is enabled and some run of as many consecutive known sizes as
  the required turns, at least one, reached the watermark. It reports the change once, at the turn
  where the run is complete, and never again.\<close>

theorem watermark_detector_exact:
  assumes "new_ctx_detector env tokens turns enabled model = Inr d"
  shows "1 \<le> cd_turns d
    \<and> (cd_ctx_pressure (fst (observe_sizes xs d)) \<longleftrightarrow>
        cd_enabled d \<and> hot_run (nat (cd_turns d)) (map (\<lambda>n. cd_tokens d \<le> n) (known_sizes xs)))
    \<and> length (filter (\<lambda>b. b) (snd (observe_sizes xs d))) = (if cd_ctx_pressure (fst (observe_sizes xs d)) then 1 else 0)"
proof -
  have d: "\<not> cd_ctx_pressure d" "cd_hot_turns d = int 0" "1 \<le> cd_turns d"
    using assms by (auto simp: new_ctx_detector_def map_sum_def watermark_turns_def split: sum.splits option.splits)
  show ?thesis
  proof (cases "cd_enabled d")
    case True
    then show ?thesis using observe_sizes_hot [OF True d(1,2), of xs] d(3) by simp
  next
    case False
    then show ?thesis using d by (simp add: observe_latched)
  qed
qed

theorem watermark_detector_exact_witness:
  "\<exists>d. new_ctx_detector (\<lambda>_. None) (Some 100) (Some 2) (Some True) None = Inr d
     \<and> cd_ctx_pressure (fst (observe_sizes [Some 120, None, Some 100, Some 3] d))"
proof -
  obtain d where d: "new_ctx_detector (\<lambda>_. None) (Some 100) (Some 2) (Some True) None = Inr d"
    "cd_tokens d = 100" "cd_turns d = 2" "cd_enabled d" by (simp add: new_ctx_detector_def)
  have "hot_run 2 (map (\<lambda>n. 100 \<le> n) (known_sizes [Some 120, None, Some 100, Some 3]))"
    unfolding hot_run_def by code_simp
  then show ?thesis using watermark_detector_exact [OF d(1), of "[Some 120, None, Some 100, Some 3]"] d by auto
qed

end
