(* ===== verification/Tree_Policy.thy ===== *)
theory Tree_Policy
  imports Py_Json Py_Regex Complex_Main
begin

text \<open>
  \<open>workflow/tree/policy.py\<close>: the vocabulary the tree supervisor schedules with. Times are the
  values of finite floats; the one subtraction on them is exact for two times within a factor of
  two of each other, and otherwise far above every repair window.
\<close>

section \<open>Capacity and progress\<close>

definition TREE_MAX_ACTIVE_NODES :: int where "TREE_MAX_ACTIVE_NODES = 4"
definition DEFAULT_TREE_INITIAL_PROVERS :: int where "DEFAULT_TREE_INITIAL_PROVERS = 2"
definition DEFAULT_STRUCTURAL_UNDO_SPAWN_DELAY_SECONDS :: rat where
  "DEFAULT_STRUCTURAL_UNDO_SPAWN_DELAY_SECONDS = 300"
definition DEFAULT_UNDO_REPAIR_PROTECTION_SECONDS :: rat where
  "DEFAULT_UNDO_REPAIR_PROTECTION_SECONDS = 900"

text \<open>The request is any value but an infinite float, on which \<open>int\<close> raises an error that is not caught.\<close>

definition cap_tree_max_concurrent :: "json \<Rightarrow> int" where
  "cap_tree_max_concurrent max_concurrent =
     (let requested = (case py_int max_concurrent of Some n \<Rightarrow> n | None \<Rightarrow> TREE_MAX_ACTIVE_NODES)
      in max 1 (min requested TREE_MAX_ACTIVE_NODES))"

definition undo_repair_mode :: "int \<Rightarrow> int \<Rightarrow> rat \<Rightarrow> rat \<Rightarrow> rat \<Rightarrow> rat \<Rightarrow> bool" where
  "undo_repair_mode committed_count max_committed_count_seen last_undo_time last_structural_undo_time now
       repair_window_seconds =
     (if max_committed_count_seen \<le> committed_count then False
      else let recent_undo = max last_undo_time last_structural_undo_time in
        if recent_undo \<le> 0 then False else now - recent_undo < repair_window_seconds)"

definition effective_progress_count :: "int \<Rightarrow> int \<Rightarrow> bool \<Rightarrow> int" where
  "effective_progress_count committed_count max_committed_count_seen in_undo_repair =
     (if in_undo_repair then max committed_count max_committed_count_seen else committed_count)"

section \<open>Branch keys\<close>

definition layer_move_action_key :: "json \<Rightarrow> str" where
  "layer_move_action_key layer_move_action =
     (case layer_move_action of
        JObj a \<Rightarrow>
          (let current = py_strip (str_or_empty (jget a ''current_layer''));
               move = py_strip (str_or_empty (jget a ''move''))
           in if current = [] \<or> move \<notin> set [''up'', ''same'', ''down''] then []
              else ''action:layer_move:'' @ current @ '':'' @ move)
      | _ \<Rightarrow> [])"

definition tree_spawn_branch_key :: "int \<Rightarrow> str \<Rightarrow> json \<Rightarrow> str \<Rightarrow> str \<times> str" where
  "tree_spawn_branch_key prefix_len failed_first layer_move_action goal_hash =
     (let location = (if goal_hash \<noteq> [] then ''goal:'' @ take 24 goal_hash else ''prefix:'' @ int_str prefix_len);
          action_key = layer_move_action_key layer_move_action
      in if action_key \<noteq> [] then (location, action_key) else (location, take 40 failed_first))"

definition tree_spawn_limit_for_branch_key :: "str \<times> str \<Rightarrow> int" where
  "tree_spawn_limit_for_branch_key branch_key =
     (if starts_with ''action:layer_move:'' (snd branch_key) then 1 else 2)"

section \<open>Layers\<close>

definition words_re :: "str list \<Rightarrow> re" where
  "words_re ws = Seqs [WordB, Alts (map Lit ws), WordB]"

definition infer_abstraction_layer :: "str \<Rightarrow> str list \<Rightarrow> str" where
  "infer_abstraction_layer goal_state failed_suffix =
     (let t = goal_state @ [newline] @ py_join '' '' failed_suffix; lowered = py_lower t in
      if contains ''pr['' lowered \<or> contains ''pr ['' lowered then ''pr''
      else if contains ''equiv'' lowered \<or> (contains ''~'' t \<and> contains ''==>'' t) then ''prhl''
      else if contains ''phoare'' lowered \<or> contains ''islossless'' lowered then ''hoare''
      else if re_search (Alt (words_re [''call'']) (words_re [''ecall''])) lowered 0 \<noteq> None then ''call''
      else if re_search (words_re [''proc'', ''inline'', ''wp'', ''sp'', ''rnd'', ''seq'', ''while'', ''skip'']) lowered 0 \<noteq> None
      then ''procedure''
      else if contains ''smt'' lowered then ''smt''
      else ''unknown'')"

definition layer_move_order :: "str \<Rightarrow> str list" where
  "layer_move_order current_layer =
     (if current_layer = ''pr'' then [''down'', ''same'', ''up'']
      else if current_layer \<in> set [''prhl'', ''hoare'', ''call''] then [''up'', ''down'', ''same'']
      else if current_layer \<in> set [''procedure'', ''smt''] then [''up'', ''same'', ''down'']
      else [''down'', ''up'', ''same''])"

definition move_label :: "str \<Rightarrow> str" where
  "move_label move =
     (if move = ''up'' then ''move to a higher abstraction layer''
      else if move = ''same'' then ''try a distinct strategy at the current abstraction layer''
      else if move = ''down'' then ''move to a lower abstraction layer''
      else move)"

definition build_layer_move_action :: "str \<Rightarrow> str \<Rightarrow> json" where
  "build_layer_move_action current_layer move =
     JObj [(''kind'', JStr ''layer_move_action''), (''current_layer'', JStr current_layer),
           (''move'', JStr move), (''move_label'', JStr (move_label move))]"

definition candidate_layer_move_actions :: "str \<Rightarrow> json list" where
  "candidate_layer_move_actions current_layer =
     map (build_layer_move_action current_layer) (layer_move_order current_layer)"

section \<open>Lemmas\<close>

lemma move_order_perm: "set (layer_move_order l) = {''up'', ''same'', ''down''} \<and> distinct (layer_move_order l)"
  by (auto simp: layer_move_order_def)

lemma layer_key_built:
  assumes "py_strip current \<noteq> []" and "move \<in> {''up'', ''same'', ''down''}"
  shows "layer_move_action_key (build_layer_move_action current move) = ''action:layer_move:'' @ py_strip current @ '':'' @ move"
proof -
  have "py_strip ''up'' = ''up''" "py_strip ''same'' = ''same''" "py_strip ''down'' = ''down''" by code_simp+
  then have "py_strip move = move" using assms(2) by blast
  with assms show ?thesis
    by (auto simp: layer_move_action_key_def build_layer_move_action_def jget_def dict_get_def Let_def)
qed

text \<open>A move has no colon, so the last field of a key is the move and what precedes it the layer.\<close>

lemma split_last_colon:
  assumes "a @ '':'' @ m = b @ '':'' @ n" and "CHR '':'' \<notin> set m" "CHR '':'' \<notin> set n"
  shows "a = b \<and> m = n"
proof -
  have "rev m @ CHR '':'' # rev a = rev n @ CHR '':'' # rev b"
    using arg_cong [OF assms(1), of rev] by simp
  then have "takeWhile (\<lambda>c. c \<noteq> CHR '':'') (rev m @ CHR '':'' # rev a) = takeWhile (\<lambda>c. c \<noteq> CHR '':'') (rev n @ CHR '':'' # rev b)"
    by simp
  moreover have "takeWhile (\<lambda>c. c \<noteq> CHR '':'') (rev x @ CHR '':'' # y) = rev x" if "CHR '':'' \<notin> set x" for x y
    using that by (subst takeWhile_append2) auto
  ultimately have "rev m = rev n" using assms(2,3) by simp
  with assms(1) show ?thesis by simp
qed

text \<open>A scheduler key of a layer move identifies the move: two actions whose keys are not blank have
  the same key exactly when they have the same layer and the same move (both stripped).\<close>

lemma layer_move_key_exact:
  assumes "layer_move_action_key (JObj a) \<noteq> []" and "layer_move_action_key (JObj b) \<noteq> []"
  shows "layer_move_action_key (JObj a) = layer_move_action_key (JObj b) \<longleftrightarrow>
    py_strip (str_or_empty (jget a ''current_layer'')) = py_strip (str_or_empty (jget b ''current_layer''))
    \<and> py_strip (str_or_empty (jget a ''move'')) = py_strip (str_or_empty (jget b ''move''))"
proof -
  let ?l = "\<lambda>x. py_strip (str_or_empty (jget x ''current_layer''))" and ?m = "\<lambda>x. py_strip (str_or_empty (jget x ''move''))"
  have key: "layer_move_action_key (JObj x) = ''action:layer_move:'' @ ?l x @ '':'' @ ?m x \<and> CHR '':'' \<notin> set (?m x)"
    if "layer_move_action_key (JObj x) \<noteq> []" for x
    using that by (auto simp: layer_move_action_key_def Let_def split: if_splits)
  show ?thesis
    using key [OF assms(1)] key [OF assms(2)] split_last_colon [of "?l a" "?m a" "?l b" "?m b"] by auto
qed

section \<open>Properties\<close>

text \<open>Branching is bounded. The active-node capacity is between one and four whatever was requested, and
  the moves offered at one location of the search are exactly three, one per direction, with pairwise
  different branch keys that admit one spawn each.\<close>

lemma layer_branching_bounded:
  assumes "py_strip current \<noteq> []"
  shows "let keys = map (\<lambda>a. tree_spawn_branch_key prefix_len failed a goal_hash) (candidate_layer_move_actions current)
    in 1 \<le> cap_tree_max_concurrent requested \<and> cap_tree_max_concurrent requested \<le> TREE_MAX_ACTIVE_NODES
    \<and> length keys = 3 \<and> distinct keys \<and> list_all (\<lambda>k. tree_spawn_limit_for_branch_key k = 1) keys
    \<and> sum_list (map tree_spawn_limit_for_branch_key keys) = 3"
proof -
  define keys where "keys = map (\<lambda>a. tree_spawn_branch_key prefix_len failed a goal_hash) (candidate_layer_move_actions current)"
  define loc where "loc = (if goal_hash \<noteq> [] then ''goal:'' @ take 24 goal_hash else ''prefix:'' @ int_str prefix_len)"
  let ?key = "\<lambda>move. (loc, ''action:layer_move:'' @ py_strip current @ '':'' @ move)"
  have "keys = map ?key (layer_move_order current)"
    using move_order_perm layer_key_built [OF assms(1)]
    by (auto simp: keys_def candidate_layer_move_actions_def tree_spawn_branch_key_def Let_def loc_def)
  moreover have "length (layer_move_order current) = 3" by (simp add: layer_move_order_def)
  moreover have "tree_spawn_limit_for_branch_key (?key m) = 1" for m by (simp add: tree_spawn_limit_for_branch_key_def)
  ultimately show ?thesis
    unfolding keys_def [symmetric] Let_def using move_order_perm [of current]
    by (auto simp: cap_tree_max_concurrent_def TREE_MAX_ACTIVE_NODES_def Let_def distinct_map inj_on_def list_all_iff
        sum_list_triv comp_def)
qed

end
