(* ===== verification/Turn_Outcome.thy ===== *)
theory Turn_Outcome
  imports Py_Json
begin

text \<open>
  \<open>workflow/proof_management/managed_turn_outcome.py\<close>: the typed outcome of a manager action, its
  classification from backend facts, and how the outcomes of a turn's actions reach the observation
  the agent sees. An observation is a dict, an action any JSON value.
\<close>

section \<open>Effects and outcomes\<close>

definition PROOF_STATE_CHANGED :: str where "PROOF_STATE_CHANGED = ''changed''"
definition PROOF_STATE_UNCHANGED :: str where "PROOF_STATE_UNCHANGED = ''unchanged''"
definition PROOF_STATE_READ_ONLY :: str where "PROOF_STATE_READ_ONLY = ''read_only''"
definition PROOF_STATE_UNKNOWN :: str where "PROOF_STATE_UNKNOWN = ''unknown''"
definition PROOF_STATE_EFFECTS :: "str list" where
  "PROOF_STATE_EFFECTS = [PROOF_STATE_CHANGED, PROOF_STATE_UNCHANGED, PROOF_STATE_READ_ONLY, PROOF_STATE_UNKNOWN]"

lemmas effect_defs = PROOF_STATE_CHANGED_def PROOF_STATE_UNCHANGED_def PROOF_STATE_READ_ONLY_def
  PROOF_STATE_UNKNOWN_def

definition normalize_proof_state_effect :: "json \<Rightarrow> str" where
  "normalize_proof_state_effect value =
     (let normalized = py_strip (str_or_empty value) in
      if normalized \<in> set PROOF_STATE_EFFECTS then normalized else PROOF_STATE_UNKNOWN)"

record action_outcome =
  ao_outcome_kind :: str
  ao_proof_state_effect :: str
  ao_proof_state_changed :: bool
  ao_needs_attention :: bool

text \<open>The constructor: \<open>None\<close> when \<open>__post_init__\<close> raises.\<close>

definition ManagerActionOutcome :: "str \<Rightarrow> str \<Rightarrow> bool \<Rightarrow> bool \<Rightarrow> action_outcome option" where
  "ManagerActionOutcome kind effect changed attention =
     (if effect \<in> set PROOF_STATE_EFFECTS
      then Some \<lparr>ao_outcome_kind = kind, ao_proof_state_effect = effect, ao_proof_state_changed = changed,
                 ao_needs_attention = attention\<rparr>
      else None)"

definition outcome_dict :: "action_outcome \<Rightarrow> (str \<times> json) list" where
  "outcome_dict ao =
     [(''outcome_kind'', JStr (ao_outcome_kind ao)), (''proof_state_effect'', JStr (ao_proof_state_effect ao)),
      (''proof_state_changed'', JBool (ao_proof_state_changed ao)), (''needs_attention'', JBool (ao_needs_attention ao))]"

section \<open>Classification\<close>

definition classify_manager_action_outcome ::
  "str \<Rightarrow> bool \<Rightarrow> bool \<Rightarrow> bool \<Rightarrow> bool \<Rightarrow> bool \<Rightarrow> bool \<Rightarrow> bool \<Rightarrow> action_outcome option" where
  "classify_manager_action_outcome status ok read_only mutates_proof_state state_changed timed_out control_menu
       repair_requested =
     (let normalized = py_lower (py_strip status);
          effect = (if read_only then PROOF_STATE_READ_ONLY else PROOF_STATE_UNKNOWN)
      in if control_menu then ManagerActionOutcome ''control_menu'' PROOF_STATE_UNCHANGED False (\<not> ok)
         else if repair_requested then ManagerActionOutcome ''repair'' PROOF_STATE_UNCHANGED False True
         else if timed_out then ManagerActionOutcome ''timeout'' effect False True
         else if normalized = ''backend_contract_error'' then ManagerActionOutcome ''backend_error'' effect False True
         else if read_only
         then ManagerActionOutcome (if ok then ''read_only'' else ''backend_error'') PROOF_STATE_READ_ONLY False (\<not> ok)
         else if normalized = ''partial_success''
         then (if state_changed then ManagerActionOutcome ''partial_success'' PROOF_STATE_CHANGED True True
               else ManagerActionOutcome ''backend_error'' PROOF_STATE_UNKNOWN False True)
         else if normalized \<in> set [''no_progress'', ''no_progress_reverted'']
         then ManagerActionOutcome ''no_progress'' PROOF_STATE_UNCHANGED False True
         else if \<not> ok \<or> normalized \<in> set [''failed'', ''error'', ''rejected'', ''refused'']
         then ManagerActionOutcome ''rejected'' PROOF_STATE_UNCHANGED False True
         else if state_changed then ManagerActionOutcome ''accepted'' PROOF_STATE_CHANGED True False
         else if mutates_proof_state then ManagerActionOutcome ''accepted_unconfirmed'' PROOF_STATE_UNKNOWN False False
         else ManagerActionOutcome ''accepted'' PROOF_STATE_UNCHANGED False False)"

definition action_outcome_from_action :: "(str \<times> json) list \<Rightarrow> action_outcome option" where
  "action_outcome_from_action action =
     ManagerActionOutcome (py_str (py_or (jget action ''outcome_kind'') (JStr ''unknown'')))
       (normalize_proof_state_effect (jget action ''proof_state_effect''))
       (py_truthy (jget action ''proof_state_changed'')) (py_truthy (jget action ''needs_attention''))"

section \<open>Observations\<close>

definition dict_update :: "(str \<times> json) list \<Rightarrow> (str \<times> json) list \<Rightarrow> (str \<times> json) list" where
  "dict_update d e = foldl (\<lambda>d (k, v). dict_set k v d) d e"

definition as_dict :: "json \<Rightarrow> (str \<times> json) list" where
  "as_dict j = (case j of JObj d \<Rightarrow> d | _ \<Rightarrow> [])"

definition visible_action :: "json \<Rightarrow> bool" where
  "visible_action action = (case action of JObj a \<Rightarrow> jget a ''label'' \<noteq> JStr ''managed_goal_view'' | _ \<Rightarrow> False)"

definition observation_with_action_outcome :: "json \<Rightarrow> json list \<Rightarrow> (str \<times> json) list option" where
  "observation_with_action_outcome observation actions =
     (case find visible_action actions of
        None \<Rightarrow> Some (as_dict observation)
      | Some action \<Rightarrow> map_option (\<lambda>ao. dict_update (as_dict observation) (outcome_dict ao))
                         (action_outcome_from_action (as_dict action)))"

definition REPLAY_SHORTFALL_LABELS :: "str list" where
  "REPLAY_SHORTFALL_LABELS = [''replay_prefix_stopped_at_divergence'', ''replay_prefix_divergence'']"
definition REPLAY_SHORTFALL_FIELDS :: "str list" where
  "REPLAY_SHORTFALL_FIELDS = [''replay_stopped_at_step'', ''replay_kept_count'', ''replay_committed_count'',
     ''replay_requested_count'']"

text \<open>A label that is a list or an object cannot be looked up in the set of labels; the model is for
  actions with a hashable label.\<close>

definition is_shortfall :: "json \<Rightarrow> bool" where
  "is_shortfall action = (case action of JObj a \<Rightarrow> jget a ''label'' \<in> JStr ` set REPLAY_SHORTFALL_LABELS | _ \<Rightarrow> False)"

definition copy_shortfall_fields :: "(str \<times> json) list \<Rightarrow> (str \<times> json) list \<Rightarrow> (str \<times> json) list" where
  "copy_shortfall_fields action out =
     foldl (\<lambda>out k. case dict_get action k of Some v \<Rightarrow> dict_set k v out | None \<Rightarrow> out) out REPLAY_SHORTFALL_FIELDS"

definition shortfall_note :: "(str \<times> json) list \<Rightarrow> str list" where
  "shortfall_note action =
     (case jget action ''agent_observation'' of
        JObj o' \<Rightarrow> (let note = py_strip (str_or_empty (jget o' ''result'')) in if note = [] then [] else [note])
      | _ \<Rightarrow> [])"

definition recovery_summary :: "(str \<times> json) list \<Rightarrow> str" where
  "recovery_summary out =
     py_strip (str_or_empty (py_or (jget out ''result'') (py_or (jget out ''message'') (jget out ''notice''))))"

definition observation_with_recovery_outcome :: "json \<Rightarrow> json list \<Rightarrow> (str \<times> json) list option" where
  "observation_with_recovery_outcome observation actions =
     (let shortfalls = map as_dict (filter is_shortfall actions) in
      if shortfalls = []
      then map_option (\<lambda>ao. dict_update (as_dict observation) (outcome_dict ao))
             (ManagerActionOutcome ''accepted'' PROOF_STATE_CHANGED True False)
      else let copied = foldl (\<lambda>out a. copy_shortfall_fields a out) (as_dict observation) shortfalls;
               notes = concat (map shortfall_note shortfalls);
               summary = recovery_summary copied;
               noted = (if notes = [] then copied
                        else dict_set ''result'' (JStr (py_join [newline] (if summary = [] then notes else summary # notes))) copied)
           in map_option (\<lambda>ao. dict_update noted (outcome_dict ao))
                (ManagerActionOutcome ''partial_success'' PROOF_STATE_CHANGED True True))"

definition turn_flag :: "str \<Rightarrow> json list \<Rightarrow> (str \<times> json) list \<Rightarrow> bool" where
  "turn_flag flag actions view =
     (list_ex (\<lambda>a. py_is_dict a \<and> py_truthy (jget (as_dict a) flag)) actions
      \<or> py_truthy (jget (as_dict (jget view ''last_result'')) flag))"

definition proof_state_changed_for_turn :: "json list \<Rightarrow> (str \<times> json) list \<Rightarrow> bool" where
  "proof_state_changed_for_turn actions view = turn_flag ''proof_state_changed'' actions view"

definition turn_needs_attention :: "json list \<Rightarrow> (str \<times> json) list \<Rightarrow> bool" where
  "turn_needs_attention actions view = turn_flag ''needs_attention'' actions view"

section \<open>Lemmas\<close>

lemma effects_distinct [simp]:
  "PROOF_STATE_CHANGED \<noteq> PROOF_STATE_UNCHANGED" "PROOF_STATE_CHANGED \<noteq> PROOF_STATE_READ_ONLY"
  "PROOF_STATE_CHANGED \<noteq> PROOF_STATE_UNKNOWN" "PROOF_STATE_UNCHANGED \<noteq> PROOF_STATE_READ_ONLY"
  by (simp_all add: effect_defs)

lemma effects_member [simp]:
  "PROOF_STATE_CHANGED \<in> set PROOF_STATE_EFFECTS" "PROOF_STATE_UNCHANGED \<in> set PROOF_STATE_EFFECTS"
  "PROOF_STATE_READ_ONLY \<in> set PROOF_STATE_EFFECTS" "PROOF_STATE_UNKNOWN \<in> set PROOF_STATE_EFFECTS"
  by (simp_all add: PROOF_STATE_EFFECTS_def)

lemma outcome_known: "effect \<in> set PROOF_STATE_EFFECTS \<Longrightarrow> ManagerActionOutcome kind effect changed attention =
    Some \<lparr>ao_outcome_kind = kind, ao_proof_state_effect = effect, ao_proof_state_changed = changed, ao_needs_attention = attention\<rparr>"
  by (simp add: ManagerActionOutcome_def)

lemma normalize_effect_known [simp]: "normalize_proof_state_effect j \<in> set PROOF_STATE_EFFECTS"
  by (simp add: normalize_proof_state_effect_def Let_def)

lemma jget_update:
  "distinct (dict_keys e) \<Longrightarrow> jget (dict_update d e) k = (if k \<in> set (dict_keys e) then jget e k else jget d k)"
proof (induction e arbitrary: d)
  case Nil
  then show ?case by (simp add: dict_update_def dict_keys_def)
next
  case (Cons kv e)
  obtain k' v where kv: "kv = (k', v)" by (cases kv)
  have "dict_update d (kv # e) = dict_update (dict_set k' v d) e" by (simp add: dict_update_def kv)
  moreover have "k' \<notin> set (dict_keys e)" "distinct (dict_keys e)" using Cons.prems by (simp_all add: kv dict_keys_def)
  moreover have "jget (kv # e) k = (if k = k' then v else jget e k)" by (simp add: kv jget_def dict_get_def)
  ultimately show ?case using Cons.IH by (simp add: kv jget_set) (simp add: dict_keys_def)
qed

lemma outcome_keys [simp]: "dict_keys (outcome_dict ao) =
    [''outcome_kind'', ''proof_state_effect'', ''proof_state_changed'', ''needs_attention'']"
  by (simp add: outcome_dict_def dict_keys_def)

lemma jget_outcome:
  "jget (outcome_dict ao) ''outcome_kind'' = JStr (ao_outcome_kind ao)"
  "jget (outcome_dict ao) ''proof_state_effect'' = JStr (ao_proof_state_effect ao)"
  "jget (outcome_dict ao) ''proof_state_changed'' = JBool (ao_proof_state_changed ao)"
  "jget (outcome_dict ao) ''needs_attention'' = JBool (ao_needs_attention ao)"
  by (simp_all add: outcome_dict_def jget_def dict_get_def)

text \<open>Reading back a written outcome.\<close>

lemma outcome_roundtrip:
  assumes "ManagerActionOutcome kind effect changed attention = Some ao" "kind \<noteq> []"
  shows "action_outcome_from_action (outcome_dict ao) = Some ao"
proof -
  have ao: "ao = \<lparr>ao_outcome_kind = kind, ao_proof_state_effect = effect, ao_proof_state_changed = changed,
      ao_needs_attention = attention\<rparr>" and e: "effect \<in> set PROOF_STATE_EFFECTS"
    using assms(1) by (auto simp: ManagerActionOutcome_def split: if_splits)
  have "py_strip t = t" if "t \<in> set PROOF_STATE_EFFECTS" for t
  proof -
    have "list_all (\<lambda>t. py_strip t = t) PROOF_STATE_EFFECTS" by code_simp
    with that show ?thesis by (simp add: list_all_iff)
  qed
  then have "normalize_proof_state_effect (JStr effect) = effect"
    using e by (simp add: normalize_proof_state_effect_def)
  with assms(2) e show ?thesis
    by (simp add: action_outcome_from_action_def jget_outcome ao outcome_known py_or_def py_truthy_def py_str_def)
qed

text \<open>A recovery always reports a changed state, and a shortfall of its replay as a partial success.\<close>

lemma recovery_reports_change:
  "\<exists>out. observation_with_recovery_outcome observation actions = Some out
     \<and> jget out ''proof_state_changed'' = JBool True
     \<and> jget out ''outcome_kind'' = JStr (if list_ex is_shortfall actions then ''partial_success'' else ''accepted'')
     \<and> jget out ''needs_attention'' = JBool (list_ex is_shortfall actions)"
  by (auto simp: observation_with_recovery_outcome_def Let_def outcome_known jget_update jget_outcome
      filter_empty_conv list_ex_iff)

text \<open>What a classification has to satisfy.\<close>

definition honest_outcome ::
  "bool \<Rightarrow> bool \<Rightarrow> bool \<Rightarrow> bool \<Rightarrow> bool \<Rightarrow> bool \<Rightarrow> str \<Rightarrow> str \<Rightarrow> bool \<Rightarrow> bool \<Rightarrow> bool" where
  "honest_outcome ok read_only state_changed timed_out menu repair kind effect changed attention \<longleftrightarrow>
     effect \<in> set PROOF_STATE_EFFECTS
     \<and> kind \<in> set [''control_menu'', ''repair'', ''timeout'', ''backend_error'', ''read_only'',
         ''partial_success'', ''no_progress'', ''rejected'', ''accepted'', ''accepted_unconfirmed'']
     \<and> (changed \<longleftrightarrow> effect = PROOF_STATE_CHANGED)
     \<and> \<not> (changed \<and> \<not> state_changed) \<and> \<not> (changed \<and> (read_only \<or> timed_out \<or> menu \<or> repair))
     \<and> \<not> (read_only \<and> effect \<in> {PROOF_STATE_CHANGED, PROOF_STATE_UNKNOWN})
     \<and> (attention \<longleftrightarrow> \<not> (kind \<in> {''accepted'', ''accepted_unconfirmed'', ''read_only''} \<or> kind = ''control_menu'' \<and> ok))"

lemma honest_if:
  "(P \<Longrightarrow> \<exists>k e c a. x = ManagerActionOutcome k e c a \<and> H k e c a) \<Longrightarrow>
   (\<not> P \<Longrightarrow> \<exists>k e c a. y = ManagerActionOutcome k e c a \<and> H k e c a) \<Longrightarrow>
   \<exists>k e c a. (if P then x else y) = ManagerActionOutcome k e c a \<and> H k e c a"
  by simp

lemma honest_leaf: "H k e c a \<Longrightarrow> \<exists>k' e' c' a'. ManagerActionOutcome k e c a = ManagerActionOutcome k' e' c' a' \<and> H k' e' c' a'"
  by blast

lemma classify_honest:
  "\<exists>kind effect changed attention.
      classify_manager_action_outcome status ok read_only mutates state_changed timed_out menu repair
        = ManagerActionOutcome kind effect changed attention
      \<and> honest_outcome ok read_only state_changed timed_out menu repair kind effect changed attention"
  unfolding classify_manager_action_outcome_def Let_def
  by (intro honest_if; rule honest_leaf; simp add: honest_outcome_def effect_defs PROOF_STATE_EFFECTS_def)

section \<open>Properties\<close>


end
