(* ===== verification/Run_Result.thy ===== *)
theory Run_Result
  imports Committed_History "HOL-Library.Multiset"
begin

text \<open>
  The verdict of a prover run: \<open>workflow/schemas/prover_result.py\<close> (the stored result), the
  completion candidate of \<open>workflow/tree/result.py\<close> and the acceptance gates of
  \<open>workflow/proof_acceptance.py\<close>.

  A stored result is the JSON value of its file; writing sorts the keys of every object. The file
  system is a record of what path resolution and file hashing answer, and the canonical projection
  of a session (\<open>read_proof_state_projection\<close>) is an argument: a projection or the text of the
  exception it raised. SHA-256 of a text is an argument.
\<close>

section \<open>The stored result\<close>

datatype result_error = ResultValueError str | ResultTypeError

definition PROVER_RUN_VERIFIED :: str where "PROVER_RUN_VERIFIED = ''verified''"
definition PROVER_RUN_INCOMPLETE :: str where "PROVER_RUN_INCOMPLETE = ''incomplete''"
definition PROVER_RUN_INFRASTRUCTURE_INVALID :: str where
  "PROVER_RUN_INFRASTRUCTURE_INVALID = ''infrastructure_invalid''"
definition PROVER_RUN_STATUSES :: "str list" where
  "PROVER_RUN_STATUSES = [PROVER_RUN_VERIFIED, PROVER_RUN_INCOMPLETE, PROVER_RUN_INFRASTRUCTURE_INVALID]"

lemmas run_statuses = PROVER_RUN_VERIFIED_def PROVER_RUN_INCOMPLETE_def PROVER_RUN_INFRASTRUCTURE_INVALID_def
  PROVER_RUN_STATUSES_def

text \<open>The fields with their defaults, in declaration order; a result is its fields by name.\<close>

definition RESULT_FIELDS :: "(str \<times> json) list" where
  "RESULT_FIELDS =
     [(''status'', JStr PROVER_RUN_INCOMPLETE), (''session_id'', JStr []), (''turns'', JInt 0),
      (''elapsed_seconds'', JFloat ''0.0''), (''skipped'', JBool False), (''error'', JStr []),
      (''selected_node_id'', JStr []), (''ec_session_dir'', JStr []), (''completion_candidate'', JObj []),
      (''verification'', JObj []), (''infrastructure_errors'', JList []), (''event_contract_checked'', JBool False),
      (''event_contract_ok'', JBool False), (''event_contract_errors'', JList []),
      (''archived_ec_session_dirs'', JList []), (''resume_capsules'', JList []),
      (''information_source_audit'', JList []), (''notes'', JStr []), (''report'', JObj [])]"

type_synonym prover_result = "(str \<times> json) list"

definition post_init :: "prover_result \<Rightarrow> result_error + unit" where
  "post_init r =
     (let status = jget r ''status'' in
      case status of
        JList _ \<Rightarrow> Inl ResultTypeError
      | JObj _ \<Rightarrow> Inl ResultTypeError
      | _ \<Rightarrow>
          if status \<notin> JStr ` set PROVER_RUN_STATUSES
          then Inl (ResultValueError (''unsupported prover run status: '' @ py_repr status))
          else (case jget r ''verification'' of
                  JObj verification \<Rightarrow>
                    (let passed = str_or_empty (jget verification ''status'') = ''pass'' in
                     if status = JStr PROVER_RUN_VERIFIED \<and> \<not> passed
                     then Inl (ResultValueError ''verified prover run requires passing verification'')
                     else if status = JStr PROVER_RUN_INFRASTRUCTURE_INVALID
                       \<and> \<not> (py_truthy (jget r ''infrastructure_errors'') \<or> py_truthy (jget r ''error''))
                     then Inl (ResultValueError ''infrastructure-invalid run requires an error'')
                     else if status \<noteq> JStr PROVER_RUN_VERIFIED \<and> passed
                     then Inl (ResultValueError ''passing verification must produce a verified run'')
                     else Inr ())
                | _ \<Rightarrow> Inl ResultTypeError))"

definition ProverResult :: "(str \<times> json) list \<Rightarrow> result_error + prover_result" where
  "ProverResult kwargs =
     (let r = map (\<lambda>(n, dflt). (n, case dict_get kwargs n of Some v \<Rightarrow> v | None \<Rightarrow> dflt)) RESULT_FIELDS
      in case post_init r of Inl e \<Rightarrow> Inl e | Inr _ \<Rightarrow> Inr r)"

definition result_is_verified :: "prover_result \<Rightarrow> bool" where
  "result_is_verified r \<longleftrightarrow> jget r ''status'' = JStr PROVER_RUN_VERIFIED"

definition result_id :: "(str \<Rightarrow> str) \<Rightarrow> prover_result \<Rightarrow> str" where
  "result_id sha256 r = sha256 (json_dumps True (JObj r))"

definition result_to_dict :: "(str \<Rightarrow> str) \<Rightarrow> prover_result \<Rightarrow> (str \<times> json) list" where
  "result_to_dict sha256 r = (''schema_version'', JInt 1) # (''result_id'', JStr (result_id sha256 r)) # r"

text \<open>\<open>json.loads(json.dumps(value, sort_keys=True))\<close>.\<close>

fun sorted_json :: "json \<Rightarrow> json" where
  "sorted_json (JList js) = JList (map sorted_json js)"
| "sorted_json (JObj d) = JObj (sort_key fst (map (\<lambda>kv. (fst kv, sorted_json (snd kv))) d))"
| "sorted_json j = j"

definition save_result :: "(str \<Rightarrow> str) \<Rightarrow> prover_result \<Rightarrow> json" where
  "save_result sha256 r = sorted_json (JObj (result_to_dict sha256 r))"

definition load_result :: "(str \<Rightarrow> str) \<Rightarrow> json \<Rightarrow> result_error + prover_result" where
  "load_result sha256 data =
     (case data of
        JObj d \<Rightarrow>
          if \<not> py_eq_int (jget d ''schema_version'') 1 then Inl (ResultValueError ''unsupported ProverResult schema'')
          else (case ProverResult (filter (\<lambda>kv. fst kv \<in> fst ` set RESULT_FIELDS) d) of
                  Inl e \<Rightarrow> Inl e
                | Inr r \<Rightarrow>
                    if jget d ''result_id'' \<noteq> JStr (result_id sha256 r)
                    then Inl (ResultValueError ''ProverResult identity hash mismatch'') else Inr r)
      | _ \<Rightarrow> Inl (ResultValueError ''unsupported ProverResult schema''))"

section \<open>Completion candidates\<close>

record file_world =
  fw_expand :: "str \<Rightarrow> str"
  fw_resolve :: "str \<Rightarrow> str"
  fw_exists :: "str \<Rightarrow> bool"
  fw_sha256 :: "str \<Rightarrow> str option"

text \<open>The fields of a session snapshot a candidate is made from.\<close>

record session_snapshot =
  ss_session_dir :: str
  ss_ok :: bool
  ss_status :: str
  ss_completion_candidate :: bool
  ss_close_authority :: "(str \<times> json) list"
  ss_tactic_count :: int

record closure_candidate =
  cc_candidate_id :: str
  cc_node_id :: str
  cc_session_dir :: str
  cc_session_status :: str
  cc_target_file :: str
  cc_target_file_sha256 :: str
  cc_target_lemma :: str
  cc_history_sha256 :: str
  cc_tactic_count :: int
  cc_close_result_event_id :: str
  cc_close_event_id :: str
  cc_terminal_event_id :: str

definition history_path :: "str \<Rightarrow> str" where
  "history_path session_dir = session_dir @ ''/history.ec''"

definition candidate_payload :: "closure_candidate \<Rightarrow> (str \<times> json) list" where
  "candidate_payload c =
     [(''node_id'', JStr (cc_node_id c)), (''session_dir'', JStr (cc_session_dir c)),
      (''session_status'', JStr (cc_session_status c)), (''target_file'', JStr (cc_target_file c)),
      (''target_file_sha256'', JStr (cc_target_file_sha256 c)), (''target_lemma'', JStr (cc_target_lemma c)),
      (''history_sha256'', JStr (cc_history_sha256 c)), (''tactic_count'', JInt (cc_tactic_count c)),
      (''close_result_event_id'', JStr (cc_close_result_event_id c)), (''close_event_id'', JStr (cc_close_event_id c)),
      (''terminal_event_id'', JStr (cc_terminal_event_id c))]"

definition candidate_to_dict :: "closure_candidate \<Rightarrow> (str \<times> json) list" where
  "candidate_to_dict c = (''candidate_id'', JStr (cc_candidate_id c)) # candidate_payload c"

definition from_snapshot ::
  "(str \<Rightarrow> str) \<Rightarrow> file_world \<Rightarrow> str \<Rightarrow> session_snapshot \<Rightarrow> str \<Rightarrow> str \<Rightarrow> result_error + closure_candidate" where
  "from_snapshot sha256 fw node_id snapshot target_file target_lemma =
     (let authority = ss_close_authority snapshot;
          ids = map (\<lambda>k. str_or_empty (jget authority k)) [''close_result_event_id'', ''close_event_id'', ''terminal_event_id''];
          session = fw_resolve fw (ss_session_dir snapshot);
          source = fw_resolve fw target_file
      in if \<not> ss_ok snapshot then Inl (ResultValueError ''completion candidate snapshot is not authoritative'')
         else if \<not> ss_completion_candidate snapshot
         then Inl (ResultValueError ''completion candidate requires committed qed authority'')
         else if jget authority ''authoritative'' \<noteq> JBool True
         then Inl (ResultValueError ''completion candidate has no close occurrence authority'')
         else if [] \<in> set ids then Inl (ResultValueError ''completion candidate close identity is incomplete'')
         else (case fw_sha256 fw (history_path session) of
                 None \<Rightarrow> Inl (ResultValueError ''completion candidate history is unavailable'')
               | Some history_sha \<Rightarrow>
                 (case fw_sha256 fw source of
                    None \<Rightarrow> Inl (ResultValueError ''completion candidate target source is unavailable'')
                  | Some source_sha \<Rightarrow>
                      (let c = \<lparr>cc_candidate_id = [], cc_node_id = node_id, cc_session_dir = session,
                             cc_session_status = ss_status snapshot, cc_target_file = source,
                             cc_target_file_sha256 = source_sha, cc_target_lemma = target_lemma,
                             cc_history_sha256 = history_sha, cc_tactic_count = ss_tactic_count snapshot,
                             cc_close_result_event_id = ids ! 0, cc_close_event_id = ids ! 1,
                             cc_terminal_event_id = ids ! 2\<rparr>
                       in if node_id = [] \<or> target_lemma = []
                          then Inl (ResultValueError ''completion candidate target identity is incomplete'')
                          else Inr (c\<lparr>cc_candidate_id := sha256 (json_dumps True (JObj (candidate_payload c)))\<rparr>)))))"

section \<open>Acceptance gates\<close>

text \<open>The fields of the canonical projection the gates read.\<close>

record proof_projection =
  pp_goals_discharged :: bool
  pp_session_completion_candidate :: bool
  pp_qed_committed :: bool
  pp_offline_verified :: bool
  pp_event_log :: str
  pp_event_log_exists :: bool
  pp_verification_status :: json
  pp_event_errors :: "str list"
  pp_consistency_errors :: "str list"
  pp_event_warnings :: "str list"
  pp_consistency_warnings :: "str list"
  pp_close_result_event_id :: str
  pp_close_event_id :: str
  pp_terminal_event_id :: str

record contract_gate =
  eg_ok :: bool
  eg_session_dir :: str
  eg_event_log :: str
  eg_event_log_exists :: bool
  eg_goals_discharged :: bool
  eg_session_completion_candidate :: bool
  eg_qed_committed :: bool
  eg_completion_candidate_bound :: bool
  eg_candidate_id :: str
  eg_verification_status :: json
  eg_errors :: "str list"
  eg_warnings :: "str list"

definition empty_gate :: contract_gate where
  "empty_gate = \<lparr>eg_ok = False, eg_session_dir = [], eg_event_log = [], eg_event_log_exists = False,
     eg_goals_discharged = False, eg_session_completion_candidate = False, eg_qed_committed = False,
     eg_completion_candidate_bound = False, eg_candidate_id = [], eg_verification_status = JNull,
     eg_errors = [], eg_warnings = []\<rparr>"

definition gate_to_dict :: "contract_gate \<Rightarrow> (str \<times> json) list" where
  "gate_to_dict g =
     [(''ok'', JBool (eg_ok g)), (''session_dir'', JStr (eg_session_dir g)), (''event_log'', JStr (eg_event_log g)),
      (''event_log_exists'', JBool (eg_event_log_exists g)), (''goals_discharged'', JBool (eg_goals_discharged g)),
      (''session_completion_candidate'', JBool (eg_session_completion_candidate g)),
      (''qed_committed'', JBool (eg_qed_committed g)),
      (''completion_candidate_bound'', JBool (eg_completion_candidate_bound g)),
      (''candidate_id'', JStr (eg_candidate_id g)),
      (''verification_status'', eg_verification_status g),
      (''errors'', JList (map JStr (eg_errors g))), (''warnings'', JList (map JStr (eg_warnings g)))]"

definition error_summary :: "contract_gate \<Rightarrow> nat \<Rightarrow> str" where
  "error_summary g limit =
     (if eg_errors g = [] then []
      else py_join ''; '' (take limit (eg_errors g))
        @ (if length (eg_errors g) \<le> limit then [] else '' (+'' @ int_str (int (length (eg_errors g) - limit)) @ '' more)''))"

definition resolve_session_dir :: "file_world \<Rightarrow> str option \<Rightarrow> str option" where
  "resolve_session_dir fw session_dir =
     (case session_dir of None \<Rightarrow> None | Some d \<Rightarrow> if d = [] then None else Some (fw_expand fw d))"

definition gate_errors :: "bool \<Rightarrow> bool \<Rightarrow> bool \<Rightarrow> proof_projection \<Rightarrow> str list" where
  "gate_errors require_goals_discharged require_session_completion_candidate require_offline_verified p =
     pp_event_errors p @ pp_consistency_errors p
     @ (if require_goals_discharged \<and> \<not> pp_goals_discharged p
        then [''authoritative current goal discharge is required''] else [])
     @ (if require_session_completion_candidate \<and> \<not> pp_session_completion_candidate p
        then [''committed session completion candidate authority is required''] else [])
     @ (if require_offline_verified \<and> \<not> pp_offline_verified p
        then [''passing offline verification authority is required''] else [])"

definition read_projection_gate ::
  "file_world \<Rightarrow> (str \<Rightarrow> str + proof_projection) \<Rightarrow> str option \<Rightarrow> bool \<Rightarrow> bool \<Rightarrow> bool \<Rightarrow> contract_gate \<times> proof_projection option" where
  "read_projection_gate fw read session_dir require_goals require_candidate require_verified =
     (case resolve_session_dir fw session_dir of
        None \<Rightarrow> (empty_gate\<lparr>eg_errors := [''session directory is unknown'']\<rparr>, None)
      | Some path \<Rightarrow>
          (case read path of
             Inl exc \<Rightarrow>
               (empty_gate\<lparr>eg_session_dir := fw_resolve fw path, eg_event_log := fw_resolve fw (path @ ''/events.jsonl''),
                  eg_event_log_exists := fw_exists fw (path @ ''/events.jsonl''),
                  eg_errors := [''canonical proof-state projection failed: '' @ exc]\<rparr>, None)
           | Inr p \<Rightarrow>
               (let errors = gate_errors require_goals require_candidate require_verified p in
                (\<lparr>eg_ok = (errors = []), eg_session_dir = fw_resolve fw path, eg_event_log = pp_event_log p,
                  eg_event_log_exists = pp_event_log_exists p, eg_goals_discharged = pp_goals_discharged p,
                  eg_session_completion_candidate = pp_session_completion_candidate p,
                  eg_qed_committed = pp_qed_committed p, eg_completion_candidate_bound = False, eg_candidate_id = [],
                  eg_verification_status = pp_verification_status p, eg_errors = errors,
                  eg_warnings = pp_event_warnings p @ pp_consistency_warnings p\<rparr>, Some p))))"

definition validate_acceptance_event_contract ::
  "file_world \<Rightarrow> (str \<Rightarrow> str + proof_projection) \<Rightarrow> str option \<Rightarrow> contract_gate" where
  "validate_acceptance_event_contract fw read session_dir = fst (read_projection_gate fw read session_dir True True True)"

definition drift_errors :: "file_world \<Rightarrow> closure_candidate \<Rightarrow> proof_projection \<Rightarrow> str list" where
  "drift_errors fw c p =
     (if (cc_close_result_event_id c, cc_close_event_id c, cc_terminal_event_id c)
          \<noteq> (pp_close_result_event_id p, pp_close_event_id p, pp_terminal_event_id p)
      then [''completion candidate close occurrence identity drifted''] else [])
     @ (if fw_sha256 fw (history_path (fw_resolve fw (cc_session_dir c))) \<noteq> Some (cc_history_sha256 c)
        then [''completion candidate history hash drifted''] else [])
     @ (if fw_sha256 fw (fw_resolve fw (cc_target_file c)) \<noteq> Some (cc_target_file_sha256 c)
        then [''completion candidate target source hash drifted''] else [])"

definition validate_completion_candidate_contract ::
  "file_world \<Rightarrow> (str \<Rightarrow> str + proof_projection) \<Rightarrow> closure_candidate \<Rightarrow> contract_gate" where
  "validate_completion_candidate_contract fw read c =
     (case read_projection_gate fw read (Some (cc_session_dir c)) True True False of
        (gate, projection) \<Rightarrow>
          (let errors = eg_errors gate @ (case projection of None \<Rightarrow> [] | Some p \<Rightarrow> drift_errors fw c p)
           in gate\<lparr>eg_ok := (errors = []),
                   eg_qed_committed := (case projection of None \<Rightarrow> False | Some p \<Rightarrow> pp_qed_committed p),
                   eg_completion_candidate_bound := (projection \<noteq> None \<and> errors = []),
                   eg_candidate_id := cc_candidate_id c, eg_errors := errors\<rparr>))"

section \<open>Writing and reading a result\<close>

lemma insort_map_snd:
  "insort_key fst (fst p, g (snd p)) (map (\<lambda>kv. (fst kv, g (snd kv))) ps)
     = map (\<lambda>kv. (fst kv, g (snd kv))) (insort_key fst p ps)"
  by (induction ps) auto

lemma sort_map_snd:
  "sort_key fst (map (\<lambda>kv. (fst kv, g (snd kv))) ps) = map (\<lambda>kv. (fst kv, g (snd kv))) (sort_key fst ps)"
  by (induction ps) (simp_all add: insort_map_snd)

lemma dict_get_sort: "dict_get (sort_key fst d) k = dict_get d k" for d :: "(str \<times> 'v) list"
proof -
  have f: "map_of (filter (\<lambda>kv. fst kv = k) e) k = map_of e k" for e :: "(str \<times> 'v) list"
    by (induction e) auto
  show ?thesis
    unfolding dict_get_def by (subst (1 2) f [symmetric]) (simp only: sort_key_stable)
qed

lemma dict_get_map_snd:
  "dict_get (map (\<lambda>kv. (fst kv, g (snd kv))) d) k = map_option g (dict_get d k)"
  by (induction d) (auto simp: dict_get_def)

lemma json_dumps_sorted: "json_dumps True (sorted_json j) = json_dumps True j"
proof (induction j rule: sorted_json.induct)
  case (1 js)
  then have "map (json_dumps True) (map sorted_json js) = map (json_dumps True) js" by simp
  then show ?case by (simp only: sorted_json.simps json_dumps.simps)
next
  case (2 d)
  define dumps where "dumps = json_dumps True"
  have ih: "map (\<lambda>kv. (fst kv, dumps (sorted_json (snd kv)))) d = map (\<lambda>kv. (fst kv, dumps (snd kv))) d"
    using 2 by (auto simp: dumps_def)
  have "sort_key fst (map (\<lambda>kv. (fst kv, dumps (snd kv))) (sort_key fst (map (\<lambda>kv. (fst kv, sorted_json (snd kv))) d)))
      = sort_key fst (sort_key fst (map (\<lambda>kv. (fst kv, dumps (sorted_json (snd kv)))) d))"
    by (simp add: sort_map_snd [where g = sorted_json] sort_map_snd [where g = "\<lambda>v. dumps (sorted_json v)"]
        del: map_map) (simp add: o_def sort_map_snd [where g = "\<lambda>v. dumps (sorted_json v)"])
  also have "\<dots> = sort_key fst (map (\<lambda>kv. (fst kv, dumps (snd kv))) d)"
    by (simp add: ih sort_key_id_if_sorted)
  finally show ?case by (simp add: dumps_def case_prod_beta')
qed simp_all

lemma sorted_json_truthy: "py_truthy (sorted_json j) = py_truthy j"
proof (cases j)
  case (JObj d)
  have "sort_key fst (map (\<lambda>kv. (fst kv, sorted_json (snd kv))) d) = [] \<longleftrightarrow> d = []"
    by (metis length_0_conv length_map length_sort)
  then show ?thesis by (simp add: JObj py_truthy_def)
qed (simp_all add: py_truthy_def)

lemma sorted_json_str: "sorted_json j = JStr t \<longleftrightarrow> j = JStr t"
  by (cases j) simp_all

lemma jget_sorted: "jget (sort_key fst (map (\<lambda>kv. (fst kv, sorted_json (snd kv))) d)) k = sorted_json (jget d k)"
  by (simp add: jget_def dict_get_sort dict_get_map_snd split: option.split)

lemma sorted_pass: "str_or_empty (sorted_json j) = ''pass'' \<longleftrightarrow> str_or_empty j = ''pass''"
  by (cases j) (simp_all add: str_or_empty_def sorted_json_truthy py_str_def del: sorted_json.simps(2), simp)

abbreviation sorted_fields :: "(str \<times> json) list \<Rightarrow> (str \<times> json) list" where
  "sorted_fields r \<equiv> map (\<lambda>kv. (fst kv, sorted_json (snd kv))) r"

lemma jget_sorted_fields: "jget (sorted_fields r) k = sorted_json (jget r k)"
  by (simp add: jget_def dict_get_map_snd split: option.split)

lemma post_init_verdict:
  assumes "post_init r = Inr u"
  obtains s v where "jget r ''status'' = JStr s" "s \<in> set PROVER_RUN_STATUSES" "jget r ''verification'' = JObj v"
    "s = PROVER_RUN_VERIFIED \<longleftrightarrow> str_or_empty (jget v ''status'') = ''pass''"
    "s = PROVER_RUN_INFRASTRUCTURE_INVALID \<Longrightarrow>
       py_truthy (jget r ''infrastructure_errors'') \<or> py_truthy (jget r ''error'')"
  using assms by (auto simp: post_init_def Let_def split: json.splits if_splits)

lemma post_init_intro:
  assumes "jget r ''status'' = JStr s" "s \<in> set PROVER_RUN_STATUSES" "jget r ''verification'' = JObj v"
    "s = PROVER_RUN_VERIFIED \<longleftrightarrow> str_or_empty (jget v ''status'') = ''pass''"
    "s = PROVER_RUN_INFRASTRUCTURE_INVALID \<Longrightarrow>
       py_truthy (jget r ''infrastructure_errors'') \<or> py_truthy (jget r ''error'')"
  shows "post_init r = Inr ()"
  using assms by (auto simp: post_init_def Let_def)

lemma post_init_sorted:
  assumes "post_init r = Inr u" shows "post_init (sorted_fields r) = Inr ()"
  using assms
proof (cases rule: post_init_verdict)
  case (1 s v)
  let ?v = "sort_key fst (sorted_fields v)"
  show ?thesis
  proof (rule post_init_intro [where v = ?v])
    show "jget (sorted_fields r) ''status'' = JStr s" by (simp add: jget_sorted_fields 1(1))
    show "jget (sorted_fields r) ''verification'' = JObj ?v" by (simp add: jget_sorted_fields 1(3))
    show "s = PROVER_RUN_VERIFIED \<longleftrightarrow> str_or_empty (jget ?v ''status'') = ''pass''"
      using 1(4) by (simp only: jget_sorted sorted_pass)
    show "s = PROVER_RUN_INFRASTRUCTURE_INVALID \<Longrightarrow>
      py_truthy (jget (sorted_fields r) ''infrastructure_errors'') \<or> py_truthy (jget (sorted_fields r) ''error'')"
      using 1(5) by (simp only: jget_sorted_fields sorted_json_truthy)
  qed (rule 1(2))
qed

lemma result_fields_distinct: "distinct (map fst RESULT_FIELDS)"
  by (simp add: RESULT_FIELDS_def)

lemma ProverResult_keys: "ProverResult kwargs = Inr r \<Longrightarrow> dict_keys r = map fst RESULT_FIELDS"
  by (auto simp: ProverResult_def dict_keys_def Let_def split: sum.splits)

lemma ProverResult_post: "ProverResult kwargs = Inr r \<Longrightarrow> post_init r = Inr ()"
  by (auto simp: ProverResult_def Let_def split: sum.splits)

lemma ProverResult_of_fields:
  assumes keys: "dict_keys r = map fst RESULT_FIELDS" and ok: "post_init r = Inr ()"
    and get: "\<And>n. n \<in> fst ` set RESULT_FIELDS \<Longrightarrow> dict_get d n = dict_get r n"
  shows "ProverResult d = Inr r"
proof -
  have "(n, case dict_get d n of Some v \<Rightarrow> v | None \<Rightarrow> dflt) = (n, the (dict_get r n))"
    if "(n, dflt) \<in> set RESULT_FIELDS" for n dflt
  proof -
    have n: "n \<in> fst ` set RESULT_FIELDS" using that by force
    with keys have "dict_get r n \<noteq> None" using dict_keys_get [of n r] by simp
    with get [OF n] show ?thesis by auto
  qed
  then have "map (\<lambda>(n, dflt). (n, case dict_get d n of Some v \<Rightarrow> v | None \<Rightarrow> dflt)) RESULT_FIELDS
      = map (\<lambda>n. (n, the (dict_get r n))) (map fst RESULT_FIELDS)"
    by (auto simp: case_prod_beta')
  also have "\<dots> = r" by (rule dict_keyed_id [OF result_fields_distinct keys])
  finally show ?thesis by (simp only: ProverResult_def Let_def ok sum.case)
qed

text \<open>C31. Writing a result and reading the file back gives the same result: every field has the value
  written (objects with their keys sorted), the verdict is the same and the identity hash is the one
  stored in the file.\<close>

theorem result_round_trip:
  assumes "ProverResult kwargs = Inr r"
  shows "load_result sha256 (save_result sha256 r) = Inr (sorted_fields r)
    \<and> result_id sha256 (sorted_fields r) = result_id sha256 r
    \<and> result_is_verified (sorted_fields r) = result_is_verified r"
proof -
  let ?d = "sort_key fst (sorted_fields (result_to_dict sha256 r))"
  have keys: "dict_keys r = map fst RESULT_FIELDS" by (rule ProverResult_keys [OF assms])
  have "json_dumps True (JObj (sort_key fst (sorted_fields r))) = json_dumps True (JObj (sorted_fields r))"
    by (simp add: case_prod_beta' sort_map_snd [where g = sorted_json] sort_map_snd [where g = "json_dumps True"])
      (simp add: o_def sort_map_snd [where g = "\<lambda>v. json_dumps True (sorted_json v)"] sort_key_id_if_sorted)
  then have id: "result_id sha256 (sorted_fields r) = result_id sha256 r"
    using json_dumps_sorted [of "JObj r"] by (simp only: result_id_def sorted_json.simps)
  have "ProverResult (filter (\<lambda>kv. fst kv \<in> fst ` set RESULT_FIELDS) ?d) = Inr (sorted_fields r)"
  proof (rule ProverResult_of_fields)
    show "dict_keys (sorted_fields r) = map fst RESULT_FIELDS" using keys by (simp add: dict_keys_def o_def)
    show "post_init (sorted_fields r) = Inr ()" by (rule post_init_sorted [OF ProverResult_post [OF assms]])
    fix n assume n: "n \<in> fst ` set RESULT_FIELDS"
    then have "n \<noteq> ''schema_version'' \<and> n \<noteq> ''result_id''" by (auto simp: RESULT_FIELDS_def)
    then have "dict_get ?d n = dict_get (sorted_fields r) n"
      unfolding dict_get_sort dict_get_map_snd by (simp add: result_to_dict_def dict_get_def)
    then show "dict_get (filter (\<lambda>kv. fst kv \<in> fst ` set RESULT_FIELDS) ?d) n = dict_get (sorted_fields r) n"
      using n dict_get_filter_key [of "\<lambda>k. k \<in> fst ` set RESULT_FIELDS" ?d n]
      by (simp add: case_prod_beta')
  qed
  moreover have "jget ?d ''schema_version'' = JInt 1" "jget ?d ''result_id'' = JStr (result_id sha256 r)"
    unfolding jget_sorted by (simp_all add: result_to_dict_def jget_def dict_get_def)
  ultimately have "load_result sha256 (save_result sha256 r) = Inr (sorted_fields r)"
    by (simp only: load_result_def save_result_def sorted_json.simps json.case py_eq_int_def sum.case id
        if_False not_True_eq_False simp_thms if_cancel refl)
  with id show ?thesis by (simp add: result_is_verified_def jget_sorted_fields sorted_json_str)
qed

theorem result_round_trip_witness:
  "\<exists>r. ProverResult [(''status'', JStr ''verified''), (''verification'', JObj [(''status'', JStr ''pass'')])] = Inr r
    \<and> result_is_verified r
    \<and> load_result (\<lambda>t. t) (save_result (\<lambda>t. t) r) = Inr (sorted_fields r)"
proof -
  let ?kw = "[(''status'', JStr ''verified''), (''verification'', JObj [(''status'', JStr ''pass'')])]"
  obtain r where r: "ProverResult ?kw = Inr r" "result_is_verified r"
    by (auto simp: ProverResult_def RESULT_FIELDS_def post_init_def run_statuses jget_def dict_get_def result_is_verified_def)
  with result_round_trip [OF r(1), of "\<lambda>t. t"] show ?thesis by blast
qed

section \<open>What a loaded result guarantees\<close>

text \<open>C30. A result that loads has its identity checked and its verdict consistent: the file carries
  schema version 1 and the hash recomputed from the loaded fields, each field is the file's value or
  the default, the status is one of the three, it is \<open>verified\<close> exactly when the stored verification
  passed, and an infrastructure failure names an error.\<close>

theorem loaded_result_consistent:
  assumes "load_result sha256 data = Inr r"
  shows "\<exists>d s v. data = JObj d \<and> py_eq_int (jget d ''schema_version'') 1
    \<and> jget d ''result_id'' = JStr (sha256 (json_dumps True (JObj r)))
    \<and> (\<forall>(n, dflt) \<in> set RESULT_FIELDS. jget r n = (case dict_get d n of Some j \<Rightarrow> j | None \<Rightarrow> dflt))
    \<and> jget r ''status'' = JStr s \<and> s \<in> {''verified'', ''incomplete'', ''infrastructure_invalid''}
    \<and> jget r ''verification'' = JObj v
    \<and> (result_is_verified r \<longleftrightarrow> str_or_empty (jget v ''status'') = ''pass'')
    \<and> (s = ''infrastructure_invalid'' \<longrightarrow>
        py_truthy (jget r ''infrastructure_errors'') \<or> py_truthy (jget r ''error''))"
proof -
  let ?F = "\<lambda>kv :: str \<times> json. fst kv \<in> fst ` set RESULT_FIELDS"
  obtain d where d: "data = JObj d" "py_eq_int (jget d ''schema_version'') 1" "ProverResult (filter ?F d) = Inr r"
    "jget d ''result_id'' = JStr (sha256 (json_dumps True (JObj r)))"
    using assms by (auto simp: load_result_def result_id_def split: json.splits if_splits sum.splits)
  have r: "r = map (\<lambda>(n, dflt). (n, case dict_get (filter ?F d) n of Some j \<Rightarrow> j | None \<Rightarrow> dflt)) RESULT_FIELDS"
    using d(3) by (auto simp: ProverResult_def Let_def split: sum.splits)
  have fields: "jget r n = (case dict_get d n of Some j \<Rightarrow> j | None \<Rightarrow> dflt)" if "(n, dflt) \<in> set RESULT_FIELDS" for n dflt
  proof -
    have "dict_get (filter ?F d) n = dict_get d n"
      using that dict_get_filter_key [of "\<lambda>k. k \<in> fst ` set RESULT_FIELDS" d n] by (force simp: case_prod_beta')
    moreover have "(n, case dict_get (filter ?F d) n of Some j \<Rightarrow> j | None \<Rightarrow> dflt) \<in> set r"
      using that by (subst r) (force simp: image_iff)
    moreover have "distinct (map fst r)"
      using ProverResult_keys [OF d(3)] result_fields_distinct by (simp add: dict_keys_def)
    ultimately show ?thesis by (simp add: jget_def dict_get_def)
  qed
  show ?thesis
    using ProverResult_post [OF d(3)]
  proof (cases rule: post_init_verdict)
    case (1 s v)
    have "result_is_verified r \<longleftrightarrow> str_or_empty (jget v ''status'') = ''pass''"
      using 1(1,4) by (simp add: result_is_verified_def)
    moreover have "s \<in> {''verified'', ''incomplete'', ''infrastructure_invalid''}"
      using 1(2) by (simp add: run_statuses)
    ultimately show ?thesis
      using d 1(1,3,5) fields by (auto simp: PROVER_RUN_INFRASTRUCTURE_INVALID_def)
  qed
qed

theorem loaded_result_consistent_witness:
  "\<exists>r d. load_result (\<lambda>t. ''h'') (JObj [(''schema_version'', JInt 1), (''result_id'', JStr ''h''), (''turns'', JInt 4)]) = Inr r
    \<and> JObj [(''schema_version'', JInt 1), (''result_id'', JStr ''h''), (''turns'', JInt 4)] = JObj d
    \<and> jget r ''turns'' = JInt 4 \<and> jget r ''status'' = JStr ''incomplete'' \<and> \<not> result_is_verified r"
proof -
  let ?d = "[(''schema_version'', JInt 1), (''result_id'', JStr ''h''), (''turns'', JInt 4)]"
  obtain r where r: "load_result (\<lambda>t. ''h'') (JObj ?d) = Inr r"
    by (simp add: load_result_def ProverResult_def RESULT_FIELDS_def post_init_def run_statuses jget_def dict_get_def
        py_eq_int_def result_id_def)
  obtain d s v where *: "JObj ?d = JObj d"
    "\<forall>(n, dflt) \<in> set RESULT_FIELDS. jget r n = (case dict_get d n of Some j \<Rightarrow> j | None \<Rightarrow> dflt)"
    using loaded_result_consistent [OF r] by blast
  have "d = ?d" using *(1) by simp
  with *(2) have "jget r ''turns'' = JInt 4" "jget r ''status'' = JStr ''incomplete''"
    by (simp_all add: RESULT_FIELDS_def dict_get_def run_statuses)
  with r show ?thesis by (auto simp: result_is_verified_def PROVER_RUN_VERIFIED_def)
qed

section \<open>The candidate gate\<close>

lemma from_snapshot_fields:
  assumes "from_snapshot sha256 fw node_id snap target_file target_lemma = Inr c"
  shows "cc_session_dir c = fw_resolve fw (ss_session_dir snap)" "cc_target_file c = fw_resolve fw target_file"
    "fw_sha256 fw (history_path (cc_session_dir c)) = Some (cc_history_sha256 c)"
    "fw_sha256 fw (cc_target_file c) = Some (cc_target_file_sha256 c)"
    "ss_completion_candidate snap" "cc_node_id c = node_id" "cc_target_lemma c = target_lemma"
    "cc_candidate_id c = sha256 (json_dumps True (JObj (candidate_payload c)))"
  using assms
  by (auto simp: from_snapshot_def Let_def candidate_payload_def split: if_splits option.splits)

lemma drift_errors_none:
  "drift_errors fw c p = [] \<longleftrightarrow>
     (cc_close_result_event_id c, cc_close_event_id c, cc_terminal_event_id c)
       = (pp_close_result_event_id p, pp_close_event_id p, pp_terminal_event_id p)
     \<and> fw_sha256 fw (history_path (fw_resolve fw (cc_session_dir c))) = Some (cc_history_sha256 c)
     \<and> fw_sha256 fw (fw_resolve fw (cc_target_file c)) = Some (cc_target_file_sha256 c)"
  by (auto simp: drift_errors_def)

lemma gate_errors_none:
  "gate_errors True True v p = [] \<longleftrightarrow>
     pp_event_errors p = [] \<and> pp_consistency_errors p = [] \<and> pp_goals_discharged p
     \<and> pp_session_completion_candidate p \<and> (v \<longrightarrow> pp_offline_verified p)"
  by (simp add: gate_errors_def)

lemma candidate_gate_ok:
  assumes "cc_session_dir c \<noteq> []"
  shows "eg_ok (validate_completion_candidate_contract fw read c) \<longleftrightarrow>
    (\<exists>p. read (fw_expand fw (cc_session_dir c)) = Inr p \<and> gate_errors True True False p = [] \<and> drift_errors fw c p = [])"
  using assms
  by (simp add: validate_completion_candidate_contract_def read_projection_gate_def resolve_session_dir_def Let_def
      split: sum.split)

text \<open>C4. The completion gate against the state the candidate was made from: a candidate taken from a
  session snapshot passes exactly when the session's canonical projection can be read and has no event
  or consistency error, its goals are discharged and its completion is committed, the three closing
  events are the candidate's, and neither the history nor the target source has changed since.\<close>

theorem candidate_gate_exact:
  assumes made: "from_snapshot sha256 fw node_id snap target_file target_lemma = Inr c"
    and resolved: "\<forall>p. fw_resolve fw p \<noteq> [] \<and> fw_resolve fw' (fw_resolve fw p) = fw_resolve fw p"
  shows "eg_ok (validate_completion_candidate_contract fw' read c) \<longleftrightarrow>
    (\<exists>p. read (fw_expand fw' (cc_session_dir c)) = Inr p
       \<and> pp_event_errors p = [] \<and> pp_consistency_errors p = []
       \<and> pp_goals_discharged p \<and> pp_session_completion_candidate p
       \<and> (pp_close_result_event_id p, pp_close_event_id p, pp_terminal_event_id p)
           = (cc_close_result_event_id c, cc_close_event_id c, cc_terminal_event_id c))
    \<and> fw_sha256 fw' (history_path (cc_session_dir c)) = fw_sha256 fw (history_path (cc_session_dir c))
    \<and> fw_sha256 fw' (cc_target_file c) = fw_sha256 fw (cc_target_file c)"
proof -
  note f = from_snapshot_fields [OF made]
  have "cc_session_dir c \<noteq> []" "fw_resolve fw' (cc_session_dir c) = cc_session_dir c"
    "fw_resolve fw' (cc_target_file c) = cc_target_file c"
    using resolved f(1,2) by simp_all
  then show ?thesis
    by (auto simp: candidate_gate_ok gate_errors_none drift_errors_none f(3,4))
qed

theorem candidate_gate_exact_witness:
  "let fw = \<lparr>fw_expand = \<lambda>p. p, fw_resolve = \<lambda>p. if hd (p @ ''x'') = CHR ''/'' then p else ''/'' @ p,
              fw_exists = \<lambda>p. True, fw_sha256 = \<lambda>p. Some (rev p)\<rparr>;
       snap = \<lparr>ss_session_dir = ''s'', ss_ok = True, ss_status = ''closed'', ss_completion_candidate = True,
               ss_close_authority = [(''authoritative'', JBool True), (''close_result_event_id'', JStr ''e1''),
                  (''close_event_id'', JStr ''e2''), (''terminal_event_id'', JStr ''e3'')], ss_tactic_count = 3\<rparr>;
       p = \<lparr>pp_goals_discharged = True, pp_session_completion_candidate = True, pp_qed_committed = True,
            pp_offline_verified = False, pp_event_log = ''l'', pp_event_log_exists = True, pp_verification_status = JNull,
            pp_event_errors = [], pp_consistency_errors = [], pp_event_warnings = [], pp_consistency_warnings = [],
            pp_close_result_event_id = ''e1'', pp_close_event_id = ''e2'', pp_terminal_event_id = ''e3''\<rparr>
   in \<exists>c. from_snapshot (\<lambda>t. t) fw ''n'' snap ''f.ec'' ''l'' = Inr c
        \<and> eg_ok (validate_completion_candidate_contract fw (\<lambda>d. Inr p) c)
        \<and> \<not> eg_ok (validate_completion_candidate_contract (fw\<lparr>fw_sha256 := \<lambda>p. Some p\<rparr>) (\<lambda>d. Inr p) c)"
proof -
  let ?fw = "\<lparr>fw_expand = \<lambda>p. p, fw_resolve = \<lambda>p. if hd (p @ ''x'') = CHR ''/'' then p else ''/'' @ p,
              fw_exists = \<lambda>p. True, fw_sha256 = \<lambda>p. Some (rev p)\<rparr>"
  let ?snap = "\<lparr>ss_session_dir = ''s'', ss_ok = True, ss_status = ''closed'', ss_completion_candidate = True,
               ss_close_authority = [(''authoritative'', JBool True), (''close_result_event_id'', JStr ''e1''),
                  (''close_event_id'', JStr ''e2''), (''terminal_event_id'', JStr ''e3'')], ss_tactic_count = 3\<rparr>"
  obtain c where c: "from_snapshot (\<lambda>t. t) ?fw ''n'' ?snap ''f.ec'' ''l'' = Inr c" "cc_target_file c = ''/f.ec''"
      "cc_close_result_event_id c = ''e1''" "cc_close_event_id c = ''e2''" "cc_terminal_event_id c = ''e3''"
    by (auto simp: from_snapshot_def jget_def dict_get_def Let_def)
  have res: "\<forall>p. fw_resolve ?fw p \<noteq> [] \<and> fw_resolve (?fw\<lparr>fw_sha256 := h\<rparr>) (fw_resolve ?fw p) = fw_resolve ?fw p" for h
    by (auto simp: hd_append)
  show ?thesis
    using candidate_gate_exact [OF c(1) res] candidate_gate_exact [OF c(1) res [of "fw_sha256 ?fw"]] c
    unfolding Let_def by (intro exI [of _ c]) simp
qed

end
