(* ===== verification/Session_Events.thy ===== *)
theory Session_Events
  imports Committed_History
begin

text \<open>
  The event log of a proof session, \<open>core/easycrypt/session/session_events.py\<close>: the payload
  schemas, the validation of one event and of a whole stream, the lineage of an adopted session and
  the summaries that status views read. An event is the JSON object of its log line. Path resolution
  and SHA-1 are arguments.
\<close>

section \<open>Schemas\<close>

definition SCHEMA_VERSION :: int where "SCHEMA_VERSION = 1"
definition EVENTS_FILENAME :: str where "EVENTS_FILENAME = ''events.jsonl''"

definition RETIRED_EVENT_TYPES :: "str list" where
  "RETIRED_EVENT_TYPES =
     [''agent.view.produced'', ''command.summary.produced'', ''diagnostic.emitted'', ''proof.context_view.produced'',
      ''tool.view.produced'']"

definition RETIRED_EVENT_PAYLOAD_FIELDS :: "(str \<times> str list) list" where
  "RETIRED_EVENT_PAYLOAD_FIELDS = [(''commit.response.produced'', [''agent_view_artifact''])]"

text \<open>The Python types a field may have.\<close>

datatype field_type = TStr | TInt | TBool | TFloat | TList | TDict | TNone

type_synonym fields_schema = "(str \<times> field_type list) list"
type_synonym schemas = "(str \<times> fields_schema \<times> fields_schema) list"

definition instance_of :: "json \<Rightarrow> field_type \<Rightarrow> bool" where
  "instance_of v ty =
     (case (v, ty) of
        (JStr _, TStr) \<Rightarrow> True | (JInt _, TInt) \<Rightarrow> True | (JBool _, TBool) \<Rightarrow> True | (JFloat _, TFloat) \<Rightarrow> True
      | (JList _, TList) \<Rightarrow> True | (JObj _, TDict) \<Rightarrow> True | _ \<Rightarrow> False)"

definition matches_type :: "json \<Rightarrow> field_type list \<Rightarrow> bool" where
  "matches_type v expected =
     (if v = JNull then List.member expected TNone else list_ex (instance_of v) expected)"

fun base_type_name :: "field_type \<Rightarrow> str" where
  "base_type_name TStr = ''str''"
| "base_type_name TInt = ''int''"
| "base_type_name TBool = ''bool''"
| "base_type_name TFloat = ''float''"
| "base_type_name TList = ''list''"
| "base_type_name TDict = ''dict''"
| "base_type_name TNone = ''None''"

definition type_name :: "field_type list \<Rightarrow> str" where
  "type_name expected = py_join '' | '' (map base_type_name expected)"

definition value_type_name :: "json \<Rightarrow> str" where
  "value_type_name v =
     (case v of JNull \<Rightarrow> ''None'' | JBool _ \<Rightarrow> ''bool'' | JInt _ \<Rightarrow> ''int'' | JFloat _ \<Rightarrow> ''float''
      | JStr _ \<Rightarrow> ''str'' | JList _ \<Rightarrow> ''list'' | JObj _ \<Rightarrow> ''dict'')"

definition ENVELOPE_SCHEMA :: fields_schema where
  "ENVELOPE_SCHEMA =
     [(''schema_version'', [TInt]), (''event_id'', [TStr]), (''timestamp'', [TStr]), (''session_id'', [TStr]),
      (''session_dir'', [TStr]), (''source'', [TStr]), (''type'', [TStr]), (''payload'', [TDict])]"

definition SESSION_SCHEMAS :: schemas where
  "SESSION_SCHEMAS =
   [(''session.started'',
      [(''file'', [TStr, TNone]), (''lemma'', [TStr, TNone]), (''include_dirs'', [TList]),
       (''discarded_tactic_count'', [TInt]), (''restart_count'', [TInt])],
      [(''pre_restart_checkpoint_path'', [TStr, TNone]), (''easycrypt_build_id'', [TStr]),
       (''easycrypt_runtime_identity_sha256'', [TStr])]),
    (''session.loaded_context'',
      [(''file'', [TStr]), (''context_file'', [TStr]), (''bytes'', [TInt]), (''lines'', [TInt])],
      []),
    (''ec.routing'',
      [(''backend'', [TStr]), (''reason'', [TStr, TNone])],
      [(''detail'', [TStr])]),
    (''ec.daemon_unavailable'',
      [(''kind'', [TStr]), (''reason'', [TStr]), (''expires_at'', [TStr]), (''ttl_seconds'', [TInt,
       TFloat])],
      [(''prefix_count'', [TInt])]),
    (''session.daemon_context_opened'',
      [(''file'', [TStr]), (''lemma'', [TStr, TNone]), (''include_dirs'', [TList]),
       (''extracted_artifact'', [TStr]), (''mode'', [TStr])],
      []),
    (''session.daemon_context_open_failed'',
      [(''file'', [TStr]), (''lemma'', [TStr, TNone]), (''include_dirs'', [TList]),
       (''extracted_artifact'', [TStr]), (''error'', [TStr]), (''fallback'', [TStr])],
      []),
    (''session.adopted'',
      [(''donor_session_dir'', [TStr]), (''target_session_dir'', [TStr]), (''donor_session_id'',
       [TStr]), (''target_session_id'', [TStr])],
      [])]"

definition TOOL_SCHEMAS :: schemas where
  "TOOL_SCHEMAS =
   [(''tool.called'',
      [(''name'', [TStr]), (''mutates_proof_state'', [TBool]), (''session_dir'', [TStr])],
      [(''file'', [TStr, TNone]), (''lemma'', [TStr, TNone]), (''from_file'', [TStr, TNone]),
       (''has_command'', [TBool]), (''as_json'', [TBool]), (''logged_after'', [TBool]),
       (''verify_lemma'', [TStr])]),
    (''tool.result'',
      [(''name'', [TStr]), (''mutates_proof_state'', [TBool]), (''session_dir'', [TStr]),
       (''exit_code'', [TInt]), (''status'', [TStr])],
      [(''file'', [TStr, TNone]), (''lemma'', [TStr, TNone]), (''from_file'', [TStr, TNone]),
       (''has_command'', [TBool]), (''as_json'', [TBool]), (''verify_lemma'', [TStr])])]"

definition VIEW_SCHEMAS :: schemas where
  "VIEW_SCHEMAS =
   [(''tactic.preflight.produced'',
      [(''schema_version'', [TInt]), (''kind'', [TStr]), (''ok'', [TBool]), (''artifact'', [TStr]),
       (''artifact_hash'', [TStr]), (''proof_status'', [TStr]), (''tactic_sha256'', [TStr]),
       (''accepted'', [TBool]), (''verdict_known'', [TBool]), (''outcome_known'', [TBool]),
       (''error_count'', [TInt])],
      []),
    (''prover.workspace_view.produced'',
      [(''schema_version'', [TInt]), (''view_kind'', [TStr]), (''ok'', [TBool]), (''artifact'',
       [TStr]), (''view_hash'', [TStr]), (''proof_status'', [TStr]),
       (''current_goal_text_fully_shown'', [TBool]), (''current_goal_truncated'', [TBool]),
       (''goal_chars'', [TInt]), (''workspace_chars'', [TInt])],
      []),
    (''compiler.input.produced'',
      [(''schema_version'', [TInt]), (''ok'', [TBool]), (''snapshot_id'', [TStr]), (''artifact'',
       [TStr]), (''artifact_hash'', [TStr]), (''snapshot_sha256'', [TStr]), (''session_id'',
       [TStr]), (''goal_identity'', [TStr]), (''goal_identity_required'', [TBool]),
       (''committed_prefix_identity'', [TStr]), (''source_sha256'', [TStr]), (''lemma'', [TStr]),
       (''easycrypt_runtime_identity_sha256'', [TStr]), (''error_count'', [TInt])],
      []),
    (''compiler.resources.loaded'',
      [(''schema_version'', [TInt]), (''ok'', [TBool]), (''request_id'', [TStr]),
       (''source_snapshot_id'', [TStr]), (''source_event_id'', [TStr]), (''artifact'', [TStr]),
       (''artifact_hash'', [TStr]), (''result_sha256'', [TStr]), (''session_id'', [TStr]),
       (''goal_identity'', [TStr]), (''goal_identity_required'', [TBool]),
       (''committed_prefix_identity'', [TStr]), (''error_count'', [TInt]),
       (''loaded_declaration_count'', [TInt]), (''resource_load_request_count'', [TInt])],
      [])]"

definition NATIVE_SCHEMAS :: schemas where
  "NATIVE_SCHEMAS =
   [(''native.semantic.batch.produced'',
      [(''schema_version'', [TInt]), (''ok'', [TBool]), (''query_id'', [TStr]), (''batch_id'',
       [TStr]), (''request_count'', [TInt]), (''accepted_count'', [TInt]), (''rejected_count'',
       [TInt]), (''artifact'', [TStr]), (''artifact_hash'', [TStr]), (''result_sha256'', [TStr]),
       (''session_id'', [TStr]), (''state_version'', [TInt]), (''goal_identity'', [TStr]),
       (''committed_prefix_identity'', [TStr]), (''easycrypt_runtime_identity_sha256'', [TStr]),
       (''companion_binary_sha256'', [TStr]), (''why3_config_sha256'', [TStr]), (''error_count'',
       [TInt])],
      []),
    (''native.state.produced'',
      [(''schema_version'', [TInt]), (''ok'', [TBool]), (''projection_id'', [TStr]),
       (''request_id'', [TStr]), (''artifact'', [TStr]), (''artifact_hash'', [TStr]),
       (''result_sha256'', [TStr]), (''session_id'', [TStr]), (''state_version'', [TInt]),
       (''goal_identity'', [TStr]), (''committed_prefix_identity'', [TStr]),
       (''easycrypt_runtime_identity_sha256'', [TStr]), (''companion_binary_sha256'', [TStr]),
       (''why3_config_sha256'', [TStr]), (''complete'', [TBool]), (''node_count'', [TInt]),
       (''judgment_kind'', [TStr]), (''error_count'', [TInt])],
      [])]"

definition RESPONSE_SCHEMAS :: schemas where
  "RESPONSE_SCHEMAS =
   [(''commit.response.produced'',
      [(''schema_version'', [TInt]), (''ok'', [TBool]), (''command'', [TStr]), (''status'', [TStr]),
       (''artifact'', [TStr]), (''response_hash'', [TStr]), (''proof_status'', [TStr]),
       (''attempted_count'', [TInt]), (''accepted_count'', [TInt]), (''failed_tactic'', [TStr]),
       (''error_count'', [TInt]), (''warning_count'', [TInt])],
      []),
    (''tactic.execution.produced'',
      [(''schema_version'', [TInt]), (''ok'', [TBool]), (''mode'', [TStr]), (''command'', [TStr]),
       (''status'', [TStr]), (''artifact'', [TStr]), (''result_hash'', [TStr]), (''accepted_count'',
       [TInt]), (''rollback_count'', [TInt]), (''failed_tactic'', [TStr]), (''state_changed'',
       [TBool]), (''history_committed'', [TBool]), (''workspace_artifact'', [TStr]),
       (''workspace_chars'', [TInt]), (''current_goal_text_fully_shown'', [TBool]),
       (''current_goal_truncated'', [TBool]), (''commit_response_artifact'', [TStr]),
       (''raw_result_artifact'', [TStr]), (''error_count'', [TInt]), (''warning_count'', [TInt])],
      []),
    (''episode.timeline.produced'',
      [(''schema_version'', [TInt]), (''ok'', [TBool]), (''artifact'', [TStr]), (''timeline_hash'',
       [TStr]), (''step_count'', [TInt])],
      [(''final_proof_status'', [TStr]), (''note_count'', [TInt]), (''error_count'', [TInt])])]"

definition TACTIC_SCHEMAS :: schemas where
  "TACTIC_SCHEMAS =
   [(''tactic.submitted'',
      [(''tactic'', [TStr]), (''history_lines_before'', [TInt]), (''line_count'', [TInt])],
      [(''deltas_only'', [TBool])]),
    (''goal.changed'',
      [(''tactic'', [TStr]), (''goals_before'', [TInt]), (''goals_after'', [TInt]),
       (''no_more_goals'', [TBool]), (''async_check_close'', [TBool]), (''no_progress'', [TBool]),
       (''candidate_closed'', [TBool])],
      [(''no_progress_reason'', [TStr])]),
    (''tactic.result'',
      [(''tactic'', [TStr]), (''status'', [TStr]), (''history_committed'', [TBool])],
      [(''goals_before'', [TInt]), (''goals_after'', [TInt]), (''has_new_error'', [TBool]),
       (''no_progress'', [TBool]), (''no_progress_reason'', [TStr]), (''rollback_requested'',
       [TBool]), (''history_lines_before'', [TInt]), (''history_lines_after'', [TInt]),
       (''candidate_closed'', [TBool]), (''daemon_used'', [TBool]), (''daemon_rejection'', [TBool]),
       (''error_lines'', [TList]), (''latest_error'', [TStr]), (''reason'', [TStr])]),
    (''proof.candidate_closed'',
      [(''tactic'', [TStr]), (''goals_before'', [TInt]), (''goals_after'', [TInt]),
       (''no_more_goals'', [TBool]), (''async_check_close'', [TBool])],
      []),
    (''verification.completed'',
      [(''lemma'', [TStr, TNone]), (''status'', [TStr]), (''verifier'', [TStr])],
      [(''file'', [TStr]), (''full_file_status'', [TStr]), (''full_file_error_excerpt'', [TStr]),
       (''extracted_status'', [TStr]), (''verify_tmp'', [TStr]), (''verify_out'', [TStr]),
       (''use_session_proof'', [TBool]), (''error_count'', [TInt]), (''errors'', [TList]),
       (''reason'', [TStr]), (''error'', [TStr])]),
    (''error.raised'',
      [(''phase'', [TStr])],
      [(''kind'', [TStr]), (''action'', [TStr]), (''tactic'', [TStr]), (''exception_type'', [TStr]),
       (''exception'', [TStr]), (''traceback'', [TStr]), (''meta_command'', [TStr]), (''argument'',
       [TStr])]),
    (''tactic.undone'',
      [(''status'', [TStr]), (''undone_tactic'', [TStr]), (''remaining_steps'', [TInt])],
      [(''history_lines_after'', [TInt]), (''undone_count'', [TInt]), (''backend'', [TStr]),
       (''reason'', [TStr])]),
    (''tactic.try_result'',
      [(''name'', [TStr]), (''kind'', [TStr]), (''mutates_proof_state'', [TBool]), (''tactic'',
       [TStr]), (''status'', [TStr]), (''report'', [TStr])],
      [(''accepted'', [TBool, TNone])])]"

definition EVENT_PAYLOAD_SCHEMAS :: schemas where
  "EVENT_PAYLOAD_SCHEMAS =
     SESSION_SCHEMAS @ TOOL_SCHEMAS @ VIEW_SCHEMAS @ NATIVE_SCHEMAS @ RESPONSE_SCHEMAS @ TACTIC_SCHEMAS"

section \<open>Events\<close>

type_synonym event = "(str \<times> json) list"

definition event_payload :: "event \<Rightarrow> (str \<times> json) list" where
  "event_payload event = (case py_or (jget event ''payload'') (JObj []) of JObj p \<Rightarrow> p | _ \<Rightarrow> [])"

abbreviation has_type :: "event \<Rightarrow> str \<Rightarrow> bool" where
  "has_type event t \<equiv> jget event ''type'' = JStr t"

definition events_of_type :: "event list \<Rightarrow> str \<Rightarrow> event list" where
  "events_of_type events event_type = filter (\<lambda>e. has_type e event_type) events"

text \<open>\<open>str(event.get("type") or "")\<close>.\<close>

definition event_type_of :: "event \<Rightarrow> str" where
  "event_type_of event = str_or_empty (jget event ''type'')"

text \<open>A new event; the identifier, the time and the resolved directory are read from the system, and
  the payload already is a JSON value.\<close>

definition make_event :: "str \<Rightarrow> str \<Rightarrow> str \<Rightarrow> str \<Rightarrow> (str \<times> json) list \<Rightarrow> str \<Rightarrow> event" where
  "make_event event_id timestamp resolved_dir event_type payload source =
     [(''schema_version'', JInt SCHEMA_VERSION), (''event_id'', JStr event_id), (''timestamp'', JStr timestamp),
      (''session_id'', JStr resolved_dir), (''session_dir'', JStr resolved_dir), (''source'', JStr source),
      (''type'', JStr event_type), (''payload'', JObj payload)]"

section \<open>Validation of one event\<close>

datatype severity = SevError | SevWarning

record validation_issue =
  vi_severity :: severity
  vi_code :: str
  vi_message :: str
  vi_event_index :: "nat option"
  vi_event_type :: str

definition format_issue :: "validation_issue \<Rightarrow> str" where
  "format_issue issue =
     (case vi_severity issue of SevError \<Rightarrow> ''ERROR'' | SevWarning \<Rightarrow> ''WARNING'') @ '' '' @ vi_code issue
     @ (case vi_event_index issue of None \<Rightarrow> [] | Some n \<Rightarrow> '' event#'' @ int_str (int n))
     @ (if vi_event_type issue = [] then [] else '' '' @ vi_event_type issue)
     @ '': '' @ vi_message issue"

definition mk_issue :: "severity \<Rightarrow> str \<Rightarrow> str \<Rightarrow> nat option \<Rightarrow> str \<Rightarrow> validation_issue" where
  "mk_issue severity code message idx event_type =
     \<lparr>vi_severity = severity, vi_code = code, vi_message = message, vi_event_index = idx, vi_event_type = event_type\<rparr>"

definition issue_errors :: "validation_issue list \<Rightarrow> validation_issue list" where
  "issue_errors issues = filter (\<lambda>i. vi_severity i = SevError) issues"

definition issue_warnings :: "validation_issue list \<Rightarrow> validation_issue list" where
  "issue_warnings issues = filter (\<lambda>i. vi_severity i = SevWarning) issues"

definition backquoted :: "str \<Rightarrow> str" where
  "backquoted t = [CHR 0x60] @ t @ [CHR 0x60]"

definition type_message :: "str \<Rightarrow> str \<Rightarrow> field_type list \<Rightarrow> json \<Rightarrow> str" where
  "type_message what field expected v =
     what @ '' field '' @ backquoted field @ '' expected '' @ type_name expected @ '', got '' @ value_type_name v"

text \<open>The checks of one required field; \<open>what\<close> is \<open>envelope\<close> or \<open>payload\<close>.\<close>

definition required_issues ::
  "(severity \<Rightarrow> str \<Rightarrow> str \<Rightarrow> validation_issue) \<Rightarrow> str \<Rightarrow> (str \<times> json) list \<Rightarrow> str \<times> field_type list \<Rightarrow> validation_issue list" where
  "required_issues add what d fe =
     (case dict_get d (fst fe) of
        None \<Rightarrow> [add SevError (''event.'' @ what @ ''.missing'') (''missing '' @ what @ '' field '' @ backquoted (fst fe))]
      | Some v \<Rightarrow> if matches_type v (snd fe) then []
                  else [add SevError (''event.'' @ what @ ''.type'') (type_message what (fst fe) (snd fe) v)])"

definition optional_issues ::
  "(severity \<Rightarrow> str \<Rightarrow> str \<Rightarrow> validation_issue) \<Rightarrow> (str \<times> json) list \<Rightarrow> str \<times> field_type list \<Rightarrow> validation_issue list" where
  "optional_issues add d fe =
     (case dict_get d (fst fe) of
        None \<Rightarrow> []
      | Some v \<Rightarrow> if matches_type v (snd fe) then []
                  else [add SevError ''event.payload.type'' (type_message ''payload'' (fst fe) (snd fe) v)])"

definition retired_issues ::
  "(severity \<Rightarrow> str \<Rightarrow> str \<Rightarrow> validation_issue) \<Rightarrow> str \<Rightarrow> (str \<times> json) list \<Rightarrow> validation_issue list" where
  "retired_issues add event_type payload =
     concat (map (\<lambda>field. if dict_get payload field = None then []
                          else [add SevError ''event.payload.retired''
                                  (''retired payload field '' @ backquoted field @ '' is unsupported'')])
       (sort (case dict_get RETIRED_EVENT_PAYLOAD_FIELDS event_type of None \<Rightarrow> [] | Some fs \<Rightarrow> fs)))"

definition envelope_issues :: "(severity \<Rightarrow> str \<Rightarrow> str \<Rightarrow> validation_issue) \<Rightarrow> event \<Rightarrow> validation_issue list" where
  "envelope_issues add event =
     concat (map (required_issues add ''envelope'' event) ENVELOPE_SCHEMA)
     @ (if dict_get event ''schema_version'' \<noteq> None \<and> \<not> py_eq_int (jget event ''schema_version'') SCHEMA_VERSION
        then [add SevError ''event.schema_version''
                (''expected schema_version '' @ int_str SCHEMA_VERSION @ '', got '' @ py_repr (jget event ''schema_version''))]
        else [])
     @ (if jget event ''event_id'' = JStr []
        then [add SevError ''event.envelope.empty'' (backquoted ''event_id'' @ '' must be non-empty'')] else [])
     @ (if jget event ''timestamp'' = JStr []
        then [add SevError ''event.envelope.empty'' (backquoted ''timestamp'' @ '' must be non-empty'')] else [])"

definition validate_event :: "event \<Rightarrow> nat option \<Rightarrow> validation_issue list" where
  "validate_event event event_index =
     (let event_type = event_type_of event;
          add = (\<lambda>severity code message. mk_issue severity code message event_index event_type);
          envelope = envelope_issues add event
      in if event_type = []
         then envelope @ [add SevError ''event.envelope.empty'' (backquoted ''type'' @ '' must be non-empty'')]
         else case dict_get EVENT_PAYLOAD_SCHEMAS event_type of
           None \<Rightarrow>
             if event_type \<in> set RETIRED_EVENT_TYPES
             then envelope @ [add SevError ''event.retired_type''
                                (''retired event type '' @ backquoted event_type @ '' is unsupported'')]
             else envelope @ [add SevWarning ''event.unknown_type'' (''unknown event type '' @ backquoted event_type)]
         | Some (required, optional) \<Rightarrow>
             (let payload = event_payload event in
              envelope @ retired_issues add event_type payload
              @ concat (map (required_issues add ''payload'' payload) required)
              @ concat (map (optional_issues add payload) optional)))"

section \<open>Validation of a stream\<close>

text \<open>\<open>tactic.replace("\\!", "!")\<close>.\<close>

fun unescape_bang :: "str \<Rightarrow> str" where
  "unescape_bang (c # d # cs) =
     (if c = CHR 0x5C \<and> d = CHR ''!'' then CHR ''!'' # unescape_bang cs else c # unescape_bang (d # cs))"
| "unescape_bang cs = cs"

definition normalize_tactic_text :: "json \<Rightarrow> str" where
  "normalize_tactic_text t =
     (let tactic = unescape_bang (py_strip (str_or_empty t));
          ended = (if tactic \<noteq> [] \<and> \<not> ends_with ''.'' tactic then tactic @ ''.'' else tactic)
      in py_rstrip ended)"

record stream_state =
  vs_issues :: "validation_issue list"
  vs_session_started :: bool
  vs_pending_tool :: "(str \<times> json) list option"
  vs_pending_tactic :: "(str \<times> json) list option"
  vs_pending_close :: "((str \<times> json) list \<times> nat) option"
  vs_close_count :: nat
  vs_result_close_count :: nat
  vs_verification :: "str option"

definition new_stream :: stream_state where
  "new_stream = \<lparr>vs_issues = [], vs_session_started = False, vs_pending_tool = None, vs_pending_tactic = None,
     vs_pending_close = None, vs_close_count = 0, vs_result_close_count = 0, vs_verification = None\<rparr>"

definition add_issue :: "severity \<Rightarrow> str \<Rightarrow> str \<Rightarrow> nat option \<Rightarrow> str \<Rightarrow> stream_state \<Rightarrow> stream_state" where
  "add_issue severity code message idx event_type st =
     st\<lparr>vs_issues := vs_issues st @ [mk_issue severity code message idx event_type]\<rparr>"

definition add_if :: "bool \<Rightarrow> str \<Rightarrow> str \<Rightarrow> nat option \<Rightarrow> str \<Rightarrow> stream_state \<Rightarrow> stream_state" where
  "add_if b code message idx event_type st = (if b then add_issue SevError code message idx event_type st else st)"

text \<open>What every event goes through, before the part for its type.\<close>

definition step_common :: "nat \<Rightarrow> event \<Rightarrow> stream_state \<Rightarrow> stream_state" where
  "step_common idx event st =
     (let event_type = event_type_of event;
          st1 = st\<lparr>vs_issues := vs_issues st @ validate_event event (Some idx)\<rparr>;
          st2 = (case vs_pending_close st1 of
                   Some (_, result_idx) \<Rightarrow>
                     if event_type \<noteq> ''proof.candidate_closed''
                     then (add_issue SevError ''stream.candidate_close.missing_adjacent_event''
                             (''candidate-closing tactic.result is not immediately followed by '' @ ''proof.candidate_closed'')
                             (Some result_idx) ''tactic.result'' st1)\<lparr>vs_pending_close := None\<rparr>
                     else st1
                 | None \<Rightarrow> st1);
          st3 = add_if (event_type \<noteq> ''session.started'' \<and> \<not> vs_session_started st2) ''stream.session.not_started''
                  (''event appeared before '' @ backquoted ''session.started'') (Some idx) event_type st2
      in if event_type = ''session.started''
         then (if vs_session_started st3
               then add_issue SevWarning ''stream.session.duplicate_start''
                      (''multiple '' @ backquoted ''session.started'' @ '' events in one stream'') (Some idx) event_type st3
               else st3)\<lparr>vs_session_started := True\<rparr>
         else st3)"

definition step_tool_result :: "nat \<Rightarrow> (str \<times> json) list \<Rightarrow> stream_state \<Rightarrow> stream_state" where
  "step_tool_result idx payload st =
     (case vs_pending_tool st of
        None \<Rightarrow> add_issue SevError ''stream.tool.result_without_call'' ''tool.result has no matching tool.called''
                  (Some idx) ''tool.result'' st
      | Some pending \<Rightarrow>
          (let called_name = str_or_empty (jget pending ''name''); result_name = str_or_empty (jget payload ''name'')
           in (add_if (called_name \<noteq> result_name) ''stream.tool.name_mismatch''
                 (''tool.result '' @ backquoted result_name @ '' does not match pending tool.called '' @ backquoted called_name)
                 (Some idx) ''tool.result'' st)\<lparr>vs_pending_tool := None\<rparr>))"

definition step_tactic_result :: "nat \<Rightarrow> (str \<times> json) list \<Rightarrow> stream_state \<Rightarrow> stream_state" where
  "step_tactic_result idx payload st =
     (let status = str_or_empty (jget payload ''status'');
          st1 = (case vs_pending_tactic st of
                   None \<Rightarrow> add_if (status \<noteq> ''refused'') ''stream.tactic.result_without_submit''
                             ''tactic.result has no matching tactic.submitted'' (Some idx) ''tactic.result'' st
                 | Some pending \<Rightarrow>
                     (add_if (normalize_tactic_text (jget pending ''tactic'') \<noteq> normalize_tactic_text (jget payload ''tactic''))
                        ''stream.tactic.mismatch'' ''tactic.result tactic does not match pending tactic.submitted''
                        (Some idx) ''tactic.result'' st)\<lparr>vs_pending_tactic := None\<rparr>)
      in if py_truthy (jget payload ''candidate_closed'')
         then (let st2 = st1\<lparr>vs_result_close_count := Suc (vs_result_close_count st1)\<rparr> in
               if status \<noteq> ''ok''
               then add_issue SevError ''stream.candidate_close.failed_tactic''
                      ''non-ok tactic.result cannot be candidate_closed'' (Some idx) ''tactic.result'' st2
               else st2\<lparr>vs_pending_close := Some (payload, idx)\<rparr>)
         else st1)"

definition step_candidate_closed :: "nat \<Rightarrow> (str \<times> json) list \<Rightarrow> stream_state \<Rightarrow> stream_state" where
  "step_candidate_closed idx payload st =
     (let st1 = st\<lparr>vs_close_count := Suc (vs_close_count st)\<rparr> in
      case vs_pending_close st1 of
        None \<Rightarrow> add_issue SevError ''stream.candidate_close.no_paired_tactic_result''
                  ''proof.candidate_closed has no adjacent candidate-closing tactic.result'' (Some idx)
                  ''proof.candidate_closed'' st1
      | Some (result_payload, _) \<Rightarrow>
          (let result_tactic = normalize_tactic_text (jget result_payload ''tactic'');
               close_tactic = normalize_tactic_text (jget payload ''tactic'')
           in (if result_tactic = [] \<or> close_tactic = []
               then add_issue SevError ''stream.candidate_close.empty_tactic''
                      ''candidate-close pair requires non-empty tactic identity'' (Some idx) ''proof.candidate_closed'' st1
               else add_if (result_tactic \<noteq> close_tactic) ''stream.candidate_close.tactic_mismatch''
                      ''proof.candidate_closed tactic does not match its candidate-closing tactic.result''
                      (Some idx) ''proof.candidate_closed'' st1)\<lparr>vs_pending_close := None\<rparr>))"

definition stream_step :: "nat \<Rightarrow> event \<Rightarrow> stream_state \<Rightarrow> stream_state" where
  "stream_step idx event st0 =
     (let event_type = event_type_of event; payload = event_payload event; st = step_common idx event st0 in
      if event_type = ''tool.called''
      then (add_if (vs_pending_tool st \<noteq> None) ''stream.tool.nested'' ''tool.called occurred before previous tool.result''
              (Some idx) event_type st)\<lparr>vs_pending_tool := Some payload\<rparr>
      else if event_type = ''tool.result'' then step_tool_result idx payload st
      else if event_type = ''tactic.submitted''
      then (add_if (vs_pending_tactic st \<noteq> None) ''stream.tactic.nested''
              ''tactic.submitted occurred before previous tactic.result'' (Some idx) event_type st)
              \<lparr>vs_pending_tactic := Some payload\<rparr>
      else if event_type = ''goal.changed''
      then add_if (vs_pending_tactic st = None) ''stream.goal_changed_without_tactic''
             ''goal.changed has no pending tactic.submitted'' (Some idx) event_type st
      else if event_type = ''tactic.result'' then step_tactic_result idx payload st
      else if event_type = ''proof.candidate_closed'' then step_candidate_closed idx payload st
      else if event_type = ''verification.completed''
      then (let status = str_or_empty (jget payload ''status'') in
            add_if (status = ''pass'' \<and> vs_close_count st = 0) ''stream.verification.pass_without_candidate''
              (''verification.completed status=pass appeared before any proof.candidate_closed event'')
              (Some idx) event_type (st\<lparr>vs_verification := Some status\<rparr>))
      else st)"

fun stream_run :: "nat \<Rightarrow> event list \<Rightarrow> stream_state \<Rightarrow> stream_state" where
  "stream_run idx [] st = st"
| "stream_run idx (e # es) st = stream_run (Suc idx) es (stream_step idx e st)"

definition stream_end :: "str option \<Rightarrow> stream_state \<Rightarrow> stream_state" where
  "stream_end expected_outcome st =
     (let st1 = (case vs_pending_tool st of
                   None \<Rightarrow> st
                 | Some p \<Rightarrow> add_issue SevError ''stream.tool.missing_result''
                     (''tool.called '' @ backquoted (py_str (jget p ''name'')) @ '' has no tool.result'') None [] st);
          st2 = add_if (vs_pending_tactic st1 \<noteq> None) ''stream.tactic.missing_result''
                  ''tactic.submitted has no tactic.result'' None [] st1;
          st3 = (case vs_pending_close st2 of
                   None \<Rightarrow> st2
                 | Some (_, result_idx) \<Rightarrow> add_issue SevError ''stream.candidate_close.missing_adjacent_event''
                     ''candidate-closing tactic.result has no adjacent proof.candidate_closed event''
                     (Some result_idx) ''tactic.result'' st2);
          st4 = add_if (\<not> vs_session_started st3) ''stream.session.missing_start''
                  (''no '' @ backquoted ''session.started'' @ '' event found'') None [] st3;
          st5 = add_if (vs_result_close_count st4 \<noteq> vs_close_count st4) ''stream.candidate_close.count_mismatch''
                  ''tactic.result candidate_closed count differs from proof.candidate_closed count'' None [] st4;
          st6 = add_if (expected_outcome = Some ''PASS'' \<and> vs_verification st5 \<noteq> Some ''pass'')
                  ''stream.verification.required_pass''
                  ''expected PASS outcome but latest verification.completed is not pass'' None [] st5
      in add_if (expected_outcome \<notin> {None, Some [], Some ''PASS''} \<and> vs_verification st6 = Some ''pass'')
           ''stream.verification.pass_on_nonpass''
           ''latest verification.completed is pass but expected outcome is not PASS'' None [] st6)"

definition validate_event_stream :: "event list \<Rightarrow> str option \<Rightarrow> validation_issue list" where
  "validate_event_stream events expected_outcome =
     (if events = [] then [mk_issue SevError ''stream.empty'' ''event stream is empty'' None []]
      else vs_issues (stream_end expected_outcome (stream_run 1 events new_stream)))"

section \<open>The protocol of a stream\<close>

text \<open>Four acceptors, one per concern, each reading the whole stream: tool calls and their results
  alternate and name the same tool; a tactic is submitted, may change goals and gets its result, and
  only a refusal comes without a submission; a closing result is followed at once by the close event
  of the same tactic and close events occur nowhere else; verification passes only after a close.\<close>

fun tools_ok :: "(str \<times> json) list option \<Rightarrow> event list \<Rightarrow> bool" where
  "tools_ok p [] = (p = None)"
| "tools_ok p (e # es) =
     (if event_type_of e = ''tool.called'' then p = None \<and> tools_ok (Some (event_payload e)) es
      else if event_type_of e = ''tool.result''
      then (case p of None \<Rightarrow> False
            | Some q \<Rightarrow> str_or_empty (jget q ''name'') = str_or_empty (jget (event_payload e) ''name''))
           \<and> tools_ok None es
      else tools_ok p es)"

definition same_tactic :: "(str \<times> json) list \<Rightarrow> (str \<times> json) list \<Rightarrow> bool" where
  "same_tactic p q \<longleftrightarrow> normalize_tactic_text (jget p ''tactic'') = normalize_tactic_text (jget q ''tactic'')"

fun tactics_ok :: "(str \<times> json) list option \<Rightarrow> event list \<Rightarrow> bool" where
  "tactics_ok p [] = (p = None)"
| "tactics_ok p (e # es) =
     (if event_type_of e = ''tactic.submitted'' then p = None \<and> tactics_ok (Some (event_payload e)) es
      else if event_type_of e = ''goal.changed'' then p \<noteq> None \<and> tactics_ok p es
      else if event_type_of e = ''tactic.result''
      then (case p of None \<Rightarrow> str_or_empty (jget (event_payload e) ''status'') = ''refused''
            | Some q \<Rightarrow> same_tactic q (event_payload e))
           \<and> tactics_ok None es
      else tactics_ok p es)"

definition closing_result :: "event \<Rightarrow> bool" where
  "closing_result e \<longleftrightarrow>
     event_type_of e = ''tactic.result'' \<and> py_truthy (jget (event_payload e) ''candidate_closed'')"

fun closes_ok :: "(str \<times> json) list option \<Rightarrow> event list \<Rightarrow> bool" where
  "closes_ok p [] = (p = None)"
| "closes_ok p (e # es) =
     (if event_type_of e = ''proof.candidate_closed''
      then (case p of None \<Rightarrow> False
            | Some q \<Rightarrow> normalize_tactic_text (jget q ''tactic'') \<noteq> [] \<and> same_tactic q (event_payload e))
           \<and> closes_ok None es
      else p = None
           \<and> (if closing_result e
              then str_or_empty (jget (event_payload e) ''status'') = ''ok'' \<and> closes_ok (Some (event_payload e)) es
              else closes_ok None es))"

fun verifications_ok :: "bool \<Rightarrow> event list \<Rightarrow> bool" where
  "verifications_ok closed [] = True"
| "verifications_ok closed (e # es) =
     (if event_type_of e = ''proof.candidate_closed'' then verifications_ok True es
      else if event_type_of e = ''verification.completed''
      then (str_or_empty (jget (event_payload e) ''status'') = ''pass'' \<longrightarrow> closed) \<and> verifications_ok closed es
      else verifications_ok closed es)"

definition event_ok :: "event \<Rightarrow> bool" where
  "event_ok e \<longleftrightarrow> issue_errors (validate_event e None) = []"

section \<open>Error counting\<close>

definition clean :: "stream_state \<Rightarrow> bool" where
  "clean st \<longleftrightarrow> issue_errors (vs_issues st) = []"

lemma mk_issue_severity [simp]: "vi_severity (mk_issue s c m i t) = s"
  by (simp add: mk_issue_def)

lemma issue_errors_append [simp]: "issue_errors (a @ b) = issue_errors a @ issue_errors b"
  by (simp add: issue_errors_def)

lemma issue_errors_simps [simp]:
  "issue_errors [] = []"
  "issue_errors (mk_issue SevError c m i t # xs) = mk_issue SevError c m i t # issue_errors xs"
  "issue_errors (mk_issue SevWarning c m i t # xs) = issue_errors xs"
  by (simp_all add: issue_errors_def)

lemma issue_errors_Nil: "issue_errors xs = [] \<longleftrightarrow> list_all (\<lambda>i. vi_severity i \<noteq> SevError) xs"
  by (auto simp: issue_errors_def list_all_iff filter_empty_conv)

lemma concat_errors:
  "issue_errors (concat (map f xs)) = [] \<longleftrightarrow> list_all (\<lambda>x. issue_errors (f x) = []) xs"
  by (induction xs) auto

abbreviation adder :: "nat option \<Rightarrow> str \<Rightarrow> severity \<Rightarrow> str \<Rightarrow> str \<Rightarrow> validation_issue" where
  "adder i t \<equiv> \<lambda>severity code message. mk_issue severity code message i t"

definition has_field :: "(str \<times> json) list \<Rightarrow> str \<times> field_type list \<Rightarrow> bool" where
  "has_field d fe \<longleftrightarrow> (case dict_get d (fst fe) of None \<Rightarrow> False | Some v \<Rightarrow> matches_type v (snd fe))"

definition may_have_field :: "(str \<times> json) list \<Rightarrow> str \<times> field_type list \<Rightarrow> bool" where
  "may_have_field d fe \<longleftrightarrow> (case dict_get d (fst fe) of None \<Rightarrow> True | Some v \<Rightarrow> matches_type v (snd fe))"

lemma required_clean: "issue_errors (required_issues (adder i t) what d fe) = [] \<longleftrightarrow> has_field d fe"
  by (simp add: required_issues_def has_field_def split: option.split)

lemma optional_clean: "issue_errors (optional_issues (adder i t) d fe) = [] \<longleftrightarrow> may_have_field d fe"
  by (simp add: optional_issues_def may_have_field_def split: option.split)

lemma retired_clean:
  "issue_errors (retired_issues (adder i t) ty d) = [] \<longleftrightarrow>
     list_all (\<lambda>f. dict_get d f = None) (case dict_get RETIRED_EVENT_PAYLOAD_FIELDS ty of None \<Rightarrow> [] | Some fs \<Rightarrow> fs)"
  by (simp add: retired_issues_def concat_errors list_all_iff if_distrib [where f = "\<lambda>x. issue_errors x = []"] cong: if_cong)
    (metis option.collapse option.distinct(1))

definition envelope_ok :: "event \<Rightarrow> bool" where
  "envelope_ok e \<longleftrightarrow> list_all (has_field e) ENVELOPE_SCHEMA \<and> py_eq_int (jget e ''schema_version'') SCHEMA_VERSION
     \<and> jget e ''event_id'' \<noteq> JStr [] \<and> jget e ''timestamp'' \<noteq> JStr []"

lemma envelope_clean: "issue_errors (envelope_issues (adder i t) e) = [] \<longleftrightarrow> envelope_ok e"
proof -
  have "dict_get e ''schema_version'' \<noteq> None" if "list_all (has_field e) ENVELOPE_SCHEMA"
  proof -
    have "has_field e (''schema_version'', [TInt])" using that by (simp add: ENVELOPE_SCHEMA_def)
    then show ?thesis by (auto simp: has_field_def split: option.splits)
  qed
  then show ?thesis
    by (auto simp: envelope_issues_def envelope_ok_def concat_errors required_clean)
qed

text \<open>An event is accepted exactly when its envelope is well formed and its type is either unknown and
  not retired, or known with every required field present, every known field well typed and no
  retired field.\<close>

lemma event_clean:
  "issue_errors (validate_event e i) = [] \<longleftrightarrow>
     envelope_ok e \<and> event_type_of e \<noteq> []
     \<and> (case dict_get EVENT_PAYLOAD_SCHEMAS (event_type_of e) of
          None \<Rightarrow> event_type_of e \<notin> set RETIRED_EVENT_TYPES
        | Some (required, optional) \<Rightarrow>
            list_all (\<lambda>f. dict_get (event_payload e) f = None)
              (case dict_get RETIRED_EVENT_PAYLOAD_FIELDS (event_type_of e) of None \<Rightarrow> [] | Some fs \<Rightarrow> fs)
            \<and> list_all (has_field (event_payload e)) required \<and> list_all (may_have_field (event_payload e)) optional)"
  by (auto simp: validate_event_def Let_def concat_errors required_clean optional_clean retired_clean
      envelope_clean split: option.split prod.split)

lemma event_ok_index: "issue_errors (validate_event e i) = [] \<longleftrightarrow> event_ok e"
  by (simp only: event_ok_def event_clean)

lemma clean_add_issue [simp]: "clean (add_issue s c m i t st) \<longleftrightarrow> s = SevWarning \<and> clean st"
  by (cases s) (simp_all add: clean_def add_issue_def)

lemma clean_add_if [simp]: "clean (add_if b c m i t st) \<longleftrightarrow> \<not> b \<and> clean st"
  by (simp add: add_if_def)

lemma clean_updates [simp]:
  "clean (st\<lparr>vs_session_started := a\<rparr>) = clean st" "clean (st\<lparr>vs_pending_tool := p\<rparr>) = clean st"
  "clean (st\<lparr>vs_pending_tactic := p\<rparr>) = clean st" "clean (st\<lparr>vs_pending_close := q\<rparr>) = clean st"
  "clean (st\<lparr>vs_close_count := n\<rparr>) = clean st" "clean (st\<lparr>vs_result_close_count := n\<rparr>) = clean st"
  "clean (st\<lparr>vs_verification := v\<rparr>) = clean st"
  by (simp_all add: clean_def)

lemma add_frame [simp]:
  "vs_session_started (add_issue s c m i t st) = vs_session_started st"
  "vs_pending_tool (add_issue s c m i t st) = vs_pending_tool st"
  "vs_pending_tactic (add_issue s c m i t st) = vs_pending_tactic st"
  "vs_pending_close (add_issue s c m i t st) = vs_pending_close st"
  "vs_close_count (add_issue s c m i t st) = vs_close_count st"
  "vs_result_close_count (add_issue s c m i t st) = vs_result_close_count st"
  "vs_verification (add_issue s c m i t st) = vs_verification st"
  by (simp_all add: add_issue_def)

lemma add_if_frame [simp]:
  "vs_session_started (add_if b c m i t st) = vs_session_started st"
  "vs_pending_tool (add_if b c m i t st) = vs_pending_tool st"
  "vs_pending_tactic (add_if b c m i t st) = vs_pending_tactic st"
  "vs_pending_close (add_if b c m i t st) = vs_pending_close st"
  "vs_close_count (add_if b c m i t st) = vs_close_count st"
  "vs_result_close_count (add_if b c m i t st) = vs_result_close_count st"
  "vs_verification (add_if b c m i t st) = vs_verification st"
  by (simp_all add: add_if_def)

lemma clean_issues: "clean (st\<lparr>vs_issues := vs_issues st @ validate_event e (Some i)\<rparr>) \<longleftrightarrow> clean st \<and> event_ok e"
  by (simp add: clean_def event_ok_index)

lemma step_common_clean:
  "clean (step_common i e st) \<longleftrightarrow> clean st \<and> event_ok e
     \<and> (event_type_of e = ''proof.candidate_closed'' \<or> vs_pending_close st = None)
     \<and> (vs_session_started st \<or> event_type_of e = ''session.started'')"
  by (auto simp: step_common_def Let_def clean_issues split: option.split)

lemma step_common_frame [simp]:
  "vs_session_started (step_common i e st) \<longleftrightarrow> vs_session_started st \<or> event_type_of e = ''session.started''"
  "vs_pending_tool (step_common i e st) = vs_pending_tool st"
  "vs_pending_tactic (step_common i e st) = vs_pending_tactic st"
  "vs_pending_close (step_common i e st) =
     (if event_type_of e = ''proof.candidate_closed'' then vs_pending_close st else None)"
  "vs_close_count (step_common i e st) = vs_close_count st"
  "vs_result_close_count (step_common i e st) = vs_result_close_count st"
  "vs_verification (step_common i e st) = vs_verification st"
  by (auto simp: step_common_def Let_def split: option.split)

text \<open>One event against the four acceptors: the state they are in is what the validator has pending.\<close>

definition step_ok :: "event \<Rightarrow> stream_state \<Rightarrow> bool" where
  "step_ok e st \<longleftrightarrow>
     (let t = event_type_of e; p = event_payload e in
      event_ok e \<and> (vs_session_started st \<or> t = ''session.started'')
      \<and> (t = ''tool.called'' \<longrightarrow> vs_pending_tool st = None)
      \<and> (t = ''tool.result'' \<longrightarrow> (case vs_pending_tool st of None \<Rightarrow> False
           | Some q \<Rightarrow> str_or_empty (jget q ''name'') = str_or_empty (jget p ''name'')))
      \<and> (t = ''tactic.submitted'' \<longrightarrow> vs_pending_tactic st = None)
      \<and> (t = ''goal.changed'' \<longrightarrow> vs_pending_tactic st \<noteq> None)
      \<and> (t = ''tactic.result'' \<longrightarrow> (case vs_pending_tactic st of None \<Rightarrow> str_or_empty (jget p ''status'') = ''refused''
           | Some q \<Rightarrow> same_tactic q p))
      \<and> (if t = ''proof.candidate_closed''
         then (case vs_pending_close st of None \<Rightarrow> False
               | Some (q, _) \<Rightarrow> normalize_tactic_text (jget q ''tactic'') \<noteq> [] \<and> same_tactic q p)
         else vs_pending_close st = None \<and> (closing_result e \<longrightarrow> str_or_empty (jget p ''status'') = ''ok''))
      \<and> (t = ''verification.completed'' \<longrightarrow> str_or_empty (jget p ''status'') = ''pass'' \<longrightarrow> 0 < vs_close_count st))"

lemma stream_step_clean: "clean (stream_step i e st) \<longleftrightarrow> clean st \<and> step_ok e st"
  by (auto simp: stream_step_def Let_def step_ok_def step_tool_result_def step_tactic_result_def step_candidate_closed_def
      step_common_clean same_tactic_def closing_result_def split: option.split)

lemma stream_step_frame:
  "vs_session_started (stream_step i e st) \<longleftrightarrow> vs_session_started st \<or> event_type_of e = ''session.started''"
  "vs_pending_tool (stream_step i e st) =
     (if event_type_of e = ''tool.called'' then Some (event_payload e)
      else if event_type_of e = ''tool.result'' then None else vs_pending_tool st)"
  "vs_pending_tactic (stream_step i e st) =
     (if event_type_of e = ''tactic.submitted'' then Some (event_payload e)
      else if event_type_of e = ''tactic.result'' then None else vs_pending_tactic st)"
  "step_ok e st \<Longrightarrow> vs_pending_close (stream_step i e st) =
     (if closing_result e then Some (event_payload e, i) else None)"
  "vs_close_count (stream_step i e st) =
     (if event_type_of e = ''proof.candidate_closed'' then Suc (vs_close_count st) else vs_close_count st)"
  "vs_result_close_count (stream_step i e st) =
     (if closing_result e then Suc (vs_result_close_count st) else vs_result_close_count st)"
  by (auto simp: stream_step_def Let_def step_tool_result_def step_tactic_result_def step_candidate_closed_def
      step_ok_def closing_result_def split: option.split)

lemma stream_run_clean: "clean (stream_run i es st) \<Longrightarrow> clean st"
  by (induction es arbitrary: i st) (simp, metis stream_run.simps(2) stream_step_clean)

definition accepts :: "event list \<Rightarrow> stream_state \<Rightarrow> bool" where
  "accepts es st \<longleftrightarrow>
     list_all event_ok es \<and> (vs_session_started st \<or> (es \<noteq> [] \<and> event_type_of (hd es) = ''session.started''))
     \<and> tools_ok (vs_pending_tool st) es \<and> tactics_ok (vs_pending_tactic st) es
     \<and> closes_ok (map_option fst (vs_pending_close st)) es \<and> verifications_ok (0 < vs_close_count st) es"

lemma accepts_step_ok: "accepts (e # es) st \<Longrightarrow> step_ok e st"
  by (auto simp: accepts_def step_ok_def Let_def closing_result_def split: option.splits if_splits)

lemma accepts_Cons:
  assumes ok: "step_ok e st" shows "accepts (e # es) st \<longleftrightarrow> accepts es (stream_step i e st)"
proof -
  note f = stream_step_frame(1-3,5) [of i e st] stream_step_frame(4) [OF ok, of i]
  have "tools_ok (vs_pending_tool st) (e # es) \<longleftrightarrow> tools_ok (vs_pending_tool (stream_step i e st)) es"
    using ok by (auto simp: f step_ok_def Let_def)
  moreover have "tactics_ok (vs_pending_tactic st) (e # es) \<longleftrightarrow> tactics_ok (vs_pending_tactic (stream_step i e st)) es"
    using ok by (auto simp: f step_ok_def Let_def)
  moreover have "closes_ok (map_option fst (vs_pending_close st)) (e # es)
      \<longleftrightarrow> closes_ok (map_option fst (vs_pending_close (stream_step i e st))) es"
    using ok by (auto simp: f step_ok_def Let_def closing_result_def split: option.splits if_splits)
  moreover have "verifications_ok (0 < vs_close_count st) (e # es)
      \<longleftrightarrow> verifications_ok (0 < vs_close_count (stream_step i e st)) es"
    using ok by (auto simp: f step_ok_def Let_def)
  moreover have "vs_session_started (stream_step i e st)" "event_ok e"
    "vs_session_started st \<or> event_type_of e = ''session.started''"
    using ok by (auto simp: f step_ok_def Let_def)
  ultimately show ?thesis by (simp add: accepts_def)
qed

definition counts_agree :: "stream_state \<Rightarrow> bool" where
  "counts_agree st \<longleftrightarrow>
     vs_result_close_count st = vs_close_count st + (if vs_pending_close st = None then 0 else 1)"

lemma counts_agree_step: "step_ok e st \<Longrightarrow> counts_agree st \<Longrightarrow> counts_agree (stream_step i e st)"
  using stream_step_frame(4) [of e st i]
  by (auto simp: counts_agree_def stream_step_frame(5,6) step_ok_def Let_def closing_result_def split: if_splits option.splits)

lemma stream_end_clean:
  "clean (stream_end None st) \<longleftrightarrow> clean st \<and> vs_pending_tool st = None \<and> vs_pending_tactic st = None
     \<and> vs_pending_close st = None \<and> vs_session_started st \<and> vs_result_close_count st = vs_close_count st"
  by (auto simp: stream_end_def Let_def split: option.split)

lemma stream_accepts:
  "clean st \<Longrightarrow> counts_agree st \<Longrightarrow> clean (stream_end None (stream_run i es st)) \<longleftrightarrow> accepts es st"
proof (induction es arbitrary: i st)
  case Nil
  then show ?case by (auto simp: stream_end_clean accepts_def counts_agree_def)
next
  case (Cons e es)
  show ?case
  proof (cases "step_ok e st")
    case True
    with Cons.IH [of "stream_step i e st" "Suc i"] Cons.prems show ?thesis
      by (simp add: stream_step_clean counts_agree_step accepts_Cons [OF True, of es i])
  next
    case False
    then have "\<not> clean (stream_run (Suc i) es (stream_step i e st))"
      using stream_run_clean stream_step_clean by blast
    with False show ?thesis using accepts_step_ok by (auto simp: stream_end_clean)
  qed
qed

section \<open>Properties\<close>

text \<open>C12. The stream validator decides the protocol: a stream has no error exactly when it is not empty,
  every event satisfies its schema, it begins with \<open>session.started\<close>, tool calls and tactics are each
  closed by their own result, every candidate-closing result is followed at once by the close event of
  the same tactic with no other close event, and no verification passes before a close.\<close>

theorem stream_validation_exact:
  "issue_errors (validate_event_stream events None) = [] \<longleftrightarrow>
     events \<noteq> [] \<and> list_all event_ok events \<and> event_type_of (hd events) = ''session.started''
     \<and> tools_ok None events \<and> tactics_ok None events \<and> closes_ok None events \<and> verifications_ok False events"
proof (cases "events = []")
  case False
  have "clean new_stream" "counts_agree new_stream"
    by (simp_all add: clean_def counts_agree_def new_stream_def)
  from stream_accepts [OF this, of 1 events] False show ?thesis
    by (simp add: validate_event_stream_def clean_def accepts_def new_stream_def)
qed (simp add: validate_event_stream_def)

section \<open>Adoption lineage\<close>

definition session_id_for_dir :: "(str \<Rightarrow> str) \<Rightarrow> (str \<Rightarrow> str) \<Rightarrow> str \<Rightarrow> str" where
  "session_id_for_dir sha1 resolve d = ''scli_'' @ take 12 (sha1 (resolve d))"

definition SESSION_ADOPTED_PAYLOAD_FIELDS :: "str list" where
  "SESSION_ADOPTED_PAYLOAD_FIELDS =
     [''donor_session_dir'', ''target_session_dir'', ''donor_session_id'', ''target_session_id'']"

text \<open>\<open>resolve p\<close> is \<open>str(Path(p).resolve())\<close>; errors are the texts of \<open>SessionAdoptionLineageError\<close>.\<close>

definition canonical_absolute_session_dir :: "(str \<Rightarrow> str) \<Rightarrow> json \<Rightarrow> str \<Rightarrow> str + str" where
  "canonical_absolute_session_dir resolve v label =
     (case v of
        JStr d \<Rightarrow>
          if d = [] then Inl (label @ '' must be a non-empty string'')
          else if \<not> starts_with ''/'' d then Inl (label @ '' must be absolute'')
          else if d \<noteq> resolve d then Inl (label @ '' must use its canonical resolved spelling'')
          else Inr d
      | _ \<Rightarrow> Inl (label @ '' must be a non-empty string''))"

definition fields_message :: "(str \<times> json) list \<Rightarrow> str" where
  "fields_message payload =
     (let missing = sort (filter (\<lambda>f. f \<notin> set (dict_keys payload)) SESSION_ADOPTED_PAYLOAD_FIELDS);
          unknown = sort (filter (\<lambda>f. f \<notin> set SESSION_ADOPTED_PAYLOAD_FIELDS) (dict_keys payload))
      in ''session.adopted payload fields do not match the contract: missing='' @ py_repr (JList (map JStr missing))
         @ '', unknown='' @ py_repr (JList (map JStr unknown)))"

text \<open>The checks of the daemon identities of a link.\<close>

definition daemon_ids_error :: "(str \<Rightarrow> str) \<Rightarrow> (str \<Rightarrow> str) \<Rightarrow> (str \<times> json) list \<Rightarrow> str \<Rightarrow> str \<Rightarrow> str option" where
  "daemon_ids_error sha1 resolve payload donor target =
     (let donor_id = jget payload ''donor_session_id''; target_id = jget payload ''target_session_id'' in
      if \<not> py_truthy donor_id \<or> \<not> py_truthy target_id then Some ''session.adopted daemon session ids must be non-empty''
      else if py_eq donor_id target_id then Some ''session.adopted donor and target daemon session ids must differ''
      else if donor_id \<noteq> JStr (session_id_for_dir sha1 resolve donor)
      then Some ''session.adopted donor daemon session id does not match its directory''
      else if target_id \<noteq> JStr (session_id_for_dir sha1 resolve target)
      then Some ''session.adopted target daemon session id does not match its directory''
      else None)"

definition adoption_link :: "(str \<Rightarrow> str) \<Rightarrow> (str \<Rightarrow> str) \<Rightarrow> nat \<Rightarrow> event \<Rightarrow> str + (str \<times> str)" where
  "adoption_link sha1 resolve idx event =
     (let errors = issue_errors (validate_event event (Some (idx + 1))); payload = event_payload event;
          dir = canonical_absolute_session_dir resolve
      in if errors \<noteq> []
         then Inl (''invalid session.adopted event at index '' @ int_str (int idx) @ '': '' @ py_join ''; '' (map format_issue errors))
         else if jget event ''source'' \<noteq> JStr ''workflow.daemon_attach''
         then Inl ''session.adopted source must be workflow.daemon_attach''
         else if set (dict_keys payload) \<noteq> set SESSION_ADOPTED_PAYLOAD_FIELDS then Inl (fields_message payload)
         else case dir (jget payload ''donor_session_dir'') ''session.adopted.donor_session_dir'' of
           Inl e \<Rightarrow> Inl e
         | Inr donor \<Rightarrow> (case dir (jget payload ''target_session_dir'') ''session.adopted.target_session_dir'' of
           Inl e \<Rightarrow> Inl e
         | Inr target \<Rightarrow> (case dir (jget event ''session_dir'') ''session.adopted envelope session_dir'' of
           Inl e \<Rightarrow> Inl e
         | Inr envelope_dir \<Rightarrow> (case dir (jget event ''session_id'') ''session.adopted envelope session_id'' of
           Inl e \<Rightarrow> Inl e
         | Inr envelope_id \<Rightarrow>
             if envelope_dir \<noteq> target \<or> envelope_id \<noteq> target
             then Inl ''session.adopted envelope must be bound to its target directory''
             else if donor = target then Inl ''session.adopted donor and target directories must differ''
             else (case daemon_ids_error sha1 resolve payload donor target of
                     Some e \<Rightarrow> Inl e | None \<Rightarrow> Inr (target, donor))))))"

fun adoption_links ::
  "(str \<Rightarrow> str) \<Rightarrow> (str \<Rightarrow> str) \<Rightarrow> nat \<Rightarrow> event list \<Rightarrow> (str \<times> nat \<times> str) list \<Rightarrow> str + (str \<times> nat \<times> str) list" where
  "adoption_links sha1 resolve idx [] links = Inr links"
| "adoption_links sha1 resolve idx (e # es) links =
     (if \<not> has_type e ''session.adopted'' then adoption_links sha1 resolve (Suc idx) es links
      else case adoption_link sha1 resolve idx e of
        Inl msg \<Rightarrow> Inl msg
      | Inr (target, donor) \<Rightarrow>
          if dict_get links target \<noteq> None then Inl (''duplicate session.adopted link for target '' @ target)
          else adoption_links sha1 resolve (Suc idx) es (dict_set target (idx, donor) links))"

text \<open>The loop that follows the links from the current directory back to the first donor. It ends
  because every step goes to an earlier event.\<close>

function lineage_walk ::
  "(str \<times> nat \<times> str) list \<Rightarrow> str \<Rightarrow> nat \<Rightarrow> str list \<Rightarrow> str list \<Rightarrow> str + (str list \<times> str list)" where
  "lineage_walk links cursor child consumed aliases =
     (case dict_get links cursor of
        None \<Rightarrow> Inr (consumed, aliases)
      | Some (idx, donor) \<Rightarrow>
          if cursor \<in> set consumed then Inl ''cyclic session adoption lineage''
          else if child \<le> idx then Inl ''session adoption links are not ordered oldest-to-newest''
          else lineage_walk links donor idx (consumed @ [cursor]) (aliases @ [donor]))"
  by pat_completeness auto
termination
  by (relation "measure (\<lambda>(links, cursor, child, consumed, aliases). child)") auto

declare lineage_walk.simps [simp del]

text \<open>The aliases in the order they are found; the source returns them as a set.\<close>

definition validated_session_lineage_aliases ::
  "(str \<Rightarrow> str) \<Rightarrow> (str \<Rightarrow> str) \<Rightarrow> event list \<Rightarrow> str \<Rightarrow> str + str list" where
  "validated_session_lineage_aliases sha1 resolve events current_session_dir =
     (case canonical_absolute_session_dir resolve (JStr (resolve current_session_dir)) ''current_session_dir'' of
        Inl e \<Rightarrow> Inl e
      | Inr current \<Rightarrow>
          (case adoption_links sha1 resolve 0 events [] of
             Inl e \<Rightarrow> Inl e
           | Inr links \<Rightarrow>
               if links = [] then Inr [current]
               else case lineage_walk links current (length events) [] [current] of
                 Inl e \<Rightarrow> Inl e
               | Inr (consumed, aliases) \<Rightarrow>
                   if set consumed \<noteq> set (dict_keys links)
                   then Inl (''disconnected session adoption lineage: ''
                          @ py_join '', '' (sort (filter (\<lambda>t. t \<notin> set consumed) (dict_keys links))))
                   else Inr aliases))"

text \<open>A chain of adoptions: each directory was adopted from the next by an event before the one that
  follows, and the last one was not adopted.\<close>

fun adoption_chain :: "(str \<times> nat \<times> str) list \<Rightarrow> nat \<Rightarrow> str list \<Rightarrow> bool" where
  "adoption_chain links child [] = False"
| "adoption_chain links child [c] = (dict_get links c = None)"
| "adoption_chain links child (c # d # cs) =
     (case dict_get links c of
        None \<Rightarrow> False
      | Some (idx, donor) \<Rightarrow> donor = d \<and> idx < child \<and> adoption_chain links idx (d # cs))"

lemma lineage_walk_chain:
  assumes "\<forall>c \<in> set consumed. \<exists>i d. dict_get links c = Some (i, d) \<and> child \<le> i"
  shows "lineage_walk links c child consumed aliases = Inr (consumed', aliases') \<longleftrightarrow>
    (\<exists>cs. adoption_chain links child (c # cs) \<and> consumed' = consumed @ butlast (c # cs) \<and> aliases' = aliases @ cs)"
  using assms
proof (induction links c child consumed aliases rule: lineage_walk.induct)
  case (1 links c child consumed aliases)
  show ?case
  proof (cases "dict_get links c")
    case None
    have "adoption_chain links child (c # cs) \<longleftrightarrow> cs = []" for cs by (cases cs) (simp_all add: None)
    then show ?thesis by (subst lineage_walk.simps) (auto simp: None)
  next
    case (Some l)
    obtain i d where l: "l = (i, d)" by (cases l)
    have chain: "adoption_chain links child (c # cs) \<longleftrightarrow> i < child \<and> (\<exists>ds. cs = d # ds \<and> adoption_chain links i (d # ds))" for cs
      by (cases cs) (auto simp: Some l)
    show ?thesis
    proof (cases "i < child")
      case True
      with "1.prems" have nc: "c \<notin> set consumed" using Some l by fastforce
      have inv: "\<forall>x \<in> set (consumed @ [c]). \<exists>k d'. dict_get links x = Some (k, d') \<and> i \<le> k"
        using "1.prems" True Some l by fastforce
      have ih: "lineage_walk links d i (consumed @ [c]) (aliases @ [d]) = Inr (consumed', aliases') \<longleftrightarrow>
          (\<exists>cs. adoption_chain links i (d # cs) \<and> consumed' = (consumed @ [c]) @ butlast (d # cs)
             \<and> aliases' = (aliases @ [d]) @ cs)"
        by (rule "1.IH" [OF Some l [symmetric] nc _ inv]) (use True in linarith)
      have "lineage_walk links c child consumed aliases = lineage_walk links d i (consumed @ [c]) (aliases @ [d])"
        using True nc by (subst lineage_walk.simps) (simp add: Some l)
      moreover have "(\<exists>cs. adoption_chain links child (c # cs) \<and> consumed' = consumed @ butlast (c # cs) \<and> aliases' = aliases @ cs)
          \<longleftrightarrow> (\<exists>ds. adoption_chain links i (d # ds) \<and> consumed' = (consumed @ [c]) @ butlast (d # ds)
               \<and> aliases' = (aliases @ [d]) @ ds)"
        unfolding chain by (simp add: True ex_simps [symmetric] del: adoption_chain.simps ex_simps)
      ultimately show ?thesis by (simp only: ih)
    next
      case False
      then show ?thesis by (subst lineage_walk.simps) (auto simp: Some l chain)
    qed
  qed
qed

lemma adoption_chain_links:
  "adoption_chain links child cs \<Longrightarrow>
     dict_get links (last cs) = None \<and> (\<forall>c \<in> set (butlast cs). \<exists>i d. dict_get links c = Some (i, d) \<and> i < child)"
proof (induction links child cs rule: adoption_chain.induct)
  case (3 links child c d cs)
  then obtain i where i: "dict_get links c = Some (i, d)" "i < child" "adoption_chain links i (d # cs)"
    by (auto split: option.splits)
  from "3.IH" [OF i(1) refl] i show ?case by fastforce
qed auto

lemma adoption_chain_distinct: "adoption_chain links child cs \<Longrightarrow> distinct cs"
proof (induction links child cs rule: adoption_chain.induct)
  case (3 links child c d cs)
  then obtain i where i: "dict_get links c = Some (i, d)" "i < child" "adoption_chain links i (d # cs)"
    by (auto split: option.splits)
  have ne: "x \<noteq> c" if "x \<in> set (d # cs)" for x
  proof -
    have "x \<in> set (butlast (d # cs)) \<or> x = last (d # cs)"
      using that by (metis append_butlast_last_id in_set_conv_decomp list.distinct(1) Un_iff set_append set_ConsD empty_iff list.set(1))
    then show ?thesis using adoption_chain_links [OF i(3)] i(1) by auto
  qed
  from "3.IH" [OF i(1) refl] i(3) ne show ?case by (metis distinct.simps(2))
qed auto

definition links_from :: "(str \<Rightarrow> str) \<Rightarrow> (str \<Rightarrow> str) \<Rightarrow> event list \<Rightarrow> (str \<times> nat \<times> str) list \<Rightarrow> bool" where
  "links_from sha1 resolve events links \<longleftrightarrow>
     (\<forall>t i d. dict_get links t = Some (i, d) \<longrightarrow>
        i < length events \<and> has_type (events ! i) ''session.adopted'' \<and> adoption_link sha1 resolve i (events ! i) = Inr (t, d))"

lemma adoption_links_from:
  "adoption_links sha1 resolve (length pre) es links = Inr links' \<Longrightarrow> links_from sha1 resolve pre links
     \<Longrightarrow> links_from sha1 resolve (pre @ es) links'"
proof (induction es arbitrary: pre links)
  case (Cons e es)
  have frame: "links_from sha1 resolve (pre @ [e]) links"
    using Cons.prems(2) by (fastforce simp: links_from_def nth_append)
  show ?case
  proof (cases "has_type e ''session.adopted''")
    case False
    with Cons.IH [of "pre @ [e]" links] Cons.prems(1) frame show ?thesis by simp
  next
    case True
    with Cons.prems(1) obtain t d where td: "adoption_link sha1 resolve (length pre) e = Inr (t, d)"
      "adoption_links sha1 resolve (Suc (length pre)) es (dict_set t (length pre, d) links) = Inr links'"
      by (auto split: sum.splits if_splits)
    have "links_from sha1 resolve (pre @ [e]) (dict_set t (length pre, d) links)"
      using frame True td(1) by (auto simp: links_from_def dict_get_set nth_append)
    with Cons.IH [of "pre @ [e]" "dict_set t (length pre, d) links"] td(2) show ?thesis by simp
  qed
qed simp



section \<open>Attempts and summaries\<close>

record tactic_attempt =
  ta_event_id :: str
  ta_event_type :: str
  ta_event_index :: int
  ta_attempt_kind :: str
  ta_tactic :: str
  ta_status :: str
  ta_accepted :: "bool option"
  ta_mutates_proof_state :: "bool option"
  ta_error :: str
  ta_error_kind :: str

definition attempt_is_empty :: "tactic_attempt \<Rightarrow> bool" where
  "attempt_is_empty a \<longleftrightarrow> ta_event_id a = [] \<and> ta_event_type a = [] \<and> ta_tactic a = []"

definition attempt_failed :: "tactic_attempt \<Rightarrow> bool" where
  "attempt_failed a \<longleftrightarrow> ta_error a \<noteq> [] \<or> ta_accepted a = Some False
     \<or> ta_status a \<in> set [''error'', ''preflight_rejected'', ''preflight_error'']"

definition optional_bool :: "bool option \<Rightarrow> json" where
  "optional_bool b = (case b of None \<Rightarrow> JNull | Some v \<Rightarrow> JBool v)"

definition attempt_to_dict :: "tactic_attempt \<Rightarrow> (str \<times> json) list" where
  "attempt_to_dict a =
     (if attempt_is_empty a then []
      else [(''event_id'', JStr (ta_event_id a)), (''event_type'', JStr (ta_event_type a)),
            (''event_index'', JInt (ta_event_index a)), (''attempt_kind'', JStr (ta_attempt_kind a)),
            (''tactic'', JStr (ta_tactic a)), (''status'', JStr (ta_status a)), (''accepted'', optional_bool (ta_accepted a)),
            (''mutates_proof_state'', optional_bool (ta_mutates_proof_state a)), (''error'', JStr (ta_error a)),
            (''error_kind'', JStr (ta_error_kind a))])"

text \<open>The lines of an error excerpt: the first three non-blank indented lines after the marker.\<close>

fun excerpt_lines :: "bool \<Rightarrow> str list \<Rightarrow> str list \<Rightarrow> str list" where
  "excerpt_lines capture excerpt [] = excerpt"
| "excerpt_lines capture excerpt (line # ls) =
     (let stripped = py_strip line;
          excerpt' = (if stripped = [] then excerpt else excerpt @ [stripped])
      in if stripped = ''[TRY] error_excerpt:'' then excerpt_lines True excerpt ls
         else if \<not> capture then excerpt_lines capture excerpt ls
         else if \<not> starts_with ''  '' line \<or> starts_with ''[TRY]'' stripped then excerpt
         else if 3 \<le> length excerpt' then excerpt'
         else excerpt_lines capture excerpt' ls)"

definition ERROR_WORDS :: "str list" where
  "ERROR_WORDS = [''error'', ''wrong number'', ''cannot'', ''invalid'', ''failed'', ''mismatch'']"

definition SKIP_PREFIXES :: "str list" where
  "SKIP_PREFIXES = [''[TRY] tactic:'', ''[TRY] accepted:'', ''[TRY] goal_after:'', ''[TRY] NOTE:'']"

definition report_error_excerpt :: "str \<Rightarrow> str" where
  "report_error_excerpt report =
     (if py_strip report = [] then []
      else let ls = map py_rstrip (py_splitlines report);
               excerpt = excerpt_lines False [] ls
           in if excerpt \<noteq> [] then py_join [newline] excerpt
              else case find (starts_with ''[TRY] error:'') (map py_strip ls) of
                Some line \<Rightarrow> py_strip (drop (length ''[TRY] error:'') line)
              | None \<Rightarrow>
                  py_join [newline] (take 3 (filter
                    (\<lambda>l. l \<noteq> [] \<and> \<not> list_ex (\<lambda>p. starts_with p l) SKIP_PREFIXES
                       \<and> list_ex (\<lambda>w. contains w (py_lower l)) ERROR_WORDS) (map py_strip ls))))"

definition try_status :: "bool \<Rightarrow> bool option \<Rightarrow> str" where
  "try_status tool_error accepted =
     (if tool_error then ''preflight_error''
      else case accepted of Some True \<Rightarrow> ''preflight_accepted'' | Some False \<Rightarrow> ''preflight_rejected'' | None \<Rightarrow> ''preflight_unknown'')"

definition attempt_from_event :: "event \<Rightarrow> int \<Rightarrow> tactic_attempt option" where
  "attempt_from_event event idx =
     (let typ = event_type_of event; payload = event_payload event;
          latest_error = py_strip (str_or_empty (jget payload ''latest_error''));
          attempt = \<lparr>ta_event_id = str_or_empty (jget event ''event_id''), ta_event_type = typ, ta_event_index = idx,
              ta_attempt_kind = [], ta_tactic = str_or_empty (jget payload ''tactic''), ta_status = [], ta_accepted = None,
              ta_mutates_proof_state = None, ta_error = latest_error, ta_error_kind = []\<rparr>
      in if typ = ''tactic.result''
         then (let status = str_or_empty (jget payload ''status'') in
               Some (attempt\<lparr>ta_attempt_kind := ''committed_tactic'', ta_status := status,
                 ta_accepted := (if status = ''error'' then Some False else if status \<noteq> [] then Some True else None),
                 ta_mutates_proof_state := Some True, ta_error_kind := (if latest_error \<noteq> [] then ''easycrypt'' else [])\<rparr>))
         else if typ = ''tactic.try_result''
         then (let accepted = (case jget payload ''accepted'' of JBool b \<Rightarrow> Some b | _ \<Rightarrow> None);
                   tool_error = (str_or_empty (jget payload ''status'') = ''error'' \<or> py_truthy (jget payload ''tool_error''));
                   error = (if latest_error = [] \<and> (tool_error \<or> accepted = Some False)
                            then report_error_excerpt (str_or_empty (jget payload ''report'')) else latest_error)
               in Some (attempt\<lparr>ta_attempt_kind := ''speculative_probe'', ta_status := try_status tool_error accepted,
                    ta_accepted := accepted, ta_mutates_proof_state := Some False, ta_error := error,
                    ta_error_kind := str_or_empty (jget payload ''error_kind'')\<rparr>))
         else None)"

text \<open>The attempts of a stream, newest first.\<close>

definition attempts_newest_first :: "event list \<Rightarrow> tactic_attempt list" where
  "attempts_newest_first events =
     List.map_filter (\<lambda>(i, e). attempt_from_event e (int i)) (rev (List.enumerate 0 events))"

definition latest_tactic_attempt :: "event list \<Rightarrow> tactic_attempt option" where
  "latest_tactic_attempt events = (case attempts_newest_first events of [] \<Rightarrow> None | a # _ \<Rightarrow> Some a)"

definition recent_failed_tactic_attempts :: "event list \<Rightarrow> nat \<Rightarrow> tactic_attempt list" where
  "recent_failed_tactic_attempts events limit = take (max 1 limit) (filter attempt_failed (attempts_newest_first events))"

text \<open>\<open>counts[key] = counts.get(key, 0) + 1\<close> for each key.\<close>

definition count_keys :: "str list \<Rightarrow> (str \<times> int) list" where
  "count_keys ks =
     foldl (\<lambda>d k. dict_set k ((case dict_get d k of Some n \<Rightarrow> n | None \<Rightarrow> 0) + 1) d) [] ks"

definition count_event_types :: "event list \<Rightarrow> (str \<times> int) list" where
  "count_event_types events = count_keys (filter (\<lambda>t. t \<noteq> []) (map event_type_of events))"

definition candidate_closed_events :: "event list \<Rightarrow> event list" where
  "candidate_closed_events events =
     filter (\<lambda>e. has_type e ''proof.candidate_closed''
               \<and> (case dict_get (event_payload e) ''candidate_closed'' of None \<Rightarrow> True | Some v \<Rightarrow> py_truthy v)) events"

record event_summary =
  su_event_counts :: "(str \<times> int) list"
  su_candidate_closed_count :: nat
  su_tactic_status_counts :: "(str \<times> int) list"
  su_verification_status :: json
  su_latest_attempt :: "tactic_attempt option"
  su_recent_failed_attempts :: "tactic_attempt list"

definition summarize_events :: "event list \<Rightarrow> event_summary" where
  "summarize_events events =
     (let verifications = events_of_type events ''verification.completed'' in
      \<lparr>su_event_counts = count_event_types events,
       su_candidate_closed_count = length (candidate_closed_events events),
       su_tactic_status_counts = count_keys
         (map (\<lambda>e. case dict_get (event_payload e) ''status'' of None \<Rightarrow> ''unknown'' | Some v \<Rightarrow> py_str v)
           (events_of_type events ''tactic.result'')),
       su_verification_status = (if verifications = [] then JNull else jget (event_payload (last verifications)) ''status''),
       su_latest_attempt = latest_tactic_attempt events,
       su_recent_failed_attempts = recent_failed_tactic_attempts events 5\<rparr>)"

lemma count_keys_get:
  "dict_get (count_keys ks) k = (if k \<in> set ks then Some (int (count_list ks k)) else None)"
proof (induction ks rule: rev_induct)
  case (snoc x ks)
  have "count_keys (ks @ [x]) =
      dict_set x ((case dict_get (count_keys ks) x of Some n \<Rightarrow> n | None \<Rightarrow> 0) + 1) (count_keys ks)"
    by (simp add: count_keys_def)
  with snoc show ?case by (auto simp: dict_get_set count_list_0_iff)
qed (simp add: count_keys_def dict_get_def)

end
