(* ===== verification/Session_State.thy ===== *)
theory Session_State
  imports Session_Events
begin

text \<open>
  The state of an EasyCrypt session as read from its output text:
  \<open>core/easycrypt/session/session_state.py\<close> and the prompt of \<open>core/easycrypt/ec_prompt.py\<close>. The files
  of a session directory are arguments: the text of \<open>current.out\<close> and \<open>prev.out\<close> when they exist, and
  the decoded \<open>session_meta.json\<close>.
\<close>

section \<open>Prompts\<close>

definition Digits :: re where "Digits = Plus (Cls is_digit)"

definition PROMPT_RE :: re where
  "PROMPT_RE = Seqs [Lit ''['', Grp 1 Digits, Lit ''|'', Grp 2 (Plus (Cls is_alpha)), Lit '']>'']"

text \<open>\<open>(?m)^\<close> and \<open>(?m)$\<close>.\<close>

definition LineStart :: re where "LineStart = NotBehind (\<lambda>c. c \<noteq> newline)"
definition LineEnd :: re where "LineEnd = Alt (NotAhead (Cls (\<lambda>c. True))) (Ahead (Cls (\<lambda>c. c = newline)))"

definition PROMPT_LINE_RE :: re where
  "PROMPT_LINE_RE = Seqs [LineStart, PROMPT_RE, Spaces, LineEnd]"

definition prompt_uid :: "str \<Rightarrow> py_match \<Rightarrow> nat" where
  "prompt_uid t m = (case match_group t 1 m of Some ds \<Rightarrow> digits_val ds | None \<Rightarrow> 0)"

definition is_prompt_line :: "str \<Rightarrow> bool" where
  "is_prompt_line line = re_fullmatch PROMPT_RE (py_strip line)"

definition check_prompt_uid :: "str \<Rightarrow> nat option" where
  "check_prompt_uid line =
     map_option (prompt_uid line) (find (\<lambda>m. match_group line 2 m = Some ''check'') (re_finditer PROMPT_RE line))"

definition last_prompt_uid :: "str \<Rightarrow> nat option" where
  "last_prompt_uid t =
     (let ms = re_finditer PROMPT_RE t in if ms = [] then None else Some (prompt_uid t (last ms)))"

section \<open>State markers\<close>

definition REMAINING_UNKNOWN :: int where "REMAINING_UNKNOWN = -1"

definition CURRENT_GOAL_MARKER_RE :: re where
  "CURRENT_GOAL_MARKER_RE = Seqs [Spaces, Lit ''Current goal'',
     Opt (Seqs [Spaces, Lit ''(remaining:'', Spaces, Grp 1 Digits, Lit '')'']), Spaces, Dollar]"

definition NO_MORE_GOALS_MARKER_RE :: re where
  "NO_MORE_GOALS_MARKER_RE = Seqs [Spaces, Lit ''No more goals'', Spaces, Dollar]"

definition is_current_goal_marker :: "str \<Rightarrow> bool" where
  "is_current_goal_marker line \<longleftrightarrow> re_match CURRENT_GOAL_MARKER_RE line 0 \<noteq> None"

definition is_no_more_goals :: "str \<Rightarrow> bool" where
  "is_no_more_goals line \<longleftrightarrow> re_match NO_MORE_GOALS_MARKER_RE line 0 \<noteq> None"

definition state_marker_remaining :: "str \<Rightarrow> int option" where
  "state_marker_remaining line =
     (if is_no_more_goals line then Some 0
      else case re_match CURRENT_GOAL_MARKER_RE line 0 of
        None \<Rightarrow> None
      | Some (j, g) \<Rightarrow> (case match_group line 1 (0, j, g) of Some ds \<Rightarrow> Some (int (digits_val ds)) | None \<Rightarrow> Some 1))"

text \<open>\<open>max(xs, key=lambda x: x[0])\<close> of the prompt lines \<open>(uid, index)\<close>: the first with the largest uid.\<close>

fun highest_prompt :: "nat \<times> nat \<Rightarrow> (nat \<times> nat) list \<Rightarrow> nat \<times> nat" where
  "highest_prompt best [] = best"
| "highest_prompt best (p # ps) = highest_prompt (if fst best < fst p then p else best) ps"

definition indexed :: "str list \<Rightarrow> (nat \<times> str) list" where
  "indexed ls = List.enumerate 0 ls"

text \<open>The first index satisfying a test in a range, scanned upwards or downwards.\<close>

definition first_in :: "(nat \<Rightarrow> bool) \<Rightarrow> nat \<Rightarrow> nat \<Rightarrow> nat option" where
  "first_in P a b = find P [a..<b]"

definition last_in :: "(nat \<Rightarrow> bool) \<Rightarrow> nat \<Rightarrow> nat \<Rightarrow> nat option" where
  "last_in P a b = find P (rev [a..<b])"

definition latest_state_is_closed :: "str \<Rightarrow> bool" where
  "latest_state_is_closed raw_text =
     (let ls = py_splitlines raw_text;
          prompts = List.map_filter (\<lambda>(i, line). map_option (\<lambda>(a, b, g). (prompt_uid line (a, b, g), i)) (re_search PROMPT_RE line 0))
                      (indexed ls);
          upto = (case prompts of [] \<Rightarrow> length ls | p # ps \<Rightarrow> snd (highest_prompt p ps))
      in case last_in (\<lambda>i. contains ''No more goals'' (ls ! i) \<or> contains ''Current goal'' (ls ! i)) 0 upto of
           None \<Rightarrow> False
         | Some i \<Rightarrow> contains ''No more goals'' (ls ! i))"

section \<open>The active goal\<close>

definition check_lines :: "str list \<Rightarrow> (nat \<times> nat) list" where
  "check_lines ls = List.map_filter (\<lambda>(i, line). map_option (\<lambda>uid. (uid, i)) (check_prompt_uid line)) (indexed ls)"

text \<open>Where the goal block starts: the goal marker at or before the prompt, else the first one after
  it, else the prompt line itself.\<close>

definition goal_start_of :: "str list \<Rightarrow> nat \<Rightarrow> nat" where
  "goal_start_of ls h =
     (case last_in (\<lambda>i. is_current_goal_marker (ls ! i)) 0 (Suc h) of
        Some i \<Rightarrow> i
      | None \<Rightarrow> (case first_in (\<lambda>i. is_current_goal_marker (ls ! i)) (Suc h) (length ls) of Some i \<Rightarrow> i | None \<Rightarrow> h))"

text \<open>A closed-state marker printed after the prompt and before the next one: the block from it.\<close>

definition closed_after_prompt :: "str list \<Rightarrow> nat \<Rightarrow> str option" where
  "closed_after_prompt ls h =
     (let forward_end = (case first_in (\<lambda>i. re_search PROMPT_RE (ls ! i) 0 \<noteq> None) (Suc h) (length ls) of
                           Some i \<Rightarrow> i | None \<Rightarrow> length ls)
      in map_option (\<lambda>i. py_join [newline] (py_slice ls i forward_end))
           (first_in (\<lambda>i. is_no_more_goals (ls ! i)) (Suc h) forward_end))"

definition goal_block :: "str list \<Rightarrow> nat \<Rightarrow> nat \<Rightarrow> str" where
  "goal_block ls h start =
     (let block = py_join [newline] (if h < start then drop start ls else py_slice ls start (Suc h))
      in if start = h \<and> last_in (\<lambda>i. contains ''No more goals'' (ls ! i)) 0 h \<noteq> None
         then ''No more goals'' @ [newline] @ block else block)"

definition first_remaining :: "str list \<Rightarrow> int option" where
  "first_remaining ls = find (\<lambda>n. True) (List.map_filter state_marker_remaining ls)"

definition goal_remaining :: "str list \<Rightarrow> nat \<Rightarrow> nat \<Rightarrow> int" where
  "goal_remaining ls h start =
     (let scan_start = (case last_in (\<lambda>i. check_prompt_uid (ls ! i) \<noteq> None) 0 h of Some j \<Rightarrow> Suc j | None \<Rightarrow> 0);
          before = first_remaining (rev (py_slice ls scan_start h));
          n1 = (case before of Some n \<Rightarrow> n | None \<Rightarrow> REMAINING_UNKNOWN);
          n2 = (if n1 = REMAINING_UNKNOWN \<and> h < start
                then (case first_remaining (drop start ls) of Some n \<Rightarrow> n | None \<Rightarrow> n1) else n1)
      in if n2 = REMAINING_UNKNOWN \<and> start = h \<and> last_in (\<lambda>i. is_no_more_goals (ls ! i)) 0 h \<noteq> None then 0 else n2)"

definition extract_active_goal_block :: "str \<Rightarrow> str \<times> int" where
  "extract_active_goal_block raw_text =
     (let ls = py_splitlines raw_text in
      case check_lines ls of
        [] \<Rightarrow> if latest_state_is_closed raw_text then (''No more goals'', 0) else ([], REMAINING_UNKNOWN)
      | p # ps \<Rightarrow>
          (let h = snd (highest_prompt p ps); start = goal_start_of ls h in
           case (if start = h then closed_after_prompt ls h else None) of
             Some block \<Rightarrow> (block, 0)
           | None \<Rightarrow> (goal_block ls h start, goal_remaining ls h start)))"

definition infer_section_count :: "str \<Rightarrow> int option" where
  "infer_section_count section =
     (case re_search (Seqs [Lit ''Current goal'', Opt (Seqs [Lit '' (remaining: '', Grp 1 Digits, Lit '')''])]) section 0 of
        None \<Rightarrow> None
      | Some m \<Rightarrow> (case match_group section 1 m of Some ds \<Rightarrow> Some (int (digits_val ds)) | None \<Rightarrow> Some 1))"

definition latest_state_section :: "str \<Rightarrow> str" where
  "latest_state_section raw_text =
     (case rev (re_finditer PROMPT_RE raw_text) of
        [] \<Rightarrow> drop (length raw_text - 500) raw_text
      | [(a, b, g)] \<Rightarrow> take a raw_text
      | (a, b, g) # (a', b', g') # _ \<Rightarrow> py_slice raw_text b' a)"

definition infer_goal_count :: "str \<Rightarrow> int \<times> bool" where
  "infer_goal_count raw_text =
     (let remaining = snd (extract_active_goal_block raw_text); section = latest_state_section raw_text in
      if remaining \<noteq> REMAINING_UNKNOWN then (remaining, remaining = 0)
      else if contains ''No more goals'' section then (0, True)
      else case infer_section_count section of
        Some n \<Rightarrow> (n, False)
      | None \<Rightarrow> if latest_state_is_closed raw_text then (0, True) else (REMAINING_UNKNOWN, False))"

definition extract_goal_body :: "str \<Rightarrow> str" where
  "extract_goal_body raw_text =
     (let ls = py_splitlines raw_text;
          is_header = (\<lambda>line. let stripped = py_strip line in
                          stripped = ''Current goal'' \<or> starts_with ''Current goal (remaining:'' stripped);
          body = (case last_in (\<lambda>i. is_header (ls ! i)) 0 (length ls) of
                    Some start \<Rightarrow> drop start ls | None \<Rightarrow> drop (length ls - 80) ls)
      in re_sub PROMPT_RE [] (py_join [newline] body))"

section \<open>The session state\<close>

text \<open>\<open>current.out\<close> since the previous tactic; \<open>previous\<close> is the text of \<open>prev.out\<close> when it exists.\<close>

definition extract_active_goal_output :: "str \<Rightarrow> str option \<Rightarrow> str" where
  "extract_active_goal_output raw_current previous =
     (case previous of
        None \<Rightarrow> raw_current
      | Some p \<Rightarrow>
          (let prev_len = length (py_splitlines p); curr_lines = py_splitlines raw_current in
           if p \<noteq> [] \<and> prev_len < length curr_lines then py_join [newline] (drop prev_len curr_lines)
           else raw_current))"

definition added_lemma_re :: "str \<Rightarrow> re" where
  "added_lemma_re target_name =
     Seqs [Lit ''+'', Plus (Cls py_isspace), Lit ''added'', Plus (Cls py_isspace), Lit ''lemma:'', Plus (Cls py_isspace),
           Lit ([CHR 0x60] @ target_name @ [quote_char])]"

definition target_lemma_added :: "str \<Rightarrow> str \<Rightarrow> bool" where
  "target_lemma_added raw_text target_name \<longleftrightarrow>
     target_name \<noteq> [] \<and> re_search (added_lemma_re target_name) raw_text 0 \<noteq> None"

datatype meta_file = NoMeta | UnreadableMeta | Meta json

record target_metadata =
  tm_status :: str
  tm_lemma :: str
  tm_source_file :: str

definition read_target_lemma_metadata :: "meta_file \<Rightarrow> target_metadata" where
  "read_target_lemma_metadata meta =
     (let bad = (\<lambda>status. \<lparr>tm_status = status, tm_lemma = [], tm_source_file = []\<rparr>) in
      case meta of
        NoMeta \<Rightarrow> bad ''missing''
      | UnreadableMeta \<Rightarrow> bad ''invalid''
      | Meta data \<Rightarrow>
          (case data of
             JObj d \<Rightarrow>
               (case (jget d ''lemma'', jget d ''file'') of
                  (JStr lemma_name, JStr file) \<Rightarrow>
                    if file = [] \<or> lemma_name \<noteq> py_strip lemma_name then bad ''invalid''
                    else \<lparr>tm_status = (if lemma_name = [] then ''full_file'' else ''target_lemma''),
                          tm_lemma = lemma_name, tm_source_file = file\<rparr>
                | _ \<Rightarrow> bad ''invalid'')
           | _ \<Rightarrow> bad ''invalid''))"

record session_state =
  sn_has_current :: bool
  sn_raw_current :: str
  sn_active_output :: str
  sn_active_goal_block :: str
  sn_num_remaining :: int
  sn_proof_candidate_closed :: bool

definition raw_for_goal_tools :: "session_state \<Rightarrow> str" where
  "raw_for_goal_tools s = (if sn_active_goal_block s \<noteq> [] then sn_active_goal_block s else sn_active_output s)"

text \<open>What the close detection concludes from the goal count and the target's close signal.\<close>

definition close_detection :: "str \<Rightarrow> str \<Rightarrow> int \<Rightarrow> bool \<times> int" where
  "close_detection raw_current target_lemma n =
     (if target_lemma \<noteq> []
      then (if target_lemma_added raw_current target_lemma
            then (True, if n = REMAINING_UNKNOWN then 0 else n)
            else (False, if n = 0 then REMAINING_UNKNOWN else n))
      else (let closed = (n = 0 \<or> (n = REMAINING_UNKNOWN \<and> latest_state_is_closed raw_current))
            in (closed, if closed \<and> n = REMAINING_UNKNOWN then 0 else n)))"

definition read_session_state :: "str option \<Rightarrow> str option \<Rightarrow> meta_file \<Rightarrow> str option \<Rightarrow> session_state" where
  "read_session_state current previous meta target_lemma =
     (case current of
        None \<Rightarrow> \<lparr>sn_has_current = False, sn_raw_current = [], sn_active_output = [], sn_active_goal_block = [],
                 sn_num_remaining = REMAINING_UNKNOWN, sn_proof_candidate_closed = False\<rparr>
      | Some raw \<Rightarrow>
          (let (block, n) = extract_active_goal_block raw;
               target = (case target_lemma of Some t \<Rightarrow> t | None \<Rightarrow> tm_lemma (read_target_lemma_metadata meta));
               (closed, remaining) = close_detection raw target n
           in \<lparr>sn_has_current = True, sn_raw_current = raw,
               sn_active_output = extract_active_goal_output raw previous, sn_active_goal_block = block,
               sn_num_remaining = remaining, sn_proof_candidate_closed = closed\<rparr>))"

section \<open>Lemmas\<close>

lemma marker_remaining_nonneg: "state_marker_remaining line = Some n \<Longrightarrow> 0 \<le> n"
  by (auto simp: state_marker_remaining_def split: if_splits option.splits)

lemma first_remaining_nonneg: "first_remaining ls = Some n \<Longrightarrow> 0 \<le> n"
  using marker_remaining_nonneg
  by (fastforce simp: first_remaining_def find_Some_iff map_filter_def in_set_conv_nth dest: nth_mem)

lemma goal_remaining_bound: "REMAINING_UNKNOWN \<le> goal_remaining ls h start"
  using first_remaining_nonneg
  by (fastforce simp: goal_remaining_def REMAINING_UNKNOWN_def Let_def split: option.split)

lemma extract_remaining_bound: "REMAINING_UNKNOWN \<le> snd (extract_active_goal_block raw)"
  using goal_remaining_bound
  by (auto simp: extract_active_goal_block_def Let_def REMAINING_UNKNOWN_def split: list.split option.split)

section \<open>The close signal\<close>

text \<open>A pattern without groups reads words: from \<open>i\<close> it reaches \<open>j\<close> exactly over the words it accepts.\<close>

definition reads :: "re \<Rightarrow> (str \<Rightarrow> bool) \<Rightarrow> bool" where
  "reads r W \<longleftrightarrow>
     (\<forall>t i g j h. i \<le> length t \<longrightarrow>
        ((j, h) \<in> set (ends t r (i, g)) \<longleftrightarrow> h = g \<and> (\<exists>w. W w \<and> drop i t = w @ drop j t \<and> j = i + length w)))"

lemma reads_Cls: "reads (Cls p) (\<lambda>w. \<exists>c. w = [c] \<and> p c)"
proof -
  have "(j, h) \<in> set (ends t (Cls p) (i, g)) \<longleftrightarrow> h = g \<and> (\<exists>w. (\<exists>c. w = [c] \<and> p c) \<and> drop i t = w @ drop j t \<and> j = i + length w)"
    if "i \<le> length t" for t i g j h
  proof (cases "i < length t")
    case True
    then show ?thesis by (auto simp: drop_eq_nth_cons)
  next
    case False
    then have "drop i t = []" by simp
    then show ?thesis using False by auto
  qed
  then show ?thesis unfolding reads_def by blast
qed

lemma reads_Seq:
  assumes a: "reads a A" and b: "reads b B"
  shows "reads (Seq a b) (\<lambda>w. \<exists>u v. w = u @ v \<and> A u \<and> B v)"
proof -
  have "(j, h) \<in> set (ends t (Seq a b) (i, g)) \<longleftrightarrow>
      h = g \<and> (\<exists>w. (\<exists>u v. w = u @ v \<and> A u \<and> B v) \<and> drop i t = w @ drop j t \<and> j = i + length w)"
    if i: "i \<le> length t" for t i g j h
  proof
    assume "(j, h) \<in> set (ends t (Seq a b) (i, g))"
    then obtain k g' where k: "(k, g') \<in> set (ends t a (i, g))" "(j, h) \<in> set (ends t b (k, g'))" by auto
    have "k \<le> length t" using ends_le [OF k(1)] i by simp
    with a b k i obtain u v where "g' = g" "A u" "drop i t = u @ drop k t" "k = i + length u"
      "h = g'" "B v" "drop k t = v @ drop j t" "j = k + length v"
      unfolding reads_def by meson
    then have "h = g" "A u" "B v" "drop i t = (u @ v) @ drop j t" "j = i + length (u @ v)" by auto
    then show "h = g \<and> (\<exists>w. (\<exists>u v. w = u @ v \<and> A u \<and> B v) \<and> drop i t = w @ drop j t \<and> j = i + length w)"
      by blast
  next
    assume "h = g \<and> (\<exists>w. (\<exists>u v. w = u @ v \<and> A u \<and> B v) \<and> drop i t = w @ drop j t \<and> j = i + length w)"
    then obtain u v where uv: "h = g" "A u" "B v" "drop i t = (u @ v) @ drop j t" "j = i + length (u @ v)" by blast
    then have w: "h = g" "A u" "B v" "drop i t = u @ v @ drop j t" "j = i + length u + length v" by simp_all
    have k: "drop (i + length u) t = v @ drop j t" using arg_cong [OF w(4), of "drop (length u)"] by (simp add: add.commute)
    have len: "i + length u \<le> length t" using arg_cong [OF w(4), of length] i by simp
    have "(i + length u, g) \<in> set (ends t a (i, g))" using a w(2,4) k i unfolding reads_def by fastforce
    moreover have "(j, h) \<in> set (ends t b (i + length u, g))" using b w(1,3,5) k len unfolding reads_def by fastforce
    ultimately show "(j, h) \<in> set (ends t (Seq a b) (i, g))" by auto
  qed
  then show ?thesis unfolding reads_def by blast
qed

lemma reads_Lit: "w \<noteq> [] \<Longrightarrow> reads (Lit w) (\<lambda>v. v = w)"
proof (induction w rule: Lit.induct)
  case (2 c)
  have "reads (Cls (\<lambda>x. x = c)) (\<lambda>w. \<exists>d. w = [d] \<and> d = c)" by (rule reads_Cls)
  then show ?case by simp
next
  case (3 c d cs)
  then have "reads (Seq (Cls (\<lambda>x. x = c)) (Lit (d # cs))) (\<lambda>w. \<exists>u v. w = u @ v \<and> (\<exists>b. u = [b] \<and> b = c) \<and> v = d # cs)"
    by (intro reads_Seq reads_Cls) simp
  then show ?case by simp
qed simp

definition run_of :: "(char \<Rightarrow> bool) \<Rightarrow> str \<Rightarrow> bool" where
  "run_of p w \<longleftrightarrow> w \<noteq> [] \<and> list_all p w"

lemma reads_Star: "reads (Star (Cls p)) (list_all p)"
proof -
  have "(j, h) \<in> set (ends t (Star (Cls p)) (i, g)) \<longleftrightarrow> h = g \<and> (\<exists>w. list_all p w \<and> drop i t = w @ drop j t \<and> j = i + length w)"
    if i: "i \<le> length t" for t i g j h
  proof -
    have tw: "run_length p t i = length (takeWhile p (drop i t))" by (simp add: run_length_def)
    have "(\<exists>k \<le> run_length p t i. j = i + k) \<longleftrightarrow> (\<exists>w. list_all p w \<and> drop i t = w @ drop j t \<and> j = i + length w)"
    proof
      assume "\<exists>k \<le> run_length p t i. j = i + k"
      then obtain k where k: "k \<le> run_length p t i" "j = i + k" by blast
      have "list_all p (take k (drop i t))"
        using k(1) unfolding tw list_all_iff
        by (metis in_set_takeD set_takeWhileD takeWhile_eq_take take_take min.absorb1)
      moreover have "k \<le> length (drop i t)" using k(1) unfolding tw using length_takeWhile_le le_trans by blast
      ultimately show "\<exists>w. list_all p w \<and> drop i t = w @ drop j t \<and> j = i + length w"
        using k(2) append_take_drop_id [of k "drop i t"]
        by (intro exI [of _ "take k (drop i t)"]) (simp add: add.commute)
    next
      assume "\<exists>w. list_all p w \<and> drop i t = w @ drop j t \<and> j = i + length w"
      then obtain w where w: "list_all p w" "drop i t = w @ drop j t" "j = i + length w" by blast
      have "takeWhile p (w @ drop j t) = w @ takeWhile p (drop j t)"
        using w(1) by (simp add: takeWhile_append2 list_all_iff)
      with w(2) have "length w \<le> run_length p t i" unfolding tw by simp
      with w(3) show "\<exists>k \<le> run_length p t i. j = i + k" by blast
    qed
    then show ?thesis by (auto simp: ends_Star_Cls image_iff less_Suc_eq_le)
  qed
  then show ?thesis unfolding reads_def by blast
qed

lemma reads_Plus: "reads (Plus (Cls p)) (run_of p)"
proof -
  have "(\<lambda>w. \<exists>u v. w = u @ v \<and> (\<exists>c. u = [c] \<and> p c) \<and> list_all p v) = run_of p"
    unfolding fun_eq_iff
  proof
    fix w show "(\<exists>u v. w = u @ v \<and> (\<exists>c. u = [c] \<and> p c) \<and> list_all p v) = run_of p w"
    proof (cases w)
      case (Cons a as)
      then have "run_of p w \<Longrightarrow> w = [a] @ as \<and> (\<exists>c. [a] = [c] \<and> p c) \<and> list_all p as" by (simp add: run_of_def)
      moreover have "(\<exists>u v. w = u @ v \<and> (\<exists>c. u = [c] \<and> p c) \<and> list_all p v) \<Longrightarrow> run_of p w" by (auto simp: run_of_def)
      ultimately show ?thesis by blast
    qed (auto simp: run_of_def)
  qed
  then show ?thesis using reads_Seq [OF reads_Cls reads_Star, of p p] by (simp add: Plus_def)
qed

lemma search_reads:
  assumes "reads r W"
  shows "re_search r t 0 \<noteq> None \<longleftrightarrow> (\<exists>u w v. t = u @ w @ v \<and> W w)"
proof
  assume "re_search r t 0 \<noteq> None"
  then obtain a b g where m: "re_search r t 0 = Some (a, b, g)" by fastforce
  then have "(b, g) \<in> set (ends t r (a, []))"
    using re_search_match [OF m] by (auto simp: re_match_def split: list.splits)
  moreover have a: "a \<le> length t" using re_search_bounds [OF m] by simp
  ultimately obtain w where "W w" "drop a t = w @ drop b t" using assms unfolding reads_def by meson
  then show "\<exists>u w v. t = u @ w @ v \<and> W w"
    by (intro exI [of _ "take a t"] exI [of _ w] exI [of _ "drop b t"]) (metis append_take_drop_id)
next
  assume "\<exists>u w v. t = u @ w @ v \<and> W w"
  then obtain u w v where t: "t = u @ w @ v" and w: "W w" by blast
  let ?i = "length u" and ?j = "length u + length w"
  have "?i \<le> length t" "drop ?i t = w @ drop ?j t" by (simp_all add: t)
  with assms w have "(?j, []) \<in> set (ends t r (?i, []))" unfolding reads_def by blast
  then have "re_match r t ?i \<noteq> None" by (auto simp: re_match_def split: list.splits)
  then show "re_search r t 0 \<noteq> None" using re_search_None [of r t 0 ?i] \<open>?i \<le> length t\<close> by (metis le0)
qed

text \<open>Words that begin with a given text, or with a run of characters, and go on as described.\<close>

definition text_then :: "str \<Rightarrow> (str \<Rightarrow> bool) \<Rightarrow> str \<Rightarrow> bool" where
  "text_then x W w \<longleftrightarrow> (\<exists>v. w = x @ v \<and> W v)"

definition blanks_then :: "(str \<Rightarrow> bool) \<Rightarrow> str \<Rightarrow> bool" where
  "blanks_then W w \<longleftrightarrow> (\<exists>a v. w = a @ v \<and> run_of py_isspace a \<and> W v)"

definition close_signal :: "str \<Rightarrow> str \<Rightarrow> bool" where
  "close_signal target = text_then ''+'' (blanks_then (text_then ''added'' (blanks_then (text_then ''lemma:''
     (blanks_then (\<lambda>v. v = [CHR 0x60] @ target @ [quote_char]))))))"

lemma text_thenI: "W v \<Longrightarrow> text_then x W (x @ v)"
  by (auto simp: text_then_def)

lemma blanks_thenI: "run_of py_isspace a \<Longrightarrow> W v \<Longrightarrow> blanks_then W (a @ v)"
  by (auto simp: blanks_then_def)

lemma reads_text_then:
  assumes "reads b W" "x \<noteq> []" shows "reads (Seq (Lit x) b) (text_then x W)"
  using reads_Seq [OF reads_Lit [OF assms(2)] assms(1)] by (simp add: text_then_def [abs_def])

lemma reads_blanks_then:
  assumes "reads b W" shows "reads (Seq (Plus (Cls py_isspace)) b) (blanks_then W)"
  using reads_Seq [OF reads_Plus assms] by (simp add: blanks_then_def [abs_def])

lemma reads_added_lemma: "reads (added_lemma_re target) (close_signal target)"
  unfolding added_lemma_re_def close_signal_def Seqs.simps
  by (intro reads_text_then reads_blanks_then reads_Lit) simp_all

section \<open>Properties\<close>

text \<open>C29. Close detection: with a target lemma the session counts as closed exactly when the output contains
  EasyCrypt's line that the target lemma was added, whatever goal texts other lemmas left behind, and an
  open session never shows zero goals; without a target it is closed exactly when no goal remains. The
  goal count is never below the unknown value.\<close>

theorem close_detection_exact:
  "let s = read_session_state (Some raw) previous meta (Some target) in
    REMAINING_UNKNOWN \<le> sn_num_remaining s
    \<and> (if target = [] then sn_proof_candidate_closed s \<longleftrightarrow> sn_num_remaining s = 0
       else (sn_proof_candidate_closed s \<longleftrightarrow> (\<exists>u w v. raw = u @ w @ v \<and> close_signal target w))
         \<and> (\<not> sn_proof_candidate_closed s \<longrightarrow> sn_num_remaining s \<noteq> 0))"
proof -
  define s where "s = read_session_state (Some raw) previous meta (Some target)"
  obtain block n where bn: "extract_active_goal_block raw = (block, n)" by fastforce
  have "REMAINING_UNKNOWN \<le> n" using extract_remaining_bound [of raw] by (simp add: bn)
  moreover have "sn_num_remaining s = snd (close_detection raw target n)"
    "sn_proof_candidate_closed s = fst (close_detection raw target n)"
    by (auto simp: s_def read_session_state_def bn split: prod.splits)
  moreover have "target_lemma_added raw target \<longleftrightarrow> target \<noteq> [] \<and> (\<exists>u w v. raw = u @ w @ v \<and> close_signal target w)"
    unfolding target_lemma_added_def search_reads [OF reads_added_lemma] ..
  ultimately show ?thesis
    unfolding s_def [symmetric] Let_def by (auto simp: close_detection_def REMAINING_UNKNOWN_def Let_def)
qed

theorem close_detection_exact_witness:
  "sn_proof_candidate_closed (read_session_state (Some (''+ added lemma: '' @ [CHR 0x60] @ ''foo'' @ [quote_char])) None NoMeta (Some ''foo''))"
proof -
  let ?raw = "''+ added lemma: '' @ [CHR 0x60] @ ''foo'' @ [quote_char]"
  have "close_signal ''foo'' (''+'' @ '' '' @ ''added'' @ '' '' @ ''lemma:'' @ '' '' @ ([CHR 0x60] @ ''foo'' @ [quote_char]))"
    unfolding close_signal_def
    by (intro text_thenI blanks_thenI refl) (simp_all add: run_of_def py_isspace_def)
  then have "close_signal ''foo'' ?raw" by simp
  then have "\<exists>u w v. ?raw = u @ w @ v \<and> close_signal ''foo'' w"
    by (intro exI [of _ "[]"] exI [of _ ?raw]) simp
  then show ?thesis using close_detection_exact [of ?raw None NoMeta "''foo''"] by (simp add: Let_def)
qed

end
