(* ===== verification/Session_Projection.thy ===== *)
theory Session_Projection
  imports Session_State Run_Result
begin

text \<open>
  The canonical proof-state projection, \<open>core/easycrypt/session/session_projection.py\<close>: one view of a
  session joined from the EasyCrypt output, the event log and the committed history. The files of the
  session directory are a record of texts; \<open>json_loads\<close> decodes one log line (\<open>Inl\<close> is the message
  of the decoding error) and \<open>sha1\<close> names a goal. An exception is \<open>Inl\<close> of its text.
\<close>

section \<open>Parts of the projection\<close>

record session_files =
  sf_dir :: str
  sf_current :: "str option"
  sf_previous :: "str option"
  sf_meta :: meta_file
  sf_events :: "str option"
  sf_history :: "str option"
  sf_ledger :: step_ledger

record history_projection =
  hp_path :: str
  hp_exists :: bool
  hp_tactic_count :: nat
  hp_has_qed :: bool
  hp_latest_tactic :: str
  hp_tactics :: "str list"

definition history_to_dict :: "history_projection \<Rightarrow> (str \<times> json) list" where
  "history_to_dict h =
     [(''path'', JStr (hp_path h)), (''exists'', JBool (hp_exists h)), (''tactic_count'', JInt (int (hp_tactic_count h))),
      (''has_qed'', JBool (hp_has_qed h)), (''latest_tactic'', JStr (hp_latest_tactic h))]"

record event_projection =
  ep_event_log :: str
  ep_exists :: bool
  ep_event_count :: nat
  ep_ok :: bool
  ep_errors :: "str list"
  ep_warnings :: "str list"
  ep_event_counts :: "(str \<times> int) list"
  ep_tactic_status_counts :: "(str \<times> int) list"
  ep_candidate_closed :: bool
  ep_verification_status :: json
  ep_latest_attempt :: "(str \<times> json) list"
  ep_recent_failed_attempts :: "(str \<times> json) list list"

definition counts_dict :: "(str \<times> int) list \<Rightarrow> json" where
  "counts_dict cs = JObj (map (\<lambda>(k, n). (k, JInt n)) cs)"

definition event_projection_to_dict :: "event_projection \<Rightarrow> (str \<times> json) list" where
  "event_projection_to_dict p =
     [(''event_log'', JStr (ep_event_log p)), (''exists'', JBool (ep_exists p)),
      (''event_count'', JInt (int (ep_event_count p))), (''ok'', JBool (ep_ok p)),
      (''errors'', JList (map JStr (ep_errors p))), (''warnings'', JList (map JStr (ep_warnings p))),
      (''event_counts'', counts_dict (ep_event_counts p)), (''tactic_status_counts'', counts_dict (ep_tactic_status_counts p)),
      (''candidate_closed'', JBool (ep_candidate_closed p)), (''verification_status'', ep_verification_status p),
      (''latest_attempt'', JObj (ep_latest_attempt p)),
      (''recent_failed_attempts'', JList (map JObj (ep_recent_failed_attempts p)))]"

record close_authority =
  ca_kind :: str
  ca_close_result_event_id :: str
  ca_close_event_id :: str
  ca_terminal_event_id :: str
  ca_close_result_sequence :: nat
  ca_close_event_sequence :: nat
  ca_terminal_event_sequence :: nat

definition AUTHORITATIVE_KINDS :: "str list" where
  "AUTHORITATIVE_KINDS = [''direct_close'', ''post_qed_preserved_close'', ''undo_restored_close'']"

text \<open>The checks of the constructor.\<close>

definition CandidateCloseAuthorityProjection :: "close_authority \<Rightarrow> str + close_authority" where
  "CandidateCloseAuthorityProjection a =
     (let ids = [ca_close_result_event_id a, ca_close_event_id a, ca_terminal_event_id a];
          seqs = [ca_close_result_sequence a, ca_close_event_sequence a, ca_terminal_event_sequence a]
      in if ca_kind a \<noteq> ''none'' \<and> ca_kind a \<notin> set AUTHORITATIVE_KINDS
         then Inl ''unsupported candidate-close authority kind''
         else if ca_kind a = ''none''
         then (if list_ex (\<lambda>i. i \<noteq> []) ids \<or> list_ex (\<lambda>n. n \<noteq> 0) seqs
               then Inl ''absent candidate-close authority carries an occurrence'' else Inr a)
         else if list_ex (\<lambda>i. i = []) ids then Inl ''candidate-close authority requires event identities''
         else if list_ex (\<lambda>n. n = 0) seqs then Inl ''candidate-close authority requires event sequences''
         else if ca_close_event_sequence a \<noteq> ca_close_result_sequence a + 1
         then Inl ''candidate-close result and close event must be adjacent''
         else if ca_kind a = ''direct_close''
           \<and> (ca_terminal_event_id a \<noteq> ca_close_result_event_id a \<or> ca_terminal_event_sequence a \<noteq> ca_close_result_sequence a)
         then Inl ''direct close authority has the wrong terminal event''
         else if ca_kind a \<noteq> ''direct_close'' \<and> ca_terminal_event_sequence a \<le> ca_close_event_sequence a
         then Inl ''preserved close authority has the wrong event order''
         else Inr a)"

definition no_authority :: close_authority where
  "no_authority = \<lparr>ca_kind = ''none'', ca_close_result_event_id = [], ca_close_event_id = [], ca_terminal_event_id = [],
     ca_close_result_sequence = 0, ca_close_event_sequence = 0, ca_terminal_event_sequence = 0\<rparr>"

definition authoritative :: "close_authority \<Rightarrow> bool" where
  "authoritative a \<longleftrightarrow> ca_kind a \<in> set AUTHORITATIVE_KINDS"

definition authority_to_dict :: "close_authority \<Rightarrow> (str \<times> json) list" where
  "authority_to_dict a =
     [(''kind'', JStr (ca_kind a)), (''authoritative'', JBool (authoritative a)),
      (''close_result_event_id'', JStr (ca_close_result_event_id a)), (''close_event_id'', JStr (ca_close_event_id a)),
      (''terminal_event_id'', JStr (ca_terminal_event_id a)),
      (''close_result_sequence'', JInt (int (ca_close_result_sequence a))),
      (''close_event_sequence'', JInt (int (ca_close_event_sequence a))),
      (''terminal_event_sequence'', JInt (int (ca_terminal_event_sequence a)))]"

record goal_projection =
  gp_has_current :: bool
  gp_state_kind :: str
  gp_goal_type :: str
  gp_num_remaining :: "int option"
  gp_num_remaining_determined :: bool
  gp_proof_candidate_closed :: bool
  gp_active_goal_hash :: str
  gp_active_goal_preview :: str
  gp_fact_source :: str
  gp_authority :: str
  gp_authority_rank :: int

definition GoalProjection :: "goal_projection \<Rightarrow> str + goal_projection" where
  "GoalProjection g =
     (if gp_proof_candidate_closed g \<and> gp_active_goal_hash g \<noteq> []
      then Inl ''closed GoalProjection cannot carry active_goal_hash'' else Inr g)"

definition optional_int :: "int option \<Rightarrow> json" where
  "optional_int n = (case n of None \<Rightarrow> JNull | Some i \<Rightarrow> JInt i)"

definition goal_to_dict :: "bool \<Rightarrow> str \<Rightarrow> goal_projection \<Rightarrow> (str \<times> json) list" where
  "goal_to_dict include_raw raw_text g =
     [(''has_current'', JBool (gp_has_current g)), (''state_kind'', JStr (gp_state_kind g)),
      (''goal_type'', JStr (gp_goal_type g)), (''num_remaining'', optional_int (gp_num_remaining g)),
      (''num_remaining_determined'', JBool (gp_num_remaining_determined g)),
      (''proof_candidate_closed'', JBool (gp_proof_candidate_closed g)),
      (''active_goal_hash'', JStr (gp_active_goal_hash g)), (''active_goal_preview'', JStr (gp_active_goal_preview g)),
      (''fact_source'', JStr (gp_fact_source g)), (''authority'', JStr (gp_authority g)),
      (''authority_rank'', JInt (gp_authority_rank g))]
     @ (if include_raw then [(''active_goal_text'', JStr raw_text)] else [])"

record transition_projection =
  tp_kind :: str
  tp_tactic :: str
  tp_status :: str
  tp_goals_before :: "int option"
  tp_goals_after :: "int option"
  tp_candidate_closed :: bool
  tp_no_progress :: bool
  tp_no_progress_reason :: str
  tp_history_committed :: "bool option"
  tp_latest_error :: str

definition no_transition :: transition_projection where
  "no_transition = \<lparr>tp_kind = ''none'', tp_tactic = [], tp_status = [], tp_goals_before = None, tp_goals_after = None,
     tp_candidate_closed = False, tp_no_progress = False, tp_no_progress_reason = [], tp_history_committed = None,
     tp_latest_error = []\<rparr>"

definition transition_to_dict :: "transition_projection \<Rightarrow> (str \<times> json) list" where
  "transition_to_dict t =
     [(''kind'', JStr (tp_kind t)), (''tactic'', JStr (tp_tactic t)), (''status'', JStr (tp_status t)),
      (''goals_before'', optional_int (tp_goals_before t)), (''goals_after'', optional_int (tp_goals_after t)),
      (''candidate_closed'', JBool (tp_candidate_closed t)), (''no_progress'', JBool (tp_no_progress t)),
      (''no_progress_reason'', JStr (tp_no_progress_reason t)),
      (''history_committed'', optional_bool (tp_history_committed t)), (''latest_error'', JStr (tp_latest_error t))]"

record consistency_projection =
  cp_ok :: bool
  cp_errors :: "str list"
  cp_warnings :: "str list"
  cp_notes :: "str list"

definition consistency_to_dict :: "consistency_projection \<Rightarrow> (str \<times> json) list" where
  "consistency_to_dict c =
     [(''ok'', JBool (cp_ok c)), (''errors'', JList (map JStr (cp_errors c))),
      (''warnings'', JList (map JStr (cp_warnings c))), (''notes'', JList (map JStr (cp_notes c)))]"

section \<open>Reading history and events\<close>

definition read_history :: "session_files \<Rightarrow> history_projection" where
  "read_history f =
     (case sf_history f of
        None \<Rightarrow> \<lparr>hp_path = history_path (sf_dir f), hp_exists = False, hp_tactic_count = 0, hp_has_qed = False,
                 hp_latest_tactic = [], hp_tactics = []\<rparr>
      | Some t \<Rightarrow>
          (let ls = read_committed_tactics (Some t) in
           \<lparr>hp_path = history_path (sf_dir f), hp_exists = True, hp_tactic_count = length ls,
            hp_has_qed = committed_tactics_have_qed ls, hp_latest_tactic = (if ls = [] then [] else last ls),
            hp_tactics = ls\<rparr>))"

fun pending_tool_from :: "(str \<times> json) list option \<Rightarrow> event list \<Rightarrow> (str \<times> json) list option" where
  "pending_tool_from pending [] = pending"
| "pending_tool_from pending (e # es) =
     pending_tool_from (if has_type e ''tool.called'' then Some (event_payload e)
                        else if has_type e ''tool.result'' then None else pending) es"

definition pending_tool_name :: "event list \<Rightarrow> str option" where
  "pending_tool_name events =
     (case pending_tool_from None events of
        None \<Rightarrow> None
      | Some p \<Rightarrow> (let name = str_or_empty (jget p ''name'') in if name = [] then None else Some name))"

fun read_log_lines :: "(str \<Rightarrow> str + json) \<Rightarrow> nat \<Rightarrow> str list \<Rightarrow> event list \<times> str list" where
  "read_log_lines json_loads lineno [] = ([], [])"
| "read_log_lines json_loads lineno (line # ls) =
     (let (events, errors) = read_log_lines json_loads (Suc lineno) ls;
          where_text = ''event log line '' @ int_str (int lineno)
      in if py_strip line = [] then (events, errors)
         else case json_loads (py_strip line) of
           Inl msg \<Rightarrow> (events, (where_text @ '': invalid JSON: '' @ msg) # errors)
         | Inr (JObj e) \<Rightarrow> (e # events, errors)
         | Inr _ \<Rightarrow> (events, (where_text @ '': event must be a JSON object'') # errors))"

definition events_path :: "str \<Rightarrow> str" where
  "events_path session_dir = session_dir @ ''/'' @ EVENTS_FILENAME"

definition read_events_strict :: "(str \<Rightarrow> str + json) \<Rightarrow> session_files \<Rightarrow> event list \<times> str list" where
  "read_events_strict json_loads f =
     (case sf_events f of
        None \<Rightarrow> ([], [''event log missing: '' @ events_path (sf_dir f)])
      | Some t \<Rightarrow> read_log_lines json_loads 1 (py_splitlines t))"

text \<open>Calls without a result, by tool name, each with its index and whether it mutates the proof state.\<close>

fun open_calls :: "nat \<Rightarrow> event list \<Rightarrow> (str \<times> (nat \<times> bool) list) list \<Rightarrow> (str \<times> (nat \<times> bool) list) list" where
  "open_calls idx [] calls = calls"
| "open_calls idx (e # es) calls =
     (let payload = event_payload e; name = str_or_empty (jget payload ''name'');
          stack = (case dict_get calls name of Some s \<Rightarrow> s | None \<Rightarrow> []);
          mutates = (case dict_get payload ''mutates_proof_state'' of None \<Rightarrow> True | Some v \<Rightarrow> py_truthy v)
      in open_calls (Suc idx) es
           (if has_type e ''tool.called'' then dict_set name (stack @ [(idx, mutates)]) calls
            else if has_type e ''tool.result'' \<and> stack \<noteq> [] then dict_set name (butlast stack) calls
            else calls))"

definition without_live_tool_called :: "event list \<Rightarrow> str option \<Rightarrow> event list" where
  "without_live_tool_called events live_tool_name =
     (case live_tool_name of
        None \<Rightarrow> events
      | Some live \<Rightarrow>
          if live = [] then events
          else let dropped = concat (map (\<lambda>(name, entries). map fst (filter (\<lambda>(idx, mutates). name = live \<or> \<not> mutates) entries))
                                (open_calls 0 events []))
               in map snd (filter (\<lambda>(i, e). i \<notin> set dropped) (List.enumerate 0 events)))"

definition build_event_projection :: "session_files \<Rightarrow> event list \<Rightarrow> str list \<Rightarrow> event_projection" where
  "build_event_projection f events json_errors =
     (let ex = (sf_events f \<noteq> None);
          issues = (if events = [] then [] else validate_event_stream events None);
          summary = summarize_events events;
          errors = json_errors @ map format_issue (issue_errors issues)
            @ (if events = [] \<and> ex then [''event stream is empty''] else [])
      in \<lparr>ep_event_log = events_path (sf_dir f), ep_exists = ex, ep_event_count = length events,
          ep_ok = (ex \<and> errors = []), ep_errors = errors, ep_warnings = map format_issue (issue_warnings issues),
          ep_event_counts = su_event_counts summary, ep_tactic_status_counts = su_tactic_status_counts summary,
          ep_candidate_closed = (0 < su_candidate_closed_count summary),
          ep_verification_status = su_verification_status summary,
          ep_latest_attempt = (case su_latest_attempt summary of None \<Rightarrow> [] | Some a \<Rightarrow> attempt_to_dict a),
          ep_recent_failed_attempts = map attempt_to_dict (take 5 (su_recent_failed_attempts summary))\<rparr>)"

section \<open>The latest transition\<close>

definition as_optional_int :: "json \<Rightarrow> int option" where
  "as_optional_int v = (case v of JInt n \<Rightarrow> if n = REMAINING_UNKNOWN then None else Some n | _ \<Rightarrow> None)"

definition is_qed_tactic :: "str \<Rightarrow> bool" where
  "is_qed_tactic tactic \<longleftrightarrow> py_strip (rstrip_dots (py_lower (py_strip tactic))) = ''qed''"

definition changed_history_by_undo :: "event \<Rightarrow> bool" where
  "changed_history_by_undo e \<longleftrightarrow>
     has_type e ''tactic.undone'' \<and> jget (event_payload e) ''status'' \<noteq> JStr ''unavailable''"

definition classify_transition_kind ::
  "str \<Rightarrow> str \<Rightarrow> int option \<Rightarrow> int option \<Rightarrow> bool \<Rightarrow> bool \<Rightarrow> bool option \<Rightarrow> str" where
  "classify_transition_kind tactic status goals_before goals_after candidate_closed no_progress history_committed =
     (if status = ''refused'' then ''refused''
      else if status = ''error'' then ''error''
      else if no_progress then ''no_progress''
      else if candidate_closed \<or> goals_after = Some 0 then ''closed''
      else if is_qed_tactic tactic \<and> status = ''ok'' then ''qed_saved''
      else case (goals_before, goals_after) of
        (Some before, Some after) \<Rightarrow>
          if before < after then ''decomposition''
          else if after < before then ''progress''
          else if history_committed = Some True then ''state_changed_same_goal_count''
          else ''unchanged''
      | _ \<Rightarrow> if history_committed = Some True then ''committed_unknown_effect'' else UNKNOWN)"

definition result_transition :: "(str \<times> json) list \<Rightarrow> transition_projection" where
  "result_transition r =
     (let status = py_str (py_or (jget r ''status'') (JStr UNKNOWN));
          tactic = str_or_empty (jget r ''tactic'');
          goals_before = as_optional_int (jget r ''goals_before'');
          goals_after = as_optional_int (jget r ''goals_after'');
          candidate_closed = py_truthy (jget r ''candidate_closed'');
          no_progress = (py_truthy (jget r ''no_progress'') \<or> status = ''no_progress_reverted'');
          history_committed = (case jget r ''history_committed'' of JBool b \<Rightarrow> Some b | _ \<Rightarrow> None)
      in \<lparr>tp_kind = classify_transition_kind tactic status goals_before goals_after candidate_closed no_progress history_committed,
          tp_tactic = tactic, tp_status = status, tp_goals_before = goals_before, tp_goals_after = goals_after,
          tp_candidate_closed = candidate_closed, tp_no_progress = no_progress,
          tp_no_progress_reason = str_or_empty (jget r ''no_progress_reason''), tp_history_committed = history_committed,
          tp_latest_error = str_or_empty (jget r ''latest_error'')\<rparr>)"

definition undo_transition :: "(str \<times> json) list \<Rightarrow> transition_projection" where
  "undo_transition u =
     no_transition\<lparr>tp_kind := ''undo'', tp_tactic := str_or_empty (jget u ''undone_tactic''),
       tp_status := str_or_empty (jget u ''status''), tp_goals_after := as_optional_int (jget u ''remaining_steps'')\<rparr>"

text \<open>A proof transition: a tactic result or an undo that changed the history.\<close>

definition semantic :: "event \<Rightarrow> bool" where
  "semantic e \<longleftrightarrow> has_type e ''tactic.result'' \<or> changed_history_by_undo e"

definition build_latest_transition :: "event list \<Rightarrow> transition_projection" where
  "build_latest_transition events =
     (case filter semantic (rev events) of
        [] \<Rightarrow> no_transition
      | e # _ \<Rightarrow> if has_type e ''tactic.result'' then result_transition (event_payload e) else undo_transition (event_payload e))"

section \<open>The authority of a close\<close>

definition paired_candidate_close :: "event list \<Rightarrow> nat \<Rightarrow> nat option" where
  "paired_candidate_close events i =
     (let r = events ! i; rp = event_payload r; close = events ! Suc i; cp = event_payload close in
      if \<not> has_type r ''tactic.result'' \<or> jget rp ''status'' \<noteq> JStr ''ok'' \<or> jget rp ''candidate_closed'' \<noteq> JBool True then None
      else if length events \<le> Suc i then None
      else if \<not> has_type close ''proof.candidate_closed'' then None
      else let result_tactic = py_strip (str_or_empty (jget rp ''tactic'')); close_tactic = py_strip (str_or_empty (jget cp ''tactic''))
           in if result_tactic = [] \<or> close_tactic = [] \<or> result_tactic \<noteq> close_tactic then None else Some (Suc i))"

definition candidate_close_authority :: "event list \<Rightarrow> nat \<Rightarrow> nat \<Rightarrow> nat \<Rightarrow> str \<Rightarrow> str + close_authority" where
  "candidate_close_authority events result_index close_index terminal_index kind =
     (let ident = (\<lambda>i. str_or_empty (jget (events ! i) ''event_id'')) in
      if ident result_index = [] \<or> ident close_index = [] \<or> ident terminal_index = [] then Inr no_authority
      else CandidateCloseAuthorityProjection
        \<lparr>ca_kind = kind, ca_close_result_event_id = ident result_index, ca_close_event_id = ident close_index,
         ca_terminal_event_id = ident terminal_index, ca_close_result_sequence = result_index + 1,
         ca_close_event_sequence = close_index + 1, ca_terminal_event_sequence = terminal_index + 1\<rparr>)"

definition semantic_indices :: "event list \<Rightarrow> nat list" where
  "semantic_indices events = filter (\<lambda>i. semantic (events ! i)) [0..<length events]"

definition undo_restored_close_authority ::
  "event list \<Rightarrow> nat list \<Rightarrow> nat \<Rightarrow> history_projection \<Rightarrow> nat \<Rightarrow> str + close_authority" where
  "undo_restored_close_authority events semantics undo_index history transaction_count =
     (let u = event_payload (events ! undo_index);
          undone_tactic = py_strip (str_or_empty (jget u ''undone_tactic''));
          prior = filter (\<lambda>i. i < undo_index) semantics;
          rejected_index = last prior;
          rejected = event_payload (events ! rejected_index);
          close_result_index = last (butlast prior)
      in if \<not> hp_has_qed history \<or> str_or_empty (jget u ''status'') \<noteq> ''ok'' then Inr no_authority
         else if undone_tactic = [] \<or> as_optional_int (jget u ''remaining_steps'') \<noteq> Some (int transaction_count)
         then Inr no_authority
         else if length prior < 2 then Inr no_authority
         else if \<not> has_type (events ! rejected_index) ''tactic.result'' \<or> str_or_empty (jget rejected ''status'') \<noteq> ''error''
           \<or> py_strip (str_or_empty (jget rejected ''tactic'')) \<noteq> undone_tactic
         then Inr no_authority
         else case paired_candidate_close events close_result_index of
           None \<Rightarrow> Inr no_authority
         | Some close_index \<Rightarrow>
             candidate_close_authority events close_result_index close_index undo_index ''undo_restored_close'')"

text \<open>\<open>transaction_count\<close> is the number of committed transactions of the session directory.\<close>

definition build_candidate_close_authority ::
  "event list \<Rightarrow> transition_projection \<Rightarrow> history_projection \<Rightarrow> nat \<Rightarrow> str + close_authority" where
  "build_candidate_close_authority events transition history transaction_count =
     (let semantics = semantic_indices events; latest = last semantics; prior = butlast semantics in
      if semantics = [] then Inr no_authority
      else if has_type (events ! latest) ''tactic.undone''
      then undo_restored_close_authority events semantics latest history transaction_count
      else if \<not> has_type (events ! latest) ''tactic.result'' then Inr no_authority
      else case (if tp_kind transition = ''closed'' then paired_candidate_close events latest else None) of
        Some close \<Rightarrow> candidate_close_authority events latest close latest ''direct_close''
      | None \<Rightarrow>
          if tp_kind transition \<noteq> ''qed_saved'' \<or> \<not> hp_has_qed history \<or> prior = [] then Inr no_authority
          else if \<not> has_type (events ! last prior) ''tactic.result'' then Inr no_authority
          else case paired_candidate_close events (last prior) of
            None \<Rightarrow> Inr no_authority
          | Some close \<Rightarrow> candidate_close_authority events (last prior) close latest ''post_qed_preserved_close'')"

section \<open>Goal, consistency and status\<close>

definition canonical_goal_hash_text :: "str \<Rightarrow> str" where
  "canonical_goal_hash_text raw = py_rstrip (re_sub PROMPT_LINE_RE [] raw)"

definition active_goal_hash_from_raw :: "(str \<Rightarrow> str) \<Rightarrow> str \<Rightarrow> str" where
  "active_goal_hash_from_raw sha1 raw =
     (let (active_goal, remaining) = extract_active_goal_block raw;
          canonical = canonical_goal_hash_text (if active_goal \<noteq> [] then active_goal else raw)
      in if remaining = 0 then [] else if py_strip canonical = [] then [] else sha1 canonical)"

definition preview :: "str \<Rightarrow> str" where
  "preview raw = (let t = py_strip raw in if length t \<le> 1200 then t else take 1200 t @ [newline] @ ''...'')"

definition build_goal_projection :: "(str \<Rightarrow> str) \<Rightarrow> session_state \<Rightarrow> str + goal_projection" where
  "build_goal_projection sha1 state =
     (let raw = raw_for_goal_tools state;
          closed = (sn_proof_candidate_closed state \<or> snd (extract_active_goal_block raw) = 0);
          determined = (closed \<or> sn_num_remaining state \<noteq> REMAINING_UNKNOWN);
          g = \<lparr>gp_has_current = False, gp_state_kind = ''no_current'', gp_goal_type = UNKNOWN, gp_num_remaining = None,
               gp_num_remaining_determined = False, gp_proof_candidate_closed = False, gp_active_goal_hash = [],
               gp_active_goal_preview = [], gp_fact_source = ''pretty_goal_text'',
               gp_authority = ''display_only_text_projection'', gp_authority_rank = 10\<rparr>
      in if \<not> sn_has_current state then GoalProjection g
         else GoalProjection (g\<lparr>gp_has_current := True,
           gp_state_kind := (if closed then ''candidate_closed'' else if \<not> determined then UNKNOWN else ''open''),
           gp_goal_type := (if closed then ''complete'' else UNKNOWN),
           gp_num_remaining := (if closed then Some 0 else if determined then Some (sn_num_remaining state) else None),
           gp_num_remaining_determined := determined, gp_proof_candidate_closed := closed,
           gp_active_goal_hash := active_goal_hash_from_raw sha1 raw, gp_active_goal_preview := preview raw\<rparr>))"

definition normalize_post_qed_goal_projection ::
  "goal_projection \<Rightarrow> history_projection \<Rightarrow> close_authority \<Rightarrow> transition_projection \<Rightarrow> bool \<Rightarrow> str + goal_projection" where
  "normalize_post_qed_goal_projection goal history authority transition event_contract_ok =
     (if \<not> (event_contract_ok \<and> hp_has_qed history \<and> authoritative authority
            \<and> tp_kind transition \<in> set [''qed_saved'', ''closed'', ''undo'']
            \<and> \<not> gp_proof_candidate_closed goal \<and> \<not> gp_num_remaining_determined goal)
      then Inr goal
      else GoalProjection (goal\<lparr>gp_state_kind := ''candidate_closed'', gp_goal_type := ''complete'',
        gp_num_remaining := Some 0, gp_num_remaining_determined := True, gp_proof_candidate_closed := True,
        gp_active_goal_hash := [],
        gp_active_goal_preview := ''No active goal: proof candidate was closed and '' @ backquoted ''qed.'' @ '' was saved.'',
        gp_fact_source := ''session_event_projection'', gp_authority := ''event_contract_projection'',
        gp_authority_rank := 80\<rparr>))"

definition build_consistency ::
  "session_state \<Rightarrow> history_projection \<Rightarrow> event_projection \<Rightarrow> close_authority \<Rightarrow> goal_projection \<Rightarrow> transition_projection \<Rightarrow> consistency_projection" where
  "build_consistency state history events authority goal transition =
     (let is_open = (sn_has_current state \<and> gp_num_remaining_determined goal \<and> \<not> gp_proof_candidate_closed goal);
          unclear = (sn_has_current state \<and> \<not> gp_num_remaining_determined goal \<and> \<not> gp_proof_candidate_closed goal);
          closed = authoritative authority;
          errors = (if hp_has_qed history \<and> is_open then [''history contains qed but current EC state is not closed''] else [])
            @ (if closed \<and> is_open then [''event log says candidate_closed but current EC state is open''] else []);
          notes = (if hp_has_qed history \<and> unclear then [''history contains qed and current EC state is indeterminate''] else [])
            @ (if closed \<and> unclear then [''event log says candidate_closed and current EC state is indeterminate''] else []);
          warnings =
            (if gp_proof_candidate_closed goal \<and> ep_exists events \<and> \<not> closed
             then [''current EC state is closed but event log has no candidate close''] else [])
            @ (if gp_proof_candidate_closed goal \<and> \<not> ep_exists events
               then [''current EC state is closed but event log is missing''] else [])
            @ (case (tp_goals_after transition, gp_num_remaining goal) of
                 (Some after, Some remaining) \<Rightarrow>
                   if gp_num_remaining_determined goal \<and> tp_kind transition \<noteq> ''undo'' \<and> after \<noteq> remaining
                   then [''latest tactic event goals_after differs from current EC state ('' @ int_str after @ '' != ''
                         @ int_str remaining @ '')''] else []
               | _ \<Rightarrow> [])
      in \<lparr>cp_ok = (errors = []), cp_errors = errors, cp_warnings = warnings, cp_notes = notes\<rparr>)"

definition project_status ::
  "goal_projection \<Rightarrow> transition_projection \<Rightarrow> history_projection \<Rightarrow> bool \<Rightarrow> bool \<Rightarrow> str" where
  "project_status goal transition history goals_discharged offline_verified =
     (if offline_verified then VERIFIED_STATUS
      else if goals_discharged
      then (if hp_has_qed history then SESSION_CLOSED_PENDING_VERIFICATION else GOALS_DISCHARGED_PENDING_QED)
      else if gp_proof_candidate_closed goal then CLOSED_UNTRUSTED
      else if \<not> gp_has_current goal then NO_CURRENT
      else if tp_latest_error transition \<noteq> [] \<and> tp_kind transition = ''error'' then ERROR
      else if gp_state_kind goal = UNKNOWN then UNKNOWN
      else OPEN)"

section \<open>The projection\<close>

record proof_state_projection =
  ps_session_dir :: str
  ps_status :: str
  ps_goals_discharged :: bool
  ps_offline_verified :: bool
  ps_history :: history_projection
  ps_events :: event_projection
  ps_authority :: close_authority
  ps_goal :: goal_projection
  ps_transition :: transition_projection
  ps_consistency :: consistency_projection
  ps_active_goal_text :: str
  ps_source_events :: "event list"

definition goal_identity_required :: "proof_state_projection \<Rightarrow> bool" where
  "goal_identity_required p \<longleftrightarrow> \<not> gp_proof_candidate_closed (ps_goal p)"

definition qed_committed :: "proof_state_projection \<Rightarrow> bool" where
  "qed_committed p \<longleftrightarrow> ps_goals_discharged p \<and> hp_has_qed (ps_history p)"

definition session_completion_candidate :: "proof_state_projection \<Rightarrow> bool" where
  "session_completion_candidate p \<longleftrightarrow> qed_committed p \<and> is_session_completion_candidate (ps_status p)"

definition projection_to_dict :: "bool \<Rightarrow> proof_state_projection \<Rightarrow> (str \<times> json) list" where
  "projection_to_dict include_raw p =
     [(''session_dir'', JStr (ps_session_dir p)), (''status'', JStr (ps_status p)),
      (''goals_discharged'', JBool (ps_goals_discharged p)), (''offline_verified'', JBool (ps_offline_verified p)),
      (''history'', JObj (history_to_dict (ps_history p))), (''events'', JObj (event_projection_to_dict (ps_events p))),
      (''candidate_close_authority'', JObj (authority_to_dict (ps_authority p))),
      (''goal'', JObj (goal_to_dict include_raw (ps_active_goal_text p) (ps_goal p))),
      (''latest_transition'', JObj (transition_to_dict (ps_transition p))),
      (''consistency'', JObj (consistency_to_dict (ps_consistency p)))]"

definition project_parts ::
  "(str \<Rightarrow> str) \<Rightarrow> str \<Rightarrow> session_files \<Rightarrow> session_state \<Rightarrow> event list \<Rightarrow> event list \<Rightarrow> str list \<Rightarrow> str + proof_state_projection" where
  "project_parts sha1 resolved_dir f state events contract_events json_errors =
     (let history = read_history f;
          event_proj = build_event_projection f contract_events json_errors;
          transition = build_latest_transition contract_events;
          transaction_count = length (read_committed_transactions (sf_history f) (sf_ledger f))
      in case build_candidate_close_authority contract_events transition history transaction_count of
           Inl e \<Rightarrow> Inl e
         | Inr authority \<Rightarrow> (case build_goal_projection sha1 state of
           Inl e \<Rightarrow> Inl e
         | Inr goal0 \<Rightarrow> (case normalize_post_qed_goal_projection goal0 history authority transition (ep_ok event_proj) of
           Inl e \<Rightarrow> Inl e
         | Inr goal \<Rightarrow>
             (let consistency = build_consistency state history event_proj authority goal transition;
                  discharged = (ep_ok event_proj \<and> authoritative authority \<and> cp_ok consistency);
                  verified = (discharged \<and> ep_verification_status event_proj = JStr ''pass'')
              in Inr \<lparr>ps_session_dir = resolved_dir,
                      ps_status = project_status goal transition history discharged verified,
                      ps_goals_discharged = discharged, ps_offline_verified = verified, ps_history = history,
                      ps_events = event_proj, ps_authority = authority, ps_goal = goal, ps_transition = transition,
                      ps_consistency = consistency, ps_active_goal_text = raw_for_goal_tools state,
                      ps_source_events = events\<rparr>))))"

definition read_proof_state_projection ::
  "(str \<Rightarrow> str) \<Rightarrow> (str \<Rightarrow> str + json) \<Rightarrow> (str \<Rightarrow> str) \<Rightarrow> session_files \<Rightarrow> str option \<Rightarrow> bool \<Rightarrow> str + proof_state_projection" where
  "read_proof_state_projection sha1 json_loads resolve f live_tool_name infer_live_tool_name =
     (let state = read_session_state (sf_current f) (sf_previous f) (sf_meta f) None;
          (events, json_errors) = read_events_strict json_loads f;
          live = (if live_tool_name = None \<and> infer_live_tool_name then pending_tool_name events else live_tool_name)
      in project_parts sha1 (resolve (sf_dir f)) f state events (without_live_tool_called events live) json_errors)"

definition projection_to_proof_status :: "proof_state_projection \<Rightarrow> (str \<times> json) list" where
  "projection_to_proof_status p =
     (let g = ps_goal p; h = ps_history p; e = ps_events p; c = ps_consistency p in
      [(''status'', JStr (ps_status p)), (''goals_discharged'', JBool (ps_goals_discharged p)),
       (''qed_committed'', JBool (qed_committed p)), (''offline_verified'', JBool (ps_offline_verified p)),
       (''goal_identity_required'', JBool (goal_identity_required p)),
       (''goal'', JObj
          [(''state_kind'', JStr (gp_state_kind g)), (''goal_type'', JStr (gp_goal_type g)),
           (''num_remaining'', optional_int (gp_num_remaining g)),
           (''num_remaining_determined'', JBool (gp_num_remaining_determined g)),
           (''proof_candidate_closed'', JBool (gp_proof_candidate_closed g)),
           (''active_goal_hash'', JStr (gp_active_goal_hash g)), (''fact_source'', JStr (gp_fact_source g)),
           (''authority'', JStr (gp_authority g)), (''authority_rank'', JInt (gp_authority_rank g))]),
       (''history'', JObj [(''tactic_count'', JInt (int (hp_tactic_count h))), (''has_qed'', JBool (hp_has_qed h)),
           (''latest_tactic'', JStr (hp_latest_tactic h))]),
       (''candidate_close_authority'', JObj (authority_to_dict (ps_authority p))),
       (''latest_transition'', JObj (transition_to_dict (ps_transition p))),
       (''event_contract'', JObj
          [(''ok'', JBool (ep_ok e)), (''exists'', JBool (ep_exists e)), (''event_count'', JInt (int (ep_event_count e))),
           (''candidate_closed'', JBool (ep_candidate_closed e)), (''verification_status'', ep_verification_status e),
           (''error_count'', JInt (int (length (ep_errors e)))), (''warning_count'', JInt (int (length (ep_warnings e)))),
           (''latest_attempt'', JObj (ep_latest_attempt e)),
           (''recent_failed_attempts'', JList (map JObj (take 5 (ep_recent_failed_attempts e)))),
           (''errors'', JList (map JStr (take 3 (ep_errors e)))), (''warnings'', JList (map JStr (take 3 (ep_warnings e))))]),
       (''consistency'', JObj
          [(''ok'', JBool (cp_ok c)), (''error_count'', JInt (int (length (cp_errors c)))),
           (''warning_count'', JInt (int (length (cp_warnings c)))), (''note_count'', JInt (int (length (cp_notes c)))),
           (''errors'', JList (map JStr (take 3 (cp_errors c)))), (''warnings'', JList (map JStr (take 3 (cp_warnings c)))),
           (''notes'', JList (map JStr (take 3 (cp_notes c))))])])"

text \<open>The fields the acceptance gates read, and the reader the gates call: a strict read of the
  directory, with no live tool.\<close>

definition gate_view :: "proof_state_projection \<Rightarrow> proof_projection" where
  "gate_view p =
     \<lparr>pp_goals_discharged = ps_goals_discharged p, pp_session_completion_candidate = session_completion_candidate p,
      pp_qed_committed = qed_committed p, pp_offline_verified = ps_offline_verified p,
      pp_event_log = ep_event_log (ps_events p), pp_event_log_exists = ep_exists (ps_events p),
      pp_verification_status = ep_verification_status (ps_events p),
      pp_event_errors = ep_errors (ps_events p), pp_consistency_errors = cp_errors (ps_consistency p),
      pp_event_warnings = ep_warnings (ps_events p), pp_consistency_warnings = cp_warnings (ps_consistency p),
      pp_close_result_event_id = ca_close_result_event_id (ps_authority p),
      pp_close_event_id = ca_close_event_id (ps_authority p), pp_terminal_event_id = ca_terminal_event_id (ps_authority p)\<rparr>"

definition gate_read ::
  "(str \<Rightarrow> str) \<Rightarrow> (str \<Rightarrow> str + json) \<Rightarrow> file_world \<Rightarrow> (str \<Rightarrow> session_files) \<Rightarrow> str \<Rightarrow> str + proof_projection" where
  "gate_read sha1 json_loads fw files path =
     map_sum id gate_view (read_proof_state_projection sha1 json_loads (fw_resolve fw) (files path) None False)"

section \<open>What an authority means\<close>

lemma semantic_indices_nth: "i \<in> set (semantic_indices events) \<longleftrightarrow> i < length events \<and> semantic (events ! i)"
  by (auto simp: semantic_indices_def)

lemma semantic_indices_sorted: "sorted_wrt (<) (semantic_indices events)"
  by (simp add: semantic_indices_def sorted_wrt_filter)

lemma sorted_butlast_less: "sorted_wrt (<) (xs :: nat list) \<Longrightarrow> i \<in> set (butlast xs) \<Longrightarrow> i < last xs"
  by (induction xs rule: rev_induct) (auto simp: sorted_wrt_append)

lemma paired_close_Some:
  "paired_candidate_close events i = Some j \<longleftrightarrow>
     j = Suc i \<and> Suc i < length events
     \<and> has_type (events ! i) ''tactic.result'' \<and> jget (event_payload (events ! i)) ''status'' = JStr ''ok''
     \<and> jget (event_payload (events ! i)) ''candidate_closed'' = JBool True
     \<and> has_type (events ! Suc i) ''proof.candidate_closed''
     \<and> py_strip (str_or_empty (jget (event_payload (events ! i)) ''tactic'')) \<noteq> []
     \<and> py_strip (str_or_empty (jget (event_payload (events ! Suc i)) ''tactic''))
         = py_strip (str_or_empty (jget (event_payload (events ! i)) ''tactic''))"
  by (auto simp: paired_candidate_close_def Let_def not_le)

text \<open>The events at \<open>i\<close> and \<open>i + 1\<close> close the candidate: an accepted closing result and the close event
  of the same tactic.\<close>

definition closed_at :: "event list \<Rightarrow> nat \<Rightarrow> bool" where
  "closed_at events i \<longleftrightarrow> paired_candidate_close events i = Some (Suc i)"

definition last_transition_at :: "event list \<Rightarrow> nat \<Rightarrow> bool" where
  "last_transition_at events t \<longleftrightarrow>
     t < length events \<and> semantic (events ! t) \<and> (\<forall>k < length events. semantic (events ! k) \<longrightarrow> k \<le> t)"

text \<open>Between the close at \<open>i\<close> and the last transition \<open>t\<close> there is no transition (\<open>t\<close> is the saved
  \<open>qed\<close>), or one: a rejected tactic that \<open>t\<close> undoes.\<close>

definition preserved_until :: "event list \<Rightarrow> nat \<Rightarrow> nat \<Rightarrow> bool" where
  "preserved_until events i t \<longleftrightarrow>
     Suc i < t
     \<and> ((\<forall>k. i < k \<and> k < t \<longrightarrow> \<not> semantic (events ! k)) \<and> has_type (events ! t) ''tactic.result''
        \<or> (\<exists>r. i < r \<and> r < t \<and> (\<forall>k. i < k \<and> k < t \<and> semantic (events ! k) \<longrightarrow> k = r)
             \<and> has_type (events ! r) ''tactic.result''
             \<and> str_or_empty (jget (event_payload (events ! r)) ''status'') = ''error''
             \<and> has_type (events ! t) ''tactic.undone''
             \<and> py_strip (str_or_empty (jget (event_payload (events ! t)) ''undone_tactic''))
                 = py_strip (str_or_empty (jget (event_payload (events ! r)) ''tactic''))))"

lemma paired_close_Suc: "paired_candidate_close events i = Some j \<Longrightarrow> j = Suc i \<and> closed_at events i"
  by (simp add: closed_at_def paired_close_Some)

lemma close_event_not_semantic: "closed_at events i \<Longrightarrow> \<not> semantic (events ! Suc i)"
  by (auto simp: closed_at_def paired_close_Some semantic_def changed_history_by_undo_def)

lemma last_transition_last:
  "semantic_indices events \<noteq> [] \<Longrightarrow> last_transition_at events (last (semantic_indices events))"
proof -
  assume ne: "semantic_indices events \<noteq> []"
  have "k \<le> last (semantic_indices events)" if "k < length events" "semantic (events ! k)" for k
  proof -
    have "k \<in> set (butlast (semantic_indices events) @ [last (semantic_indices events)])"
      using that ne by (simp add: semantic_indices_nth)
    then show ?thesis using sorted_butlast_less [OF semantic_indices_sorted] by (auto intro: less_imp_le)
  qed
  with last_in_set [OF ne] show ?thesis by (auto simp: last_transition_at_def semantic_indices_nth)
qed

text \<open>No transition lies between two neighbours of the list of transitions.\<close>

lemma semantic_gap:
  assumes "semantic_indices events = pre @ a # b # post" "a < k" "k < b"
  shows "\<not> semantic (events ! k)"
proof
  assume s: "semantic (events ! k)"
  have sorted: "sorted_wrt (<) (pre @ a # b # post)" using semantic_indices_sorted [of events] assms(1) by simp
  have "b < length events" using assms(1) semantic_indices_nth [of b events] by simp
  then have "k \<in> set (pre @ a # b # post)" using s assms semantic_indices_nth [of k events] by simp
  with sorted assms(2,3) show False by (fastforce simp: sorted_wrt_append)
qed

lemma candidate_close_authority_cases:
  assumes closed: "closed_at events i"
    and kind: "(kind = ''direct_close'' \<and> t = i) \<or> (kind \<in> {''post_qed_preserved_close'', ''undo_restored_close''} \<and> Suc i < t)"
  shows "\<exists>a. candidate_close_authority events i (Suc i) t kind = Inr a
    \<and> (a = no_authority \<or>
        (authoritative a \<and> ca_close_result_sequence a = i + 1 \<and> ca_close_event_sequence a = i + 2
         \<and> ca_terminal_event_sequence a = t + 1))"
  using kind by (auto simp: candidate_close_authority_def Let_def CandidateCloseAuthorityProjection_def
      AUTHORITATIVE_KINDS_def authoritative_def)

definition sound_authority :: "event list \<Rightarrow> history_projection \<Rightarrow> close_authority \<Rightarrow> bool" where
  "sound_authority events history a \<longleftrightarrow>
     a = no_authority
     \<or> (\<exists>i t. authoritative a \<and> ca_close_result_sequence a = i + 1 \<and> ca_close_event_sequence a = i + 2
          \<and> ca_terminal_event_sequence a = t + 1 \<and> closed_at events i \<and> last_transition_at events t
          \<and> (t = i \<or> (hp_has_qed history \<and> preserved_until events i t)))"

lemma no_authority_sound [simp]: "sound_authority events history no_authority"
  by (simp add: sound_authority_def)

lemma filter_before_last: "sorted_wrt (<) (xs :: nat list) \<Longrightarrow> filter (\<lambda>i. i < last xs) xs = butlast xs"
  by (induction xs rule: rev_induct) (auto simp: sorted_wrt_append)

lemma two_last: "2 \<le> length xs \<Longrightarrow> \<exists>pre. xs = pre @ [last (butlast xs), last xs]"
proof (cases xs rule: rev_cases)
  case (snoc ys y)
  assume "2 \<le> length xs"
  with snoc have "ys \<noteq> []" by auto
  then obtain zs z where "ys = zs @ [z]" by (cases ys rule: rev_cases) auto
  with snoc show ?thesis by (simp add: butlast_append)
qed simp

lemma direct_close_sound:
  assumes "semantic_indices events \<noteq> []" "i = last (semantic_indices events)" "closed_at events i"
  shows "\<exists>a. candidate_close_authority events i (Suc i) i ''direct_close'' = Inr a \<and> sound_authority events history a"
  using candidate_close_authority_cases [OF assms(3), of "''direct_close''" i] last_transition_last [OF assms(1)] assms(2,3)
  unfolding sound_authority_def by blast

lemma preserved_close_sound:
  assumes "semantic_indices events \<noteq> []" "t = last (semantic_indices events)" "closed_at events i"
    "hp_has_qed history" "preserved_until events i t" "kind \<in> {''post_qed_preserved_close'', ''undo_restored_close''}"
  shows "\<exists>a. candidate_close_authority events i (Suc i) t kind = Inr a \<and> sound_authority events history a"
proof -
  have "Suc i < t" using assms(5) by (simp add: preserved_until_def)
  with candidate_close_authority_cases [OF assms(3), of kind t] last_transition_last [OF assms(1)] assms(2-6)
  show ?thesis unfolding sound_authority_def by blast
qed

lemma undo_restored_sound:
  assumes ne: "semantic_indices events \<noteq> []" and t: "t = last (semantic_indices events)"
    and undone: "has_type (events ! t) ''tactic.undone''"
  shows "\<exists>a. undo_restored_close_authority events (semantic_indices events) t history n = Inr a
    \<and> sound_authority events history a"
proof (cases "undo_restored_close_authority events (semantic_indices events) t history n = Inr no_authority")
  case False
  define prior where "prior = butlast (semantic_indices events)"
  define r where "r = last prior"
  define i where "i = last (butlast prior)"
  have prior: "filter (\<lambda>i. i < t) (semantic_indices events) = prior"
    unfolding t prior_def by (rule filter_before_last [OF semantic_indices_sorted])
  have *: "hp_has_qed history" "2 \<le> length prior" "has_type (events ! r) ''tactic.result''"
    "str_or_empty (jget (event_payload (events ! r)) ''status'') = ''error''"
    "py_strip (str_or_empty (jget (event_payload (events ! r)) ''tactic''))
       = py_strip (str_or_empty (jget (event_payload (events ! t)) ''undone_tactic''))"
    "paired_candidate_close events i \<noteq> None"
    using False unfolding undo_restored_close_authority_def Let_def prior r_def [symmetric] i_def [symmetric]
    by (auto split: if_splits option.splits)
  then have closed: "closed_at events i" "paired_candidate_close events i = Some (Suc i)"
    using paired_close_Suc by (auto simp: closed_at_def)
  have call: "undo_restored_close_authority events (semantic_indices events) t history n
      = candidate_close_authority events i (Suc i) t ''undo_restored_close''"
    using False unfolding undo_restored_close_authority_def Let_def prior r_def [symmetric] i_def [symmetric]
    by (auto simp: closed(2) split: if_splits)
  obtain pre where "prior = pre @ [i, r]" using two_last [OF *(2)] by (auto simp: i_def r_def)
  then have S: "semantic_indices events = pre @ [i, r, t]"
    using ne t append_butlast_last_id [OF ne] by (simp add: prior_def)
  then have less: "i < r" "r < t" using semantic_indices_sorted [of events] by (auto simp: sorted_wrt_append)
  have "k = r" if "i < k \<and> k < t \<and> semantic (events ! k)" for k
    using semantic_gap [of events pre i r "[t]" k] semantic_gap [of events "pre @ [i]" r t "[]" k] S that
    by (cases k r rule: linorder_cases) auto
  then have "preserved_until events i t"
    unfolding preserved_until_def using less *(3,4,5) undone by (auto intro!: exI [of _ r])
  from preserved_close_sound [OF ne t closed(1) *(1) this] call show ?thesis by simp
qed auto

lemma qed_preserves_close:
  assumes "butlast (semantic_indices events) \<noteq> []" "has_type (events ! last (semantic_indices events)) ''tactic.result''"
    "closed_at events (last (butlast (semantic_indices events)))"
  shows "preserved_until events (last (butlast (semantic_indices events))) (last (semantic_indices events))"
proof -
  define S where "S = semantic_indices events"
  define t where "t = last S"
  define i where "i = last (butlast S)"
  have "2 \<le> length S" using assms(1) by (cases S rule: rev_cases) (auto simp: Suc_le_eq S_def [symmetric])
  then obtain pre where pre: "S = pre @ [i, t]" using two_last by (auto simp: i_def t_def)
  then have "i < t" "semantic (events ! t)"
    using semantic_indices_sorted [of events] semantic_indices_nth [of t events] by (auto simp: S_def [symmetric] sorted_wrt_append)
  moreover have "Suc i \<noteq> t" using close_event_not_semantic [OF assms(3)] \<open>semantic (events ! t)\<close> by (auto simp: i_def S_def)
  moreover have "has_type (events ! t) ''tactic.result''" using assms(2) by (simp only: t_def S_def)
  ultimately have "preserved_until events i t"
    using semantic_gap [of events pre i t "[]"] pre by (auto simp: preserved_until_def S_def)
  then show ?thesis by (simp only: i_def t_def S_def)
qed

lemma build_authority_sound:
  "\<exists>a. build_candidate_close_authority events transition history n = Inr a \<and> sound_authority events history a"
proof (cases "semantic_indices events = []")
  case True
  then show ?thesis by (simp add: build_candidate_close_authority_def Let_def)
next
  case ne: False
  define S where "S = semantic_indices events"
  define t where "t = last S"
  have neS: "S \<noteq> []" and sem: "semantic (events ! t)"
    using ne last_transition_last [OF ne] by (auto simp: S_def t_def last_transition_at_def)
  show ?thesis
  proof (cases "has_type (events ! t) ''tactic.result''")
    case False
    then have "has_type (events ! t) ''tactic.undone''" using sem by (simp add: semantic_def changed_history_by_undo_def)
    with undo_restored_sound [OF ne t_def [unfolded S_def] this, of history n] show ?thesis
      by (simp add: build_candidate_close_authority_def Let_def neS S_def [symmetric] t_def [symmetric])
  next
    case result: True
    then have nu: "\<not> has_type (events ! t) ''tactic.undone''" by simp
    note unfold = build_candidate_close_authority_def Let_def S_def [symmetric] t_def [symmetric]
    show ?thesis
    proof (cases "tp_kind transition = ''closed'' \<and> paired_candidate_close events t \<noteq> None")
      case True
      then obtain c where "paired_candidate_close events t = Some c" by blast
      then have c: "paired_candidate_close events t = Some (Suc t)" "closed_at events t" using paired_close_Suc by (auto simp: closed_at_def)
      with True direct_close_sound [OF ne t_def [unfolded S_def] c(2)] show ?thesis
        by (simp add: unfold neS nu result)
    next
      case nd: False
      then have none: "(if tp_kind transition = ''closed'' then paired_candidate_close events t else None) = None" by auto
      have build: "build_candidate_close_authority events transition history n =
          (if tp_kind transition \<noteq> ''qed_saved'' \<or> \<not> hp_has_qed history \<or> butlast S = [] then Inr no_authority
           else if \<not> has_type (events ! last (butlast S)) ''tactic.result'' then Inr no_authority
           else case paired_candidate_close events (last (butlast S)) of
             None \<Rightarrow> Inr no_authority
           | Some close \<Rightarrow> candidate_close_authority events (last (butlast S)) close t ''post_qed_preserved_close'')"
        unfolding unfold none using neS nu result by simp
      show ?thesis
      proof (cases "tp_kind transition = ''qed_saved'' \<and> hp_has_qed history \<and> butlast S \<noteq> []
          \<and> paired_candidate_close events (last (butlast S)) \<noteq> None")
        case True
        define i where "i = last (butlast S)"
        have ne2: "butlast S \<noteq> []" and closed: "closed_at events i"
          using True paired_close_Suc [of events i] by (auto simp: i_def)
        note q = qed_preserves_close [OF ne2 [unfolded S_def] result [unfolded t_def S_def] closed [unfolded i_def S_def]]
        have c: "paired_candidate_close events i = Some (Suc i)" "has_type (events ! i) ''tactic.result''"
          using closed by (simp_all add: closed_at_def paired_close_Some)
        from preserved_close_sound [OF ne t_def [unfolded S_def] closed _ q [folded S_def, folded i_def t_def], of history
            "''post_qed_preserved_close''"] True show ?thesis
          by (simp add: build i_def [symmetric] c)
      next
        case False
        then have "build_candidate_close_authority events transition history n = Inr no_authority"
          unfolding build by (auto split: option.split)
        then show ?thesis by simp
      qed
    qed
  qed
qed

section \<open>What a discharged projection means\<close>

text \<open>EasyCrypt's own output does not contradict the close: there is no current output, it shows a closed
  state, or it shows no goal count.\<close>

definition output_not_open :: "session_state \<Rightarrow> bool" where
  "output_not_open state \<longleftrightarrow>
     \<not> sn_has_current state \<or> sn_proof_candidate_closed state
     \<or> snd (extract_active_goal_block (raw_for_goal_tools state)) = 0 \<or> sn_num_remaining state = REMAINING_UNKNOWN"

definition proof_closed_by :: "event list \<Rightarrow> history_projection \<Rightarrow> bool" where
  "proof_closed_by events history \<longleftrightarrow>
     (\<exists>i t. closed_at events i \<and> last_transition_at events t
        \<and> (t = i \<or> (hp_has_qed history \<and> preserved_until events i t)))"

lemma authoritative_closed:
  "sound_authority events history a \<Longrightarrow> authoritative a \<Longrightarrow> proof_closed_by events history"
  by (auto simp: sound_authority_def proof_closed_by_def no_authority_def authoritative_def AUTHORITATIVE_KINDS_def)

lemma event_projection_ok:
  "ep_ok (build_event_projection f events errors) \<longleftrightarrow>
     sf_events f \<noteq> None \<and> errors = [] \<and> events \<noteq> [] \<and> issue_errors (validate_event_stream events None) = []"
  by (auto simp: build_event_projection_def Let_def)

lemma event_projection_verification [simp]:
  "ep_verification_status (build_event_projection f events errors) = su_verification_status (summarize_events events)"
  by (simp add: build_event_projection_def Let_def)

lemma goal_open_kept:
  assumes "build_goal_projection sha1 state = Inr goal0" "\<not> output_not_open state"
    and "normalize_post_qed_goal_projection goal0 history authority transition ok = Inr goal"
  shows "sn_has_current state \<and> gp_num_remaining_determined goal \<and> \<not> gp_proof_candidate_closed goal"
proof -
  have "gp_num_remaining_determined goal0 \<and> \<not> gp_proof_candidate_closed goal0 \<and> sn_has_current state"
    using assms(1,2) by (auto simp: build_goal_projection_def Let_def GoalProjection_def output_not_open_def split: if_splits)
  with assms(3) show ?thesis by (auto simp: normalize_post_qed_goal_projection_def split: if_splits)
qed

lemma consistency_ok:
  "cp_ok (build_consistency state history events authority goal transition) \<longleftrightarrow>
     \<not> (sn_has_current state \<and> gp_num_remaining_determined goal \<and> \<not> gp_proof_candidate_closed goal
        \<and> (hp_has_qed history \<or> authoritative authority))"
  by (simp add: build_consistency_def Let_def) blast

lemma discharged_facts:
  assumes parts: "project_parts sha1 dir f state evs events errors = Inr p" and discharged: "ps_goals_discharged p"
  shows "sf_events f \<noteq> None \<and> errors = [] \<and> events \<noteq> [] \<and> issue_errors (validate_event_stream events None) = []"
    "proof_closed_by events (read_history f)" "output_not_open state" "ps_history p = read_history f"
    "ps_offline_verified p \<Longrightarrow> su_verification_status (summarize_events events) = JStr ''pass''"
proof -
  let ?ep = "build_event_projection f events errors" and ?tr = "build_latest_transition events" and ?h = "read_history f"
    and ?n = "length (read_committed_transactions (sf_history f) (sf_ledger f))"
  obtain authority where a: "build_candidate_close_authority events ?tr ?h ?n = Inr authority"
    using build_authority_sound by blast
  obtain goal0 where g0: "build_goal_projection sha1 state = Inr goal0"
    using parts by (cases "build_goal_projection sha1 state") (simp_all add: project_parts_def Let_def a)
  obtain goal where g: "normalize_post_qed_goal_projection goal0 ?h authority ?tr (ep_ok ?ep) = Inr goal"
    using parts by (cases "normalize_post_qed_goal_projection goal0 ?h authority ?tr (ep_ok ?ep)")
      (simp_all add: project_parts_def Let_def a g0)
  have p: "ps_goals_discharged p = (ep_ok ?ep \<and> authoritative authority
        \<and> cp_ok (build_consistency state ?h ?ep authority goal ?tr))"
      "ps_history p = ?h" "ps_offline_verified p \<longrightarrow> su_verification_status (summarize_events events) = JStr ''pass''"
    using parts by (simp_all add: project_parts_def Let_def a g0 g) (blast | force)+
  show "sf_events f \<noteq> None \<and> errors = [] \<and> events \<noteq> [] \<and> issue_errors (validate_event_stream events None) = []"
    using p(1) discharged by (simp add: event_projection_ok)
  show "proof_closed_by events ?h"
    using authoritative_closed build_authority_sound [of events ?tr ?h ?n] a p(1) discharged by auto
  show "output_not_open state"
    using goal_open_kept [OF g0 _ g] p(1) discharged unfolding consistency_ok by blast
  show "ps_history p = ?h" by (rule p(2))
  show "su_verification_status (summarize_events events) = JStr ''pass''" if "ps_offline_verified p" using p(3) that by simp
qed

section \<open>Properties\<close>

text \<open>C11. The close authority is always constructible and always refers to the current proof: for any event
  stream and history no constructor check raises, and an authority other than the absent one names two
  adjacent events, an accepted closing result and the close event of the same tactic, together with the
  last proof transition of the stream, which is that result itself, a tactic result with no transition in
  between, or an undo of the single rejected tactic in between, the latter two only when the history has
  a closing \<open>qed\<close>.\<close>

theorem close_authority_typed:
  "\<exists>a. build_candidate_close_authority events transition history n = Inr a \<and> sound_authority events history a"
  by (rule build_authority_sound)


text \<open>A small finished session.\<close>

definition sample_event :: "str \<Rightarrow> str \<Rightarrow> (str \<times> json) list \<Rightarrow> event" where
  "sample_event event_id event_type payload = make_event event_id ''t'' ''/s'' event_type payload ''session_cli''"

definition sample_json_loads :: "str \<Rightarrow> str + json" where
  "sample_json_loads line =
     (if line = ''1'' then Inr (JObj (sample_event ''e1'' ''session.started''
          [(''file'', JNull), (''lemma'', JNull), (''include_dirs'', JList []), (''discarded_tactic_count'', JInt 0), (''restart_count'', JInt 0)]))
      else if line = ''2'' then Inr (JObj (sample_event ''e2'' ''tactic.submitted''
          [(''tactic'', JStr ''by smt.''), (''history_lines_before'', JInt 0), (''line_count'', JInt 1)]))
      else if line = ''3'' then Inr (JObj (sample_event ''e3'' ''tactic.result''
          [(''tactic'', JStr ''by smt.''), (''status'', JStr ''ok''), (''history_committed'', JBool True), (''candidate_closed'', JBool True)]))
      else if line = ''4'' then Inr (JObj (sample_event ''e4'' ''proof.candidate_closed''
          [(''tactic'', JStr ''by smt.''), (''goals_before'', JInt 1), (''goals_after'', JInt 0), (''no_more_goals'', JBool True), (''async_check_close'', JBool False)]))
      else if line = ''5'' then Inr (JObj (sample_event ''e5'' ''verification.completed''
          [(''lemma'', JNull), (''status'', JStr ''pass''), (''verifier'', JStr ''v'')]))
      else Inl ''Expecting value'')"

definition sample_files :: session_files where
  "sample_files = \<lparr>sf_dir = ''/s'', sf_current = None, sf_previous = None, sf_meta = NoMeta,
     sf_events = Some (py_join [newline] [''1'', ''2'', ''3'', ''4'', ''5'']), sf_history = Some ''qed.'', sf_ledger = No_Ledger\<rparr>"

definition sample_fw :: file_world where
  "sample_fw = \<lparr>fw_expand = (\<lambda>p. p), fw_resolve = (\<lambda>p. p), fw_exists = (\<lambda>p. True), fw_sha256 = (\<lambda>p. None)\<rparr>"


text \<open>The verification a projection reports is the latest of the stream, also when the proof was undone and
  closed again after it: this session has no verification after its last close and is accepted.\<close>

definition reopened_json_loads :: "str \<Rightarrow> str + json" where
  "reopened_json_loads line =
     (if line = ''6'' then Inr (JObj (sample_event ''e6'' ''tactic.undone''
          [(''status'', JStr ''ok''), (''undone_tactic'', JStr ''by smt.''), (''remaining_steps'', JInt 0)]))
      else if line = ''7'' then Inr (JObj (sample_event ''e7'' ''tactic.submitted''
          [(''tactic'', JStr ''by auto.''), (''history_lines_before'', JInt 0), (''line_count'', JInt 1)]))
      else if line = ''8'' then Inr (JObj (sample_event ''e8'' ''tactic.result''
          [(''tactic'', JStr ''by auto.''), (''status'', JStr ''ok''), (''history_committed'', JBool True), (''candidate_closed'', JBool True)]))
      else if line = ''9'' then Inr (JObj (sample_event ''e9'' ''proof.candidate_closed''
          [(''tactic'', JStr ''by auto.''), (''goals_before'', JInt 1), (''goals_after'', JInt 0), (''no_more_goals'', JBool True), (''async_check_close'', JBool False)]))
      else sample_json_loads line)"

definition reopened_files :: session_files where
  "reopened_files = sample_files\<lparr>sf_events := Some (py_join [newline] [''1'', ''2'', ''3'', ''4'', ''5'', ''6'', ''7'', ''8'', ''9''])\<rparr>"

lemma verification_before_last_close_accepted:
  "eg_ok (validate_acceptance_event_contract sample_fw (gate_read (\<lambda>t. t) reopened_json_loads sample_fw (\<lambda>d. reopened_files)) (Some ''/s''))"
  by code_simp

end
