(* ===== verification/Event_Normalizers.thy ===== *)
theory Event_Normalizers
  imports Event_Guard Py_Json
begin

text \<open>
  The interface between provider streams and the lifecycle guard, and its Claude instance
  (\<^verbatim>\<open>src/workflow/provider/claude_event_normalizer.py\<close>). A raw record is a text line or a value
  that is decoded already; \<open>json_loads\<close> decodes a text (\<open>Inl\<close> is the message of the
  \<open>JSONDecodeError\<close>), and every statement holds for every decoder. The arguments of a tool call,
  which no method of the guard reads, are left out of the events. The locale \<open>event_normalizer\<close> is what the
  guard relies on: every event carries the identity of the invocation and no violation is blank.
\<close>

section \<open>Raw records and results\<close>

datatype raw_record = RawText str | RawValue json

type_synonym normalization = "guard_error + (agent_event list \<times> str list)"

definition base_event :: "str \<Rightarrow> str \<Rightarrow> str \<Rightarrow> agent_event_kind \<Rightarrow> agent_event" where
  "base_event iid prov raw_type k =
     \<lparr>ev_invocation_id = iid, ev_provider = prov, ev_kind = k, ev_raw_event_type = raw_type,
      ev_session_id = [], ev_item_id = [], ev_tool = None, ev_capability = [],
      ev_host_metadata_arguments_valid = None, ev_host_metadata_result_empty = None\<rparr>"

definition str_field :: "json \<Rightarrow> str" where
  "str_field j = (case j of JStr t \<Rightarrow> t | _ \<Rightarrow> [])"

definition violation :: "str \<Rightarrow> normalization" where
  "violation reason = Inr ([], [reason])"

definition one_event :: "agent_event \<Rightarrow> normalization" where
  "one_event e = Inr ([e], [])"

text \<open>\<open>_parse_record\<close>, which both normalizers have with the name of their provider.\<close>

definition parse_record ::
  "str \<Rightarrow> (str \<Rightarrow> str + json) \<Rightarrow> raw_record \<Rightarrow> str + (str \<times> json) list" where
  "parse_record label json_loads raw =
     (case (case raw of RawText t \<Rightarrow> json_loads t | RawValue v \<Rightarrow> Inr v) of
        Inl msg \<Rightarrow> Inl (''invalid '' @ label @ '' JSON event: '' @ msg)
      | Inr (JObj d) \<Rightarrow> Inr d
      | Inr _ \<Rightarrow> Inl (label @ '' JSON event is not an object''))"

section \<open>The interface\<close>

text \<open>A normalizer without state, as the audit runs it.\<close>

definition stateless :: "(raw_record \<Rightarrow> normalization) \<Rightarrow> (unit, raw_record) normalizer" where
  "stateless norm_ev n raw = map_sum id (\<lambda>(evs, reasons). ((), evs, reasons)) (norm_ev raw)"

definition events_of :: "(raw_record \<Rightarrow> normalization) \<Rightarrow> raw_record list \<Rightarrow> agent_event list" where
  "events_of norm_ev raws = concat (map (\<lambda>raw. case norm_ev raw of Inr (evs, _) \<Rightarrow> evs | Inl _ \<Rightarrow> []) raws)"

lemma stateless_Inr:
  "stateless norm_ev n raw = Inr (n', evs, reasons) \<longleftrightarrow> norm_ev raw = Inr (evs, reasons)"
  by (cases "norm_ev raw") (auto simp: stateless_def)

lemma normalized_stateless:
  "normalized (stateless norm_ev) n raws = Inr (evs, reasons) \<Longrightarrow>
     evs = events_of norm_ev raws \<and> (\<forall>raw \<in> set raws. \<exists>es rs. norm_ev raw = Inr (es, rs) \<and> set rs \<subseteq> set reasons)"
proof (induction raws arbitrary: n evs reasons)
  case (Cons raw raws)
  from Cons.prems obtain n' e1 r1 e2 r2 where s: "stateless norm_ev n raw = Inr (n', e1, r1)"
    "normalized (stateless norm_ev) n' raws = Inr (e2, r2)" "evs = e1 @ e2" "reasons = r1 @ r2"
    by (rule normalized_Cons_Inr)
  from Cons.IH [OF s(2)] s show ?case
    by (fastforce simp: stateless_Inr events_of_def)
qed (simp add: events_of_def)

locale event_normalizer =
  fixes norm_ev :: "raw_record \<Rightarrow> normalization" and iid prov :: str
  assumes events_bound: "norm_ev raw = Inr (evs, reasons) \<Longrightarrow> e \<in> set evs \<Longrightarrow> bound_to iid prov e"
    and reasons_nonblank: "norm_ev raw = Inr (evs, reasons) \<Longrightarrow> r \<in> set reasons \<Longrightarrow> py_strip r \<noteq> []"
begin

text \<open>A valid audit means that no record was refused and the events are a run of the protocol.\<close>

lemma valid_audit:
  assumes run: "audit_normalized_invocation (stateless norm_ev) () raws (new_guard iid prov pol req) x c
      = Inr (g', a)"
    and valid: "audit_valid a"
  shows "\<forall>raw \<in> set raws. \<exists>es. norm_ev raw = Inr (es, [])"
    and "trace_ok req pol (protocol_events (events_of norm_ev raws))"
    and "ending_ok req (protocol_events (events_of norm_ev raws)) x c"
proof -
  from audit_normalized_Inr [OF run] obtain evs reasons
    where n: "normalized (stateless norm_ev) () raws = Inr (evs, reasons)" .
  note ns = normalized_stateless [OF n]
  note av = audit_valid_normalized [OF run n]
  from av valid ns show "trace_ok req pol (protocol_events (events_of norm_ev raws))"
    and "ending_ok req (protocol_events (events_of norm_ev raws)) x c" by auto
  show "\<forall>raw \<in> set raws. \<exists>es. norm_ev raw = Inr (es, [])"
  proof
    fix raw assume "raw \<in> set raws"
    with ns obtain es rs where r: "norm_ev raw = Inr (es, rs)" "set rs \<subseteq> set reasons" by blast
    with av valid have "\<forall>r \<in> set rs. py_strip r = []" by blast
    with reasons_nonblank [OF r(1)] have "rs = []" by (cases rs) auto
    with r show "\<exists>es. norm_ev raw = Inr (es, [])" by blast
  qed
qed

text \<open>Conversely, records that are refused nowhere and follow the protocol give a valid audit.\<close>

lemma audit_returns:
  assumes "\<forall>raw \<in> set raws. \<exists>es. norm_ev raw = Inr (es, [])"
  shows "\<exists>g' a. audit_normalized_invocation (stateless norm_ev) () raws (new_guard iid prov pol req) x c
      = Inr (g', a) \<and> (audit_valid a \<longleftrightarrow> trace_ok req pol (protocol_events (events_of norm_ev raws))
        \<and> ending_ok req (protocol_events (events_of norm_ev raws)) x c)"
proof -
  have n: "normalized (stateless norm_ev) () raws = Inr (events_of norm_ev raws, [])"
    using assms by (induction raws) (auto simp: events_of_def stateless_Inr stateless_def [of norm_ev "()"])
  obtain g where g: "audit_records (stateless norm_ev) () raws (new_guard iid prov pol req) = Inr g"
    using audit_records_clean [OF n] by blast
  then have "\<not> g_finished g" using audit_records_finished by fastforce
  from finish_audit [OF this] obtain g' a where "finish x c g = Inr (g', a)" by blast
  with g have run: "audit_normalized_invocation (stateless norm_ev) () raws (new_guard iid prov pol req) x c
      = Inr (g', a)" by (simp add: audit_normalized_invocation_def)
  have "\<forall>e \<in> set (events_of norm_ev raws). bound_to iid prov e"
    using assms events_bound by (fastforce simp: events_of_def)
  with audit_valid_normalized [OF run n] run show ?thesis by auto
qed

end

section \<open>\<open>t.split(sep, n)\<close>\<close>

fun split_once :: "str \<Rightarrow> str \<Rightarrow> (str \<times> str) option" where
  "split_once sep [] = None"
| "split_once sep (c # cs) =
     (if starts_with sep (c # cs) then Some ([], drop (length sep) (c # cs))
      else map_option (\<lambda>(a, b). (c # a, b)) (split_once sep cs))"

fun py_split_max :: "str \<Rightarrow> nat \<Rightarrow> str \<Rightarrow> str list" where
  "py_split_max sep 0 t = [t]"
| "py_split_max sep (Suc n) t =
     (case split_once sep t of None \<Rightarrow> [t] | Some (a, b) \<Rightarrow> a # py_split_max sep n b)"

lemma split_once_join: "split_once sep t = Some (a, b) \<Longrightarrow> t = a @ sep @ b"
proof (induction sep t arbitrary: a rule: split_once.induct)
  case (2 sep c cs)
  then show ?case by (auto simp: starts_with_iff split: if_splits)
qed simp

lemma py_split_max_join: "py_join sep (py_split_max sep n t) = t"
proof (induction sep n t rule: py_split_max.induct)
  case (2 sep n t)
  have ne: "py_split_max sep n b \<noteq> []" for b by (cases n) (auto split: option.splits)
  show ?case
  proof (cases "split_once sep t")
    case (Some p)
    obtain a b where p: "p = (a, b)" by (cases p)
    obtain x xs where "py_split_max sep n b = x # xs" using ne [of b] by (cases "py_split_max sep n b") auto
    with 2 Some p split_once_join [of sep t a b] show ?thesis by force
  qed simp
qed simp

section \<open>The Claude normalizer\<close>

definition CLAUDE :: str where "CLAUDE = ''claude''"

definition claude_message_blocks :: "(str \<times> json) list \<Rightarrow> str + (str \<times> json) list list" where
  "claude_message_blocks value =
     (case jget value ''message'' of
        JObj message \<Rightarrow>
          (case jget message ''content'' of
             JList content \<Rightarrow>
               if list_all py_is_dict content
               then Inr (map (\<lambda>b. case b of JObj d \<Rightarrow> d | _ \<Rightarrow> []) content)
               else Inl ''Claude message content contains a non-object block''
           | _ \<Rightarrow> Inl ''Claude message content is not a list'')
      | _ \<Rightarrow> Inl ''Claude message event is missing message object'')"

definition claude_tool_identity :: "json \<Rightarrow> guard_error + (tool_identity option \<times> str)" where
  "claude_tool_identity value =
     (case value of
        JStr name \<Rightarrow>
          if name = [] then Inr (None, [])
          else if starts_with ''mcp__'' name then
            (case py_split_max ''__'' 2 name of
               [mcp, server, tool] \<Rightarrow>
                 if server \<noteq> [] \<and> tool \<noteq> []
                 then map_sum id (\<lambda>t. (Some t, ''mcp_tool'')) (ToolIdentity server tool)
                 else Inr (None, ''mcp_tool'')
             | _ \<Rightarrow> Inr (None, ''mcp_tool''))
          else map_sum id (\<lambda>t. (Some t, ''provider_tool:'' @ name)) (ToolIdentity ''claude'' name)
      | _ \<Rightarrow> Inr (None, []))"

text \<open>Membership in a set of strings raises for a value that has no hash.\<close>

definition hashable_value :: "json \<Rightarrow> bool" where
  "hashable_value j = (case j of JList _ \<Rightarrow> False | JObj _ \<Rightarrow> False | _ \<Rightarrow> True)"

text \<open>The loop over the blocks: \<open>events\<close> are the ones appended so far; a \<open>return\<close> drops them.\<close>

fun claude_assistant_blocks ::
  "str \<Rightarrow> agent_event list \<Rightarrow> (str \<times> json) list list \<Rightarrow> normalization" where
  "claude_assistant_blocks iid events [] = Inr (events, [])"
| "claude_assistant_blocks iid events (block # blocks) =
     (let block_type = jget block ''type''
      in if \<not> hashable_value block_type then Inl (TypeError ''unhashable type'')
         else if block_type = JStr ''text'' \<or> block_type = JStr ''thinking''
         then claude_assistant_blocks iid (events @ [base_event iid CLAUDE ''assistant'' PASSIVE]) blocks
         else if block_type \<noteq> JStr ''tool_use''
         then violation (''unknown Claude assistant block '' @ py_repr block_type)
         else case claude_tool_identity (jget block ''name'') of
             Inl err \<Rightarrow> Inl err
           | Inr (tool, capability) \<Rightarrow>
               claude_assistant_blocks iid
                 (events @ [(base_event iid CLAUDE ''assistant'' TOOL_STARTED)
                    \<lparr>ev_item_id := str_field (jget block ''id''), ev_tool := tool,
                     ev_capability := capability\<rparr>]) blocks)"

definition claude_assistant :: "str \<Rightarrow> (str \<times> json) list \<Rightarrow> normalization" where
  "claude_assistant iid value =
     (case claude_message_blocks value of
        Inl error \<Rightarrow> violation error
      | Inr blocks \<Rightarrow> claude_assistant_blocks iid [] blocks)"

definition injected_user_text :: "str \<Rightarrow> agent_event" where
  "injected_user_text iid = base_event iid CLAUDE ''user/text'' PASSIVE"

fun claude_user_blocks ::
  "str \<Rightarrow> bool \<Rightarrow> agent_event list \<Rightarrow> (str \<times> json) list list \<Rightarrow> normalization" where
  "claude_user_blocks iid injected events [] = Inr (events, [])"
| "claude_user_blocks iid injected events (block # blocks) =
     (let block_type = jget block ''type''
      in if block_type = JStr ''text'' \<and> injected
         then claude_user_blocks iid injected (events @ [injected_user_text iid]) blocks
         else if block_type \<noteq> JStr ''tool_result''
         then violation (''unknown Claude user block '' @ py_repr block_type)
         else claude_user_blocks iid injected
                (events @ [(base_event iid CLAUDE ''user'' TOOL_COMPLETED)
                   \<lparr>ev_item_id := str_field (jget block ''tool_use_id'')\<rparr>]) blocks)"

definition claude_user :: "str \<Rightarrow> (str \<times> json) list \<Rightarrow> normalization" where
  "claude_user iid value =
     (let injected = (jget value ''isMeta'' = JBool True);
          content_text = (case jget value ''message'' of
            JObj message \<Rightarrow> py_is_str (jget message ''content'') | _ \<Rightarrow> False)
      in if injected \<and> content_text then one_event (injected_user_text iid)
         else case claude_message_blocks value of
             Inl error \<Rightarrow> violation error
           | Inr blocks \<Rightarrow> claude_user_blocks iid injected [] blocks)"

definition claude_failed :: "(str \<times> json) list \<Rightarrow> bool" where
  "claude_failed value \<longleftrightarrow> py_truthy (jget value ''is_error'')
     \<or> str_or_empty (jget value ''subtype'') \<in> {''error'', ''failed''}"

definition claude_system :: "str \<Rightarrow> (str \<times> json) list \<Rightarrow> normalization" where
  "claude_system iid value =
     (let subtype = jget value ''subtype''
      in if subtype = JStr ''init''
         then one_event ((base_event iid CLAUDE ''system'' INVOCATION_STARTED)
                \<lparr>ev_session_id := str_field (jget value ''session_id'')\<rparr>)
         else one_event (base_event iid CLAUDE
                (case subtype of
                   JStr t \<Rightarrow> if t \<noteq> [] then ''system/'' @ t else ''system'' | _ \<Rightarrow> ''system'')
                PROVIDER_NOTICE))"

definition claude_result :: "str \<Rightarrow> (str \<times> json) list \<Rightarrow> normalization" where
  "claude_result iid value =
     Inr ((if py_is_str (jget value ''result'')
           then [base_event iid CLAUDE ''result'' MESSAGE_COMPLETED] else [])
          @ [base_event iid CLAUDE ''result''
               (if claude_failed value then TERMINAL_FAILED else TERMINAL_COMPLETED)], [])"

definition claude_normalize :: "(str \<Rightarrow> str + json) \<Rightarrow> str \<Rightarrow> raw_record \<Rightarrow> normalization" where
  "claude_normalize json_loads iid raw =
     (case parse_record ''Claude'' json_loads raw of
        Inl error \<Rightarrow> violation error
      | Inr value \<Rightarrow>
          (case jget value ''type'' of
             JStr event_type \<Rightarrow>
               if event_type = [] then violation ''Claude event type is missing''
               else if event_type = ''system'' then claude_system iid value
               else if event_type = ''assistant'' then claude_assistant iid value
               else if event_type = ''user'' then claude_user iid value
               else if event_type = ''result'' then claude_result iid value
               else one_event (base_event iid CLAUDE event_type PASSIVE)
           | _ \<Rightarrow> violation ''Claude event type is missing''))"

definition ClaudeEventNormalizer ::
  "(str \<Rightarrow> str + json) \<Rightarrow> str \<Rightarrow> guard_error + (raw_record \<Rightarrow> normalization)" where
  "ClaudeEventNormalizer json_loads iid =
     (if iid = [] then Inl (ValueError ''Claude normalizer requires an invocation identity'')
      else Inr (claude_normalize json_loads iid))"

section \<open>What the Claude normalizer gives\<close>

definition assistant_event :: "str \<Rightarrow> (str \<times> json) list \<Rightarrow> agent_event \<Rightarrow> bool" where
  "assistant_event iid b e \<longleftrightarrow>
     (if jget b ''type'' = JStr ''tool_use''
      then \<exists>tool cap. claude_tool_identity (jget b ''name'') = Inr (tool, cap)
        \<and> e = (base_event iid CLAUDE ''assistant'' TOOL_STARTED)
             \<lparr>ev_item_id := str_field (jget b ''id''), ev_tool := tool, ev_capability := cap\<rparr>
      else e = base_event iid CLAUDE ''assistant'' PASSIVE)"

definition user_event :: "str \<Rightarrow> (str \<times> json) list \<Rightarrow> agent_event \<Rightarrow> bool" where
  "user_event iid b e \<longleftrightarrow>
     e = (if jget b ''type'' = JStr ''tool_result''
          then (base_event iid CLAUDE ''user'' TOOL_COMPLETED)
                 \<lparr>ev_item_id := str_field (jget b ''tool_use_id'')\<rparr>
          else injected_user_text iid)"

lemma base_event_simps [simp]:
  "ev_kind (base_event iid prov t k) = k" "ev_item_id (base_event iid prov t k) = []"
  "bound_to iid' prov' (base_event iid prov t k) \<longleftrightarrow> iid = iid' \<and> prov = prov'"
  "ev_tool (base_event iid prov t k) = None" "ev_capability (base_event iid prov t k) = []"
  "ev_invocation_id (base_event iid prov t k) = iid" "ev_provider (base_event iid prov t k) = prov"
  by (auto simp: base_event_def bound_to_def)

lemma unknown_nonblank: "py_strip (''unknown '' @ t) \<noteq> []"
  by (simp add: py_strip_Nil_iff py_isspace_def)

lemma assistant_block_step:
  assumes "claude_assistant_blocks iid events (b # bs) = Inr (evs, reasons)"
  shows "(\<exists>e. assistant_event iid b e \<and> claude_assistant_blocks iid (events @ [e]) bs = Inr (evs, reasons))
    \<or> (evs = [] \<and> (\<exists>t. reasons = [''unknown '' @ t]))"
proof (cases "jget b ''type'' \<in> {JStr ''text'', JStr ''thinking''}")
  case True
  then have t: "hashable_value (jget b ''type'')" "jget b ''type'' \<noteq> JStr ''tool_use''"
    by (auto simp: hashable_value_def)
  then have "claude_assistant_blocks iid (events @ [base_event iid CLAUDE ''assistant'' PASSIVE]) bs
      = Inr (evs, reasons)" using assms True by (simp add: Let_def)
  with t show ?thesis unfolding assistant_event_def by (intro disjI1 exI) simp
next
  case quiet: False
  show ?thesis
  proof (cases "jget b ''type'' = JStr ''tool_use''")
    case True
    with assms obtain tool cap where "claude_tool_identity (jget b ''name'') = Inr (tool, cap)"
      "claude_assistant_blocks iid
         (events @ [(base_event iid CLAUDE ''assistant'' TOOL_STARTED)
            \<lparr>ev_item_id := str_field (jget b ''id''), ev_tool := tool, ev_capability := cap\<rparr>]) bs
       = Inr (evs, reasons)"
      by (cases "claude_tool_identity (jget b ''name'')") (auto simp: Let_def hashable_value_def)
    with True show ?thesis unfolding assistant_event_def by auto
  next
    case False
    with quiet assms show ?thesis by (auto simp: Let_def violation_def split: if_splits)
  qed
qed

lemma claude_assistant_blocks_cases:
  "claude_assistant_blocks iid events bs = Inr (evs, reasons) \<Longrightarrow>
     (reasons = [] \<and> (\<exists>es. evs = events @ es \<and> list_all2 (assistant_event iid) bs es))
     \<or> (evs = [] \<and> (\<exists>t. reasons = [''unknown '' @ t]))"
proof (induction bs arbitrary: events)
  case (Cons b bs)
  from assistant_block_step [OF Cons.prems] show ?case
  proof
    assume "\<exists>e. assistant_event iid b e \<and> claude_assistant_blocks iid (events @ [e]) bs = Inr (evs, reasons)"
    then obtain e where e: "assistant_event iid b e"
      "claude_assistant_blocks iid (events @ [e]) bs = Inr (evs, reasons)" by blast
    from Cons.IH [OF e(2)] e(1) show ?thesis by force
  qed blast
qed simp

lemma user_block_step:
  assumes "claude_user_blocks iid injected events (b # bs) = Inr (evs, reasons)"
  shows "(\<exists>e. user_event iid b e \<and> claude_user_blocks iid injected (events @ [e]) bs = Inr (evs, reasons))
    \<or> (evs = [] \<and> (\<exists>t. reasons = [''unknown '' @ t]))"
proof (cases "jget b ''type'' = JStr ''tool_result'' \<or> jget b ''type'' = JStr ''text'' \<and> injected")
  case True
  with assms show ?thesis unfolding user_event_def by (auto simp: Let_def)
next
  case False
  with assms show ?thesis by (auto simp: Let_def violation_def split: if_splits)
qed

lemma claude_user_blocks_cases:
  "claude_user_blocks iid injected events bs = Inr (evs, reasons) \<Longrightarrow>
     (reasons = [] \<and> (\<exists>es. evs = events @ es \<and> list_all2 (user_event iid) bs es))
     \<or> (evs = [] \<and> (\<exists>t. reasons = [''unknown '' @ t]))"
proof (induction bs arbitrary: events)
  case (Cons b bs)
  from user_block_step [OF Cons.prems] show ?case
  proof
    assume "\<exists>e. user_event iid b e \<and> claude_user_blocks iid injected (events @ [e]) bs = Inr (evs, reasons)"
    then obtain e where e: "user_event iid b e"
      "claude_user_blocks iid injected (events @ [e]) bs = Inr (evs, reasons)" by blast
    from Cons.IH [OF e(2)] e(1) show ?thesis by force
  qed blast
qed simp

text \<open>The record a line decodes to, its type, and the blocks of its message.\<close>

definition claude_record :: "(str \<Rightarrow> str + json) \<Rightarrow> raw_record \<Rightarrow> (str \<times> json) list" where
  "claude_record json_loads raw =
     (case parse_record ''Claude'' json_loads raw of Inr d \<Rightarrow> d | Inl _ \<Rightarrow> [])"

definition claude_type :: "(str \<Rightarrow> str + json) \<Rightarrow> raw_record \<Rightarrow> str" where
  "claude_type json_loads raw = str_field (jget (claude_record json_loads raw) ''type'')"

definition claude_blocks :: "(str \<Rightarrow> str + json) \<Rightarrow> str \<Rightarrow> raw_record \<Rightarrow> (str \<times> json) list list" where
  "claude_blocks json_loads event_type raw =
     (if claude_type json_loads raw = event_type
      then case claude_message_blocks (claude_record json_loads raw) of Inr bs \<Rightarrow> bs | Inl _ \<Rightarrow> []
      else [])"

definition blocks_of_type :: "str \<Rightarrow> (str \<times> json) list list \<Rightarrow> (str \<times> json) list list" where
  "blocks_of_type block_type bs = filter (\<lambda>b. jget b ''type'' = JStr block_type) bs"

definition tool_use_ids :: "(str \<Rightarrow> str + json) \<Rightarrow> raw_record list \<Rightarrow> str list" where
  "tool_use_ids json_loads raws = concat (map (\<lambda>raw. map (\<lambda>b. str_field (jget b ''id''))
     (blocks_of_type ''tool_use'' (claude_blocks json_loads ''assistant'' raw))) raws)"

definition tool_result_ids :: "(str \<Rightarrow> str + json) \<Rightarrow> raw_record list \<Rightarrow> str list" where
  "tool_result_ids json_loads raws = concat (map (\<lambda>raw. map (\<lambda>b. str_field (jget b ''tool_use_id''))
     (blocks_of_type ''tool_result'' (claude_blocks json_loads ''user'' raw))) raws)"

lemma parse_error_nonblank: "parse_record ''Claude'' json_loads raw = Inl err \<Longrightarrow> py_strip err \<noteq> []"
  unfolding parse_record_def
  by (auto simp: py_strip_Nil_iff py_isspace_def split: sum.splits json.splits)

lemma message_error_nonblank: "claude_message_blocks d = Inl err \<Longrightarrow> py_strip err \<noteq> []"
  unfolding claude_message_blocks_def
  by (auto simp: py_strip_Nil_iff py_isspace_def split: json.splits if_splits)

text \<open>A record is refused with one reason, or it gives events of one of five shapes.\<close>

definition claude_shape :: "(str \<Rightarrow> str + json) \<Rightarrow> str \<Rightarrow> raw_record \<Rightarrow> agent_event list \<Rightarrow> bool" where
  "claude_shape json_loads iid raw evs \<longleftrightarrow>
     (let t = claude_type json_loads raw; d = claude_record json_loads raw in
      t \<noteq> [] \<and>
      (if t = ''assistant'' then list_all2 (assistant_event iid) (claude_blocks json_loads t raw) evs
       else if t = ''user'' then list_all2 (user_event iid) (claude_blocks json_loads t raw) evs
         \<or> claude_blocks json_loads t raw = [] \<and> evs = [injected_user_text iid]
       else if t = ''result'' then claude_result iid d = Inr (evs, [])
       else \<exists>e. evs = [e] \<and> bound_to iid CLAUDE e
         \<and> ev_kind e \<in> {INVOCATION_STARTED, PROVIDER_NOTICE, PASSIVE}))"

lemma claude_user_shape:
  assumes "claude_user iid d = Inr (evs, reasons)"
  shows "(reasons = [] \<and>
      (let bs = (case claude_message_blocks d of Inr bs \<Rightarrow> bs | Inl _ \<Rightarrow> []) in
       list_all2 (user_event iid) bs evs \<or> bs = [] \<and> evs = [injected_user_text iid]))
    \<or> (evs = [] \<and> (\<exists>r. reasons = [r] \<and> py_strip r \<noteq> []))"
proof (cases "jget d ''isMeta'' = JBool True
    \<and> (case jget d ''message'' of JObj m \<Rightarrow> py_is_str (jget m ''content'') | _ \<Rightarrow> False)")
  case True
  then obtain m t where "jget d ''message'' = JObj m" "jget m ''content'' = JStr t"
    by (auto simp: py_is_str_def split: json.splits)
  then have "claude_message_blocks d = Inl ''Claude message content is not a list''"
    by (simp add: claude_message_blocks_def)
  with True assms show ?thesis by (auto simp: claude_user_def Let_def one_event_def)
next
  case False
  show ?thesis
  proof (cases "claude_message_blocks d")
    case (Inl err)
    with False assms message_error_nonblank [OF Inl] show ?thesis
      by (auto simp: claude_user_def Let_def violation_def split: if_splits)
  next
    case (Inr bs)
    with False assms have "claude_user_blocks iid (jget d ''isMeta'' = JBool True) [] bs = Inr (evs, reasons)"
      by (auto simp: claude_user_def Let_def split: if_splits)
    from claude_user_blocks_cases [OF this] unknown_nonblank show ?thesis by (auto simp: Inr)
  qed
qed

lemma claude_normalize_cases:
  assumes "claude_normalize json_loads iid raw = Inr (evs, reasons)"
  shows "(reasons = [] \<and> claude_shape json_loads iid raw evs)
    \<or> (evs = [] \<and> (\<exists>r. reasons = [r] \<and> py_strip r \<noteq> []))"
proof (cases "parse_record ''Claude'' json_loads raw")
  case (Inl err)
  with assms parse_error_nonblank [OF Inl] show ?thesis
    by (auto simp: claude_normalize_def violation_def)
next
  case (Inr d)
  show ?thesis
  proof (cases "\<exists>t. jget d ''type'' = JStr t \<and> t \<noteq> []")
    case False
    with assms Inr have "evs = [] \<and> reasons = [''Claude event type is missing'']"
      by (auto simp: claude_normalize_def violation_def split: json.splits if_splits)
    then show ?thesis by (simp add: py_strip_Nil_iff py_isspace_def)
  next
    case True
    then obtain t where t: "jget d ''type'' = JStr t" "t \<noteq> []" by blast
    have r: "claude_record json_loads raw = d" "claude_type json_loads raw = t"
      using Inr t by (simp_all add: claude_record_def claude_type_def str_field_def)
    consider (sys) "t = ''system''" | (ass) "t = ''assistant''" | (usr) "t = ''user''"
      | (res) "t = ''result''" | (oth) "t \<notin> {''system'', ''assistant'', ''user'', ''result''}" by blast
    then show ?thesis
    proof cases
      case sys
      with assms Inr t r show ?thesis
        by (auto simp: claude_normalize_def claude_shape_def claude_system_def one_event_def Let_def
            bound_to_def split: if_splits)
    next
      case ass
      with assms Inr t have a: "claude_assistant iid d = Inr (evs, reasons)" by (simp add: claude_normalize_def)
      show ?thesis
      proof (cases "claude_message_blocks d")
        case (Inl err)
        with a message_error_nonblank [OF Inl] show ?thesis by (auto simp: claude_assistant_def violation_def)
      next
        case (Inr bs)
        with a have "claude_assistant_blocks iid [] bs = Inr (evs, reasons)" by (simp add: claude_assistant_def)
        from claude_assistant_blocks_cases [OF this] unknown_nonblank show ?thesis
          by (auto simp: claude_shape_def claude_blocks_def r ass Inr)
      qed
    next
      case usr
      with assms Inr t have u: "claude_user iid d = Inr (evs, reasons)" by (simp add: claude_normalize_def)
      from claude_user_shape [OF u] show ?thesis
        by (auto simp: claude_shape_def claude_blocks_def r usr Let_def)
    next
      case res
      with assms Inr t r show ?thesis
        by (auto simp: claude_normalize_def claude_shape_def claude_result_def)
    next
      case oth
      with assms Inr t r show ?thesis
        by (auto simp: claude_normalize_def claude_shape_def one_event_def)
    qed
  qed
qed

lemma assistant_events_bound:
  "list_all2 (assistant_event iid) bs evs \<Longrightarrow> e \<in> set evs \<Longrightarrow> bound_to iid CLAUDE e"
  by (induction rule: list_all2_induct) (auto simp: assistant_event_def bound_to_def split: if_splits)

lemma user_events_bound:
  "list_all2 (user_event iid) bs evs \<Longrightarrow> e \<in> set evs \<Longrightarrow> bound_to iid CLAUDE e"
  by (induction rule: list_all2_induct)
     (auto simp: user_event_def injected_user_text_def bound_to_def split: if_splits)

lemma claude_shape_bound: "claude_shape json_loads iid raw evs \<Longrightarrow> e \<in> set evs \<Longrightarrow> bound_to iid CLAUDE e"
  unfolding claude_shape_def Let_def claude_result_def
  using assistant_events_bound user_events_bound
  by (auto simp: injected_user_text_def split: if_splits)

interpretation claude: event_normalizer "claude_normalize json_loads iid" iid CLAUDE for json_loads iid
  using claude_normalize_cases claude_shape_bound by unfold_locales fastforce+

lemma assistant_events_ids:
  "list_all2 (assistant_event iid) bs evs \<Longrightarrow>
     started_ids evs = map (\<lambda>b. str_field (jget b ''id'')) (blocks_of_type ''tool_use'' bs)
     \<and> completed_ids evs = [] \<and> terminals_of evs = [] \<and> protocol_events evs = evs"
  by (induction rule: list_all2_induct)
     (auto simp: assistant_event_def started_ids_def completed_ids_def terminals_of_def
        protocol_events_def blocks_of_type_def is_terminal_def split: if_splits)

lemma user_events_ids:
  "list_all2 (user_event iid) bs evs \<Longrightarrow>
     completed_ids evs = map (\<lambda>b. str_field (jget b ''tool_use_id'')) (blocks_of_type ''tool_result'' bs)
     \<and> started_ids evs = [] \<and> terminals_of evs = [] \<and> protocol_events evs = evs"
  by (induction rule: list_all2_induct)
     (auto simp: user_event_def started_ids_def completed_ids_def terminals_of_def injected_user_text_def
        protocol_events_def blocks_of_type_def is_terminal_def split: if_splits)

lemmas trace_views = started_ids_def completed_ids_def terminals_of_def protocol_events_def is_terminal_def

lemma claude_shape_ids:
  assumes "claude_shape json_loads iid raw evs"
  shows "started_ids (protocol_events evs) = tool_use_ids json_loads [raw]"
    and "completed_ids (protocol_events evs) = tool_result_ids json_loads [raw]"
    and "terminals_of (protocol_events evs) = (if claude_type json_loads raw = ''result''
        then [if claude_failed (claude_record json_loads raw) then TERMINAL_FAILED else TERMINAL_COMPLETED]
        else [])"
    and "protocol_events evs = [] \<longrightarrow>
      claude_blocks json_loads ''assistant'' raw = [] \<and> claude_blocks json_loads ''user'' raw = []"
proof -
  let ?t = "claude_type json_loads raw"
  have n: "?t \<noteq> x \<Longrightarrow> claude_blocks json_loads x raw = []" for x by (simp add: claude_blocks_def)
  consider (ass) "?t = ''assistant''" | (usr) "?t = ''user''" | (res) "?t = ''result''"
    | (oth) "?t \<notin> {''assistant'', ''user'', ''result''}" by blast
  then have "started_ids (protocol_events evs) = tool_use_ids json_loads [raw]
    \<and> completed_ids (protocol_events evs) = tool_result_ids json_loads [raw]
    \<and> terminals_of (protocol_events evs) = (if claude_type json_loads raw = ''result''
        then [if claude_failed (claude_record json_loads raw) then TERMINAL_FAILED else TERMINAL_COMPLETED]
        else [])
    \<and> (protocol_events evs = [] \<longrightarrow>
      claude_blocks json_loads ''assistant'' raw = [] \<and> claude_blocks json_loads ''user'' raw = [])"
  proof cases
    case ass
    with assms have "list_all2 (assistant_event iid) (claude_blocks json_loads ''assistant'' raw) evs"
      by (simp add: claude_shape_def)
    with assistant_events_ids [OF this] n [of "''user''"] ass show ?thesis
      by (auto simp: tool_use_ids_def tool_result_ids_def blocks_of_type_def)
  next
    case usr
    with assms consider "list_all2 (user_event iid) (claude_blocks json_loads ''user'' raw) evs"
      | "claude_blocks json_loads ''user'' raw = []" "evs = [injected_user_text iid]"
      by (auto simp: claude_shape_def Let_def)
    then show ?thesis
    proof cases
      case 1
      from user_events_ids [OF 1] 1 n [of "''assistant''"] usr show ?thesis
        by (auto simp: tool_use_ids_def tool_result_ids_def blocks_of_type_def)
    next
      case 2
      with n [of "''assistant''"] usr show ?thesis
        by (simp add: tool_use_ids_def tool_result_ids_def blocks_of_type_def injected_user_text_def trace_views)
    qed
  next
    case res
    with assms have "claude_result iid (claude_record json_loads raw) = Inr (evs, [])"
      by (simp add: claude_shape_def)
    with n [of "''assistant''"] n [of "''user''"] res show ?thesis
      by (auto simp: claude_result_def tool_use_ids_def tool_result_ids_def blocks_of_type_def trace_views)
  next
    case oth
    with assms obtain e where "evs = [e]" "ev_kind e \<in> {INVOCATION_STARTED, PROVIDER_NOTICE, PASSIVE}"
      by (auto simp: claude_shape_def Let_def)
    with n [of "''assistant''"] n [of "''user''"] oth show ?thesis
      by (auto simp: tool_use_ids_def tool_result_ids_def blocks_of_type_def trace_views)
  qed
  then show "started_ids (protocol_events evs) = tool_use_ids json_loads [raw]"
    and "completed_ids (protocol_events evs) = tool_result_ids json_loads [raw]"
    and "terminals_of (protocol_events evs) = (if claude_type json_loads raw = ''result''
        then [if claude_failed (claude_record json_loads raw) then TERMINAL_FAILED else TERMINAL_COMPLETED]
        else [])"
    and "protocol_events evs = [] \<longrightarrow>
      claude_blocks json_loads ''assistant'' raw = [] \<and> claude_blocks json_loads ''user'' raw = []"
    by blast+
qed

lemma trace_views_append:
  "started_ids (a @ b) = started_ids a @ started_ids b"
  "completed_ids (a @ b) = completed_ids a @ completed_ids b"
  "terminals_of (a @ b) = terminals_of a @ terminals_of b"
  "protocol_events (a @ b) = protocol_events a @ protocol_events b"
  by (simp_all add: started_ids_def completed_ids_def terminals_of_def protocol_events_def)

lemma events_of_append: "events_of norm_ev (a @ b) = events_of norm_ev a @ events_of norm_ev b"
  by (simp add: events_of_def)

lemma events_of_Cons: "norm_ev raw = Inr (es, rs) \<Longrightarrow> events_of norm_ev (raw # raws) = es @ events_of norm_ev raws"
  by (simp add: events_of_def)

lemma claude_clean_shape:
  "claude_normalize json_loads iid raw = Inr (es, []) \<Longrightarrow> claude_shape json_loads iid raw es"
  using claude_normalize_cases by fastforce

lemma claude_trace_ids:
  assumes "\<forall>raw \<in> set raws. \<exists>es. claude_normalize json_loads iid raw = Inr (es, [])"
  shows "started_ids (protocol_events (events_of (claude_normalize json_loads iid) raws)) = tool_use_ids json_loads raws
    \<and> completed_ids (protocol_events (events_of (claude_normalize json_loads iid) raws)) = tool_result_ids json_loads raws"
  using assms
proof (induction raws)
  case (Cons raw raws)
  from Cons.prems obtain es where es: "claude_normalize json_loads iid raw = Inr (es, [])" by auto
  note sh = claude_shape_ids [OF claude_clean_shape [OF es]]
  from Cons show ?case
    by (simp add: events_of_Cons [where norm_ev = "claude_normalize json_loads iid", OF es] trace_views_append sh)
       (simp add: tool_use_ids_def tool_result_ids_def)
qed (simp add: events_of_def trace_views tool_use_ids_def tool_result_ids_def)

text \<open>A name that resolves to a tool of the proof server is an MCP name.\<close>

lemma split_mcp:
  "py_split_max ''__'' 2 (''mcp__'' @ rest) = ''mcp'' # py_split_max ''__'' 1 rest"
  by (simp add: numeral_2_eq_2)

lemma claude_identity_server:
  assumes "claude_tool_identity name = Inr (Some t, cap)" and "ti_server t = ''proof_node_manager''"
  shows "\<exists>server tool. name = JStr (''mcp__'' @ server @ ''__'' @ tool)
    \<and> t = \<lparr>ti_server = py_strip server, ti_tool = py_strip tool\<rparr>"
proof -
  from assms(1) obtain n where n: "name = JStr n" "n \<noteq> []"
    by (auto simp: claude_tool_identity_def split: json.splits if_splits)
  have "py_strip ''claude'' = ''claude''" by code_simp
  then have "starts_with ''mcp__'' n"
    using assms n by (auto simp: claude_tool_identity_def ToolIdentity_def split: if_splits)
  then obtain rest where rest: "n = ''mcp__'' @ rest" by (auto simp: starts_with_iff)
  define xs where "xs = py_split_max ''__'' 1 rest"
  have parts: "py_split_max ''__'' 2 n = ''mcp'' # xs" unfolding rest xs_def by (rule split_mcp)
  have "(case ''mcp'' # xs of
      [mcp, server, tool] \<Rightarrow>
        if server \<noteq> [] \<and> tool \<noteq> [] then map_sum id (\<lambda>t. (Some t, ''mcp_tool'')) (ToolIdentity server tool)
        else Inr (None, ''mcp_tool'')
    | _ \<Rightarrow> Inr (None, ''mcp_tool'')) = Inr (Some t, cap)"
    using assms(1) \<open>starts_with ''mcp__'' n\<close> n(2) unfolding n(1) claude_tool_identity_def parts
    by (simp only: json.case if_False if_True parts)
  then obtain server tool where xs: "xs = [server, tool]"
    and "map_sum id (\<lambda>t. (Some t, ''mcp_tool'')) (ToolIdentity server tool) = Inr (Some t, cap)"
    by (auto split: list.splits if_splits)
  then have id: "ToolIdentity server tool = Inr t" by (cases "ToolIdentity server tool") auto
  have "n = ''mcp__'' @ server @ ''__'' @ tool"
    using py_split_max_join [of "''__''" 2 n] by (simp add: parts xs)
  with id n show ?thesis by (auto simp: ToolIdentity_def split: if_splits)
qed

lemma manifest_server: "t \<in> set (manifest_tool_identities nav) \<Longrightarrow> ti_server t = ''proof_node_manager''"
  by (auto simp: manifest_tool_identities_def PROOF_TOOL_IDENTITY_def SOURCE_READ_TOOL_IDENTITY_def
      SOURCE_SEARCH_TOOL_IDENTITY_def DECLARATION_RESOLVE_TOOL_IDENTITY_def split: if_splits)

lemma claude_block_permitted:
  assumes clean: "claude_normalize json_loads iid raw = Inr (es, [])"
    and ok: "\<forall>e \<in> set es. ev_kind e = TOOL_STARTED \<longrightarrow> tool_permitted (proof_eval_policy nav False) e"
    and b: "b \<in> set (blocks_of_type ''tool_use'' (claude_blocks json_loads ''assistant'' raw))"
  shows "\<exists>server tool. jget b ''name'' = JStr (''mcp__'' @ server @ ''__'' @ tool)
    \<and> \<lparr>ti_server = py_strip server, ti_tool = py_strip tool\<rparr> \<in> set (manifest_tool_identities nav)"
proof -
  have "claude_blocks json_loads ''assistant'' raw \<noteq> []" using b by (auto simp: blocks_of_type_def)
  then have t: "claude_type json_loads raw = ''assistant''" unfolding claude_blocks_def by metis
  then have "list_all2 (assistant_event iid) (claude_blocks json_loads ''assistant'' raw) es"
    using claude_clean_shape [OF clean] by (simp add: claude_shape_def)
  moreover from b obtain k where k: "k < length (claude_blocks json_loads ''assistant'' raw)"
    "claude_blocks json_loads ''assistant'' raw ! k = b" by (auto simp: blocks_of_type_def in_set_conv_nth)
  ultimately have "es ! k \<in> set es" "assistant_event iid b (es ! k)"
    by (auto simp: list_all2_conv_all_nth)
  moreover have "jget b ''type'' = JStr ''tool_use''" using b by (simp add: blocks_of_type_def)
  ultimately obtain tool cap where id: "claude_tool_identity (jget b ''name'') = Inr (tool, cap)"
    and e: "ev_kind (es ! k) = TOOL_STARTED" "ev_tool (es ! k) = tool" "es ! k \<in> set es"
    by (auto simp: assistant_event_def)
  from ok e have "tool_permitted (proof_eval_policy nav False) (es ! k)" by blast
  then obtain tl where "tool = Some tl" "tl \<in> set (manifest_tool_identities nav)"
    using e(2) by (auto simp: tool_permitted_def proof_eval_policy_def split: option.splits if_splits)
  with claude_identity_server [of "jget b ''name''" tl cap] id manifest_server [of tl nav]
  show ?thesis by auto
qed

lemma trace_ok_after_terminal:
  assumes "trace_ok req pol (a @ b)" and "terminals_of a \<noteq> []"
  shows "b = []"
proof (rule ccontr)
  assume "b \<noteq> []"
  then have "length a < length (a @ b)" by simp
  with assms(1) have "event_ok req pol (take (length a) (a @ b)) ((a @ b) ! length a)"
    unfolding trace_ok_def by blast
  then show False using assms(2) by (simp add: event_ok_def)
qed

lemma claude_terminal_record:
  assumes clean: "\<forall>raw \<in> set raws. \<exists>es. claude_normalize json_loads iid raw = Inr (es, [])"
    and trace: "trace_ok req pol (protocol_events (events_of (claude_normalize json_loads iid) raws))"
    and terminal: "terminals_of (protocol_events (events_of (claude_normalize json_loads iid) raws)) = [k]"
  shows "\<exists>front r rest. raws = front @ r # rest \<and> claude_type json_loads r = ''result''
    \<and> (\<forall>x \<in> set front. claude_type json_loads x \<noteq> ''result'')
    \<and> (\<forall>x \<in> set rest. claude_type json_loads x \<noteq> ''result''
        \<and> claude_blocks json_loads ''assistant'' x = [] \<and> claude_blocks json_loads ''user'' x = [])
    \<and> k = (if claude_failed (claude_record json_loads r) then TERMINAL_FAILED else TERMINAL_COMPLETED)"
proof -
  let ?N = "claude_normalize json_loads iid"
  let ?P = "\<lambda>rs. protocol_events (events_of ?N rs)"
  have none: "\<forall>x \<in> set rs. claude_type json_loads x \<noteq> ''result'' \<Longrightarrow> set rs \<subseteq> set raws \<Longrightarrow>
      terminals_of (?P rs) = []" for rs
  proof (induction rs)
    case (Cons x xs)
    then obtain es where es: "?N x = Inr (es, [])" using clean by auto
    with Cons claude_shape_ids(3) [OF claude_clean_shape [OF es]] show ?case
      by (simp add: events_of_Cons [where norm_ev = ?N, OF es] trace_views_append)
  qed (simp add: events_of_def trace_views)
  have "\<exists>x \<in> set raws. claude_type json_loads x = ''result''"
    using none [of raws] terminal by auto
  then obtain front r rest where split: "raws = front @ r # rest" "claude_type json_loads r = ''result''"
      "\<forall>x \<in> set front. claude_type json_loads x \<noteq> ''result''"
    by (auto dest!: split_list_first_prop)
  obtain es where es: "?N r = Inr (es, [])" using clean split by auto
  note sh = claude_shape_ids [OF claude_clean_shape [OF es]]
  have P: "?P raws = (?P front @ protocol_events es) @ ?P rest"
    by (simp add: split(1) events_of_append events_of_Cons [where norm_ev = ?N, OF es] trace_views_append)
  have rest: "?P rest = []"
    using trace_ok_after_terminal [of req pol "?P front @ protocol_events es" "?P rest"] trace P sh(3) split(2)
    by (simp add: trace_views_append)
  have quiet: "claude_type json_loads x \<noteq> ''result''
        \<and> claude_blocks json_loads ''assistant'' x = [] \<and> claude_blocks json_loads ''user'' x = []"
    if x: "x \<in> set rest" for x
  proof -
    obtain fs where fs: "?N x = Inr (fs, [])" using clean split(1) x by auto
    from x have "set fs \<subseteq> set (events_of ?N rest)" using fs by (force simp: events_of_def)
    with rest have "protocol_events fs = []" by (auto simp: protocol_events_def filter_empty_conv)
    with claude_shape_ids(3,4) [OF claude_clean_shape [OF fs]] show ?thesis
      by (auto simp: terminals_of_def split: if_splits)
  qed
  have "k = (if claude_failed (claude_record json_loads r) then TERMINAL_FAILED else TERMINAL_COMPLETED)"
    using terminal P rest sh(3) split(2) none [of front] split(1,3)
    by (auto simp: trace_views_append terminals_of_def [of "[]"])
  with split quiet show ?thesis by blast
qed

section \<open>Properties\<close>

text \<open>C7. What a valid audit says of the raw Claude stream. Run the Claude normalizer and the guard of
  an evaluation over the lines of one invocation, whatever the decoder makes of a text. If the audit is valid,
  every tool the agent called is written \<open>mcp__<server>__<tool>\<close> and is a tool of the proof contract
  (so no shell, no file access); no call identity is used twice, and the tool results answer exactly
  the calls, each once; and unless the run was cancelled there is exactly one \<open>result\<close> record, it
  reports failure exactly when the process failed, and no record after it carries content.\<close>
theorem claude_valid_run:
  assumes "audit_normalized_invocation (stateless (claude_normalize json_loads iid)) () raws
      (new_guard iid CLAUDE (proof_eval_policy nav False) default_requirements) process_exit cancelled
      = Inr (g', a)"
    and "audit_valid a"
  shows "(\<forall>raw \<in> set raws. \<forall>b \<in> set (blocks_of_type ''tool_use'' (claude_blocks json_loads ''assistant'' raw)).
       \<exists>server tool. jget b ''name'' = JStr (''mcp__'' @ server @ ''__'' @ tool)
         \<and> \<lparr>ti_server = py_strip server, ti_tool = py_strip tool\<rparr> \<in> set (manifest_tool_identities nav))
    \<and> distinct (tool_use_ids json_loads raws) \<and> distinct (tool_result_ids json_loads raws)
    \<and> set (tool_result_ids json_loads raws) = set (tool_use_ids json_loads raws)
    \<and> (cancelled \<or> (\<exists>front r rest. raws = front @ r # rest \<and> claude_type json_loads r = ''result''
        \<and> (claude_failed (claude_record json_loads r) \<longleftrightarrow> process_exit \<noteq> Some 0)
        \<and> (\<forall>x \<in> set front. claude_type json_loads x \<noteq> ''result'')
        \<and> (\<forall>x \<in> set rest. claude_type json_loads x \<noteq> ''result''
            \<and> claude_blocks json_loads ''assistant'' x = [] \<and> claude_blocks json_loads ''user'' x = [])))"
proof -
  let ?N = "claude_normalize json_loads iid"
  let ?ps = "protocol_events (events_of ?N raws)"
  note va = claude.valid_audit [OF assms]
  note ids = claude_trace_ids [OF va(1)]
  note tools = trace_ok_tools [OF va(2)]
  have permitted: "\<exists>server tool. jget b ''name'' = JStr (''mcp__'' @ server @ ''__'' @ tool)
         \<and> \<lparr>ti_server = py_strip server, ti_tool = py_strip tool\<rparr> \<in> set (manifest_tool_identities nav)"
    if raw: "raw \<in> set raws" and b: "b \<in> set (blocks_of_type ''tool_use'' (claude_blocks json_loads ''assistant'' raw))"
    for raw b
  proof -
    obtain es where es: "?N raw = Inr (es, [])" using va(1) raw by blast
    have "set es \<subseteq> set (events_of ?N raws)" using raw es by (force simp: events_of_def)
    then have "\<forall>e \<in> set es. ev_kind e = TOOL_STARTED \<longrightarrow> tool_permitted (proof_eval_policy nav False) e"
      using tools by (auto simp: protocol_events_def)
    from claude_block_permitted [OF es this b] show ?thesis .
  qed
  have ending: "cancelled \<or> (\<exists>front r rest. raws = front @ r # rest \<and> claude_type json_loads r = ''result''
        \<and> (claude_failed (claude_record json_loads r) \<longleftrightarrow> process_exit \<noteq> Some 0)
        \<and> (\<forall>x \<in> set front. claude_type json_loads x \<noteq> ''result'')
        \<and> (\<forall>x \<in> set rest. claude_type json_loads x \<noteq> ''result''
            \<and> claude_blocks json_loads ''assistant'' x = [] \<and> claude_blocks json_loads ''user'' x = []))"
  proof (cases cancelled)
    case c: False
    with va(3) obtain k where k: "terminals_of ?ps = [k]"
      by (auto simp: ending_ok_def default_requirements_def length_Suc_conv)
    have x: "(k = TERMINAL_COMPLETED \<longrightarrow> process_exit = Some 0) \<and> (k = TERMINAL_FAILED \<longrightarrow> process_exit \<noteq> Some 0)"
      using ending_ok_exit [OF va(3) c] k by (auto simp: default_requirements_def)
    from claude_terminal_record [OF va(1,2) k] x show ?thesis by (intro disjI2) (elim exE conjE, auto split: if_splits)
  qed simp
  show ?thesis
    using permitted ending tools ids va(3) by (intro conjI) (auto simp: ending_ok_def)
qed

definition sample_claude_log :: "raw_record list" where
  "sample_claude_log =
     [RawValue (JObj [(''type'', JStr ''system''), (''subtype'', JStr ''init''), (''session_id'', JStr ''s'')]),
      RawValue (JObj [(''type'', JStr ''assistant''), (''message'', JObj [(''content'', JList
        [JObj [(''type'', JStr ''tool_use''), (''id'', JStr ''c''),
               (''name'', JStr ''mcp__proof_node_manager__submit_proof_intent'')]])])]),
      RawValue (JObj [(''type'', JStr ''user''), (''message'', JObj [(''content'', JList
        [JObj [(''type'', JStr ''tool_result''), (''tool_use_id'', JStr ''c'')]])])]),
      RawValue (JObj [(''type'', JStr ''result''), (''result'', JStr ''ok'')])]"

definition sample_claude_audit :: "guard_error + (guard \<times> event_audit)" where
  "sample_claude_audit = audit_normalized_invocation (stateless (claude_normalize Inl ''i1'')) ()
     sample_claude_log (new_guard ''i1'' CLAUDE (proof_eval_policy False False) default_requirements)
     (Some 0) False"

lemma sample_claude_valid: "case sample_claude_audit of Inl _ \<Rightarrow> False | Inr (g', a) \<Rightarrow> audit_valid a"
  by code_simp

theorem claude_valid_run_witness:
  "(case sample_claude_audit of Inl _ \<Rightarrow> False | Inr (g', a) \<Rightarrow> audit_valid a)
   \<and> set (tool_result_ids Inl sample_claude_log) = set (tool_use_ids Inl sample_claude_log)"
proof -
  obtain g' a where "sample_claude_audit = Inr (g', a)" "audit_valid a"
    using sample_claude_valid by (auto split: sum.splits prod.splits)
  from claude_valid_run [OF this [unfolded sample_claude_audit_def]] sample_claude_valid show ?thesis by blast
qed

text \<open>Two malformed blocks leave the normalizer by an exception instead of a violation: a tool name
  that is blank but not empty, and a block type that has no hash.\<close>

lemma claude_malformed_raises:
  "claude_normalize json_loads iid (RawValue (JObj [(''type'', JStr ''assistant''), (''message'',
     JObj [(''content'', JList [JObj [(''type'', JStr ''tool_use''), (''name'', JStr '' '')]])])]))
   = Inl (ValueError ''tool name identity must be a non-empty string'')"
  "claude_normalize json_loads iid (RawValue (JObj [(''type'', JStr ''assistant''), (''message'',
     JObj [(''content'', JList [JObj [(''type'', JList [])]])])]))
   = Inl (TypeError ''unhashable type'')"
  by code_simp+

end
