(* ===== verification/Codex_Events.thy ===== *)
theory Codex_Events
  imports Event_Normalizers Progress_Capsule
begin

text \<open>
  The Codex instance of the normalizer interface and the audits built on it
  (\<^verbatim>\<open>src/workflow/provider/codex_event_normalizer.py\<close>): one invocation, an append log that holds
  several invocations, and the redacted structural observation of one \<open>codex exec --json\<close> output.
  The recognizer of an empty discovery result decodes a text it is given and looks at the value
  again; its fuel is the weight of the value, and a decoder that does not give a value heavier than its text
  never exhausts it.
\<close>

section \<open>Host metadata\<close>

definition CODEX :: str where "CODEX = ''codex''"

definition CODEX_HOST_METADATA_TOOLS :: "str list" where
  "CODEX_HOST_METADATA_TOOLS = [''list_mcp_resources'', ''list_mcp_resource_templates'']"

definition CODEX_TOOL_ITEMS :: "str list" where
  "CODEX_TOOL_ITEMS = [''command_execution'', ''file_change'', ''mcp_tool_call'', ''todo_list'', ''web_search'']"

definition raw_arguments :: "(str \<times> json) list \<Rightarrow> json" where
  "raw_arguments item =
     (if ''arguments'' \<in> set (dict_keys item) then jget item ''arguments'' else jget item ''input'')"

definition metadata_arguments_object :: "(str \<times> json) list \<Rightarrow> str \<Rightarrow> bool" where
  "metadata_arguments_object d private_server \<longleftrightarrow>
     list_all (\<lambda>k. k = ''server'' \<or> k = ''cursor'') (dict_keys d)
     \<and> jget d ''server'' \<in> {JNull, JStr [], JStr private_server}
     \<and> (jget d ''cursor'' = JNull \<or> py_is_str (jget d ''cursor''))"

definition valid_host_metadata_arguments :: "(str \<Rightarrow> str + json) \<Rightarrow> json \<Rightarrow> str \<Rightarrow> bool" where
  "valid_host_metadata_arguments json_loads raw private_server =
     (if raw = JNull \<or> raw = JStr [] then True
      else case (case raw of JStr t \<Rightarrow> json_loads t | _ \<Rightarrow> Inr raw) of
          Inl msg \<Rightarrow> False
        | Inr (JObj d) \<Rightarrow> metadata_arguments_object d private_server
        | Inr _ \<Rightarrow> False)"

definition EXACT_EMPTY_METADATA_TEXT :: "str list" where
  "EXACT_EMPTY_METADATA_TEXT =
     [''method not found'', ''mcp method not found'', ''unknown mcp method'', ''no resources'',
      ''no resources found'', ''no mcp resources'', ''no resource templates'',
      ''no resource templates found'', ''no mcp resource templates'', ''does not support resources'',
      ''does not support resource templates'']"

text \<open>\<open>all(...)\<close> over a test that may raise, stopping at the first failure.\<close>

fun all_checks :: "('a \<Rightarrow> guard_error + bool) \<Rightarrow> 'a list \<Rightarrow> guard_error + bool" where
  "all_checks p [] = Inr True"
| "all_checks p (x # xs) =
     (case p x of Inl err \<Rightarrow> Inl err | Inr ok \<Rightarrow> if ok then all_checks p xs else Inr False)"

text \<open>One key of a result object; \<open>again\<close> is the recursive call.\<close>

definition metadata_member_empty :: "(json \<Rightarrow> guard_error + bool) \<Rightarrow> str \<times> json \<Rightarrow> guard_error + bool" where
  "metadata_member_empty again kv =
     (let key = py_lower (filter (\<lambda>c. c \<noteq> CHR ''_'') (fst kv)); member = snd kv in
      if key \<in> {''resources'', ''resourcetemplates''} then Inr (member \<in> {JNull, JList [], JObj []})
      else if key \<in> {''uri'', ''resource'', ''resourcelink''} then Inr False
      else if key \<in> {''content'', ''structuredcontent'', ''result'', ''output'', ''error'', ''message'', ''text''}
      then again member
      else if key = ''type'' then Inr (member = JStr ''text'')
      else if key = ''iserror'' then Inr (case member of JBool _ \<Rightarrow> True | _ \<Rightarrow> False)
      else if key = ''code'' then Inr (py_eq_int member (-32601))
      else if key \<in> {''nextcursor'', ''cursor''} then Inr (member \<in> {JNull, JStr []})
      else if key = ''status''
      then Inr (member \<in> {JNull, JStr [], JStr ''unsupported'', JStr ''completed'', JStr ''error''})
      else Inr False)"

fun empty_metadata :: "nat \<Rightarrow> (str \<Rightarrow> str + json) \<Rightarrow> json \<Rightarrow> guard_error + bool" where
  "empty_metadata 0 json_loads value = Inl (RuntimeError ''maximum recursion depth exceeded'')"
| "empty_metadata (Suc n) json_loads value =
     (if value \<in> {JNull, JStr [], JList [], JObj []} then Inr True
      else case value of
          JStr s \<Rightarrow>
            (let t = py_strip s in
             if t = [] then Inr True
             else case json_loads t of
                 Inl msg \<Rightarrow> Inr (List.member EXACT_EMPTY_METADATA_TEXT (py_join '' '' (py_split (py_lower t))))
               | Inr decoded \<Rightarrow> empty_metadata n json_loads decoded)
        | JList members \<Rightarrow> all_checks (empty_metadata n json_loads) members
        | JObj d \<Rightarrow> all_checks (metadata_member_empty (empty_metadata n json_loads)) d
        | _ \<Rightarrow> Inr False)"

fun json_weight :: "json \<Rightarrow> nat" where
  "json_weight (JStr t) = Suc (length t)"
| "json_weight (JList js) = Suc (sum_list (map json_weight js))"
| "json_weight (JObj d) = Suc (sum_list (map (\<lambda>kv. json_weight (snd kv)) d))"
| "json_weight j = 1"

definition empty_host_metadata_result :: "(str \<Rightarrow> str + json) \<Rightarrow> json \<Rightarrow> guard_error + bool" where
  "empty_host_metadata_result json_loads value = empty_metadata (json_weight value) json_loads value"

section \<open>The Codex normalizer\<close>

definition codex_tool_identity ::
  "str \<Rightarrow> (str \<times> json) list \<Rightarrow> guard_error + (tool_identity option \<times> str)" where
  "codex_tool_identity item_type item =
     (if item_type \<noteq> ''mcp_tool_call''
      then map_sum id (\<lambda>t. (Some t, ''provider_tool:'' @ item_type)) (ToolIdentity ''codex'' item_type)
      else
        (let server = jget item ''server'';
             tool = (case jget item ''tool'' of JStr (c # cs) \<Rightarrow> JStr (c # cs) | _ \<Rightarrow> jget item ''name'')
         in case (server, tool) of
             (JStr (a # as), JStr (b # bs)) \<Rightarrow>
               (case ToolIdentity (a # as) (b # bs) of
                  Inl err \<Rightarrow> Inl err
                | Inr identity \<Rightarrow>
                    Inr (Some identity,
                      if ti_server identity = CODEX \<and> List.member CODEX_HOST_METADATA_TOOLS (ti_tool identity)
                      then HOST_METADATA_CAPABILITY else ''mcp_tool''))
           | _ \<Rightarrow> Inr (None, [])))"

definition codex_tool_item ::
  "(str \<Rightarrow> str + json) \<Rightarrow> str \<Rightarrow> str \<Rightarrow> str \<Rightarrow> (str \<times> json) list \<Rightarrow> normalization" where
  "codex_tool_item json_loads iid event_type item_type item =
     (case codex_tool_identity item_type item of
        Inl err \<Rightarrow> Inl err
      | Inr (tool, capability) \<Rightarrow>
          (let common = (\<lambda>k. (base_event iid CODEX event_type k)
                 \<lparr>ev_item_id := str_field (jget item ''id''), ev_tool := tool, ev_capability := capability\<rparr>)
           in if event_type = ''item.started'' then
                one_event ((common TOOL_STARTED)
                  \<lparr>ev_host_metadata_arguments_valid :=
                     (if capability = HOST_METADATA_CAPABILITY
                      then Some (valid_host_metadata_arguments json_loads (raw_arguments item)
                                   (ti_server PROOF_TOOL_IDENTITY))
                      else None)\<rparr>)
              else
                (let result = (if jget item ''result'' = JNull then jget item ''output'' else jget item ''result'')
                 in case empty_host_metadata_result json_loads result of
                     Inl err \<Rightarrow> Inl err
                   | Inr blank \<Rightarrow>
                       one_event ((common TOOL_COMPLETED)\<lparr>ev_host_metadata_result_empty := Some blank\<rparr>))))"

definition codex_normalize_item ::
  "(str \<Rightarrow> str + json) \<Rightarrow> str \<Rightarrow> str \<Rightarrow> (str \<times> json) list \<Rightarrow> normalization" where
  "codex_normalize_item json_loads iid event_type item =
     (let item_id = str_field (jget item ''id'') in
      case jget item ''type'' of
        JStr item_type \<Rightarrow>
          if item_type = [] then violation ''Codex item type is missing''
          else if item_type = ''error''
          then one_event ((base_event iid CODEX event_type PROVIDER_ERROR)\<lparr>ev_item_id := item_id\<rparr>)
          else if item_type = ''agent_message''
          then one_event ((base_event iid CODEX event_type
                 (if event_type = ''item.completed'' then MESSAGE_COMPLETED else PASSIVE))
                 \<lparr>ev_item_id := item_id\<rparr>)
          else if item_type = ''reasoning''
          then one_event ((base_event iid CODEX event_type PASSIVE)\<lparr>ev_item_id := item_id\<rparr>)
          else if \<not> List.member CODEX_TOOL_ITEMS item_type
          then violation (''unknown Codex item type '' @ repr_str item_type)
          else codex_tool_item json_loads iid event_type item_type item
      | _ \<Rightarrow> violation ''Codex item type is missing'')"

definition codex_normalize :: "(str \<Rightarrow> str + json) \<Rightarrow> str \<Rightarrow> raw_record \<Rightarrow> normalization" where
  "codex_normalize json_loads iid raw =
     (case parse_record ''Codex'' json_loads raw of
        Inl error \<Rightarrow> violation error
      | Inr value \<Rightarrow>
          (case jget value ''type'' of
             JStr event_type \<Rightarrow>
               if event_type = [] then violation ''Codex event type is missing''
               else if event_type = ''thread.started''
               then one_event ((base_event iid CODEX event_type INVOCATION_STARTED)
                      \<lparr>ev_session_id := str_field (jget value ''thread_id'')\<rparr>)
               else if event_type = ''turn.started'' then one_event (base_event iid CODEX event_type TURN_STARTED)
               else if event_type = ''turn.completed''
               then one_event (base_event iid CODEX event_type TERMINAL_COMPLETED)
               else if event_type = ''turn.failed'' then one_event (base_event iid CODEX event_type TERMINAL_FAILED)
               else if event_type = ''error'' then one_event (base_event iid CODEX event_type PROVIDER_ERROR)
               else if event_type \<noteq> ''item.started'' \<and> event_type \<noteq> ''item.completed''
               then violation (''unknown Codex event type '' @ repr_str event_type)
               else (case jget value ''item'' of
                       JObj item \<Rightarrow> codex_normalize_item json_loads iid event_type item
                     | _ \<Rightarrow> violation ''Codex item event is missing an object item'')
           | _ \<Rightarrow> violation ''Codex event type is missing''))"

definition CodexEventNormalizer ::
  "(str \<Rightarrow> str + json) \<Rightarrow> str \<Rightarrow> guard_error + (raw_record \<Rightarrow> normalization)" where
  "CodexEventNormalizer json_loads iid =
     (if iid = [] then Inl (ValueError ''Codex normalizer requires an invocation identity'')
      else Inr (codex_normalize json_loads iid))"

definition codex_requirements :: lifecycle_requirements where
  "codex_requirements = default_requirements\<lparr>require_turn_started := True\<rparr>"

definition audit_codex_invocation ::
  "(str \<Rightarrow> str + json) \<Rightarrow> bool \<Rightarrow> str \<Rightarrow> int option \<Rightarrow> lifecycle_requirements option
     \<Rightarrow> raw_record list \<Rightarrow> guard_error + event_audit" where
  "audit_codex_invocation json_loads nav iid process_exit requirements records =
     (case CodexEventNormalizer json_loads iid of
        Inl err \<Rightarrow> Inl err
      | Inr norm_ev \<Rightarrow>
          (case guard_init iid CODEX (proof_eval_policy nav True)
             (case requirements of Some r \<Rightarrow> r | None \<Rightarrow> codex_requirements) of
             Inl err \<Rightarrow> Inl err
           | Inr g \<Rightarrow> map_sum id snd
               (audit_normalized_invocation (stateless norm_ev) () records g process_exit False)))"

section \<open>The append log\<close>

definition raw_field :: "(str \<Rightarrow> str + json) \<Rightarrow> str \<Rightarrow> raw_record \<Rightarrow> str" where
  "raw_field json_loads key raw =
     (case parse_record ''Codex'' json_loads raw of Inl _ \<Rightarrow> [] | Inr value \<Rightarrow> str_field (jget value key))"

definition raw_event_type :: "(str \<Rightarrow> str + json) \<Rightarrow> raw_record \<Rightarrow> str" where
  "raw_event_type json_loads raw = raw_field json_loads ''type'' raw"

definition raw_invocation_id :: "(str \<Rightarrow> str + json) \<Rightarrow> raw_record \<Rightarrow> str" where
  "raw_invocation_id json_loads raw = raw_field json_loads ''_shannon_invocation_id'' raw"

record log_scan =
  ls_segments :: "(str \<times> raw_record list) list"
  ls_current :: "raw_record list"
  ls_has_start :: bool
  ls_declared_id :: str

definition scan_start :: log_scan where
  "scan_start = \<lparr>ls_segments = [], ls_current = [], ls_has_start = False, ls_declared_id = []\<rparr>"

text \<open>The body of the loop: close the current segment when the identity changes or a second thread
  starts, then add the record.\<close>

definition close_segment :: "(str \<Rightarrow> str + json) \<Rightarrow> raw_record \<Rightarrow> log_scan \<Rightarrow> log_scan" where
  "close_segment json_loads raw s =
     (let declared_id = raw_invocation_id json_loads raw;
          identity_changed = (declared_id \<noteq> [] \<and> ls_declared_id s \<noteq> [] \<and> declared_id \<noteq> ls_declared_id s)
      in if ls_current s \<noteq> []
            \<and> (identity_changed \<or> (raw_event_type json_loads raw = ''thread.started'' \<and> ls_has_start s))
         then \<lparr>ls_segments = ls_segments s @ [(ls_declared_id s, ls_current s)], ls_current = [],
               ls_has_start = False, ls_declared_id = []\<rparr>
         else s)"

definition scan_record :: "(str \<Rightarrow> str + json) \<Rightarrow> raw_record \<Rightarrow> log_scan \<Rightarrow> guard_error + log_scan" where
  "scan_record json_loads raw s =
     (let declared_id = raw_invocation_id json_loads raw;
          s1 = close_segment json_loads raw s;
          s2 = s1\<lparr>ls_current := ls_current s1 @ [raw]\<rparr>
      in if declared_id \<noteq> [] \<and> ls_declared_id s2 \<noteq> [] \<and> declared_id \<noteq> ls_declared_id s2
         then Inl (ValueError ''Codex event segment crossed invocation identity'')
         else
           (let s3 = (if declared_id \<noteq> [] then s2\<lparr>ls_declared_id := declared_id\<rparr> else s2)
            in Inr (if raw_event_type json_loads raw = ''thread.started'' then s3\<lparr>ls_has_start := True\<rparr> else s3)))"

fun scan_records :: "(str \<Rightarrow> str + json) \<Rightarrow> raw_record list \<Rightarrow> log_scan \<Rightarrow> guard_error + log_scan" where
  "scan_records json_loads [] s = Inr s"
| "scan_records json_loads (raw # raws) s =
     (case scan_record json_loads raw s of Inl err \<Rightarrow> Inl err | Inr s' \<Rightarrow> scan_records json_loads raws s')"

definition log_segments ::
  "(str \<Rightarrow> str + json) \<Rightarrow> raw_record list \<Rightarrow> guard_error + (str \<times> raw_record list) list" where
  "log_segments json_loads records =
     map_sum id (\<lambda>s. ls_segments s @ (if ls_current s \<noteq> [] then [(ls_declared_id s, ls_current s)] else []))
       (scan_records json_loads records scan_start)"

fun sum_all :: "('e + 'a) list \<Rightarrow> 'e + 'a list" where
  "sum_all [] = Inr []"
| "sum_all (x # xs) = (case x of Inl err \<Rightarrow> Inl err | Inr y \<Rightarrow> map_sum id (Cons y) (sum_all xs))"

definition segment_id :: "nat \<Rightarrow> str \<Rightarrow> str" where
  "segment_id index declared_id =
     (if declared_id \<noteq> [] then declared_id else ''offline-codex-invocation-'' @ nat_digits (index + 1))"

definition audit_codex_event_log ::
  "(str \<Rightarrow> str + json) \<Rightarrow> bool \<Rightarrow> lifecycle_requirements option \<Rightarrow> int option list option
     \<Rightarrow> raw_record list \<Rightarrow> guard_error + event_audit list" where
  "audit_codex_event_log json_loads nav requirements process_exits records =
     (case log_segments json_loads records of
        Inl err \<Rightarrow> Inl err
      | Inr segments \<Rightarrow>
          (let exits = (case process_exits of Some xs \<Rightarrow> xs | None \<Rightarrow> []) in
           if exits \<noteq> [] \<and> length exits \<noteq> length segments
           then Inl (ValueError ''Codex process-exit cardinality does not match invocations'')
           else sum_all (map (\<lambda>(index, declared_id, segment).
                  audit_codex_invocation json_loads nav (segment_id index declared_id)
                    (if exits \<noteq> [] then exits ! index else None) requirements segment)
                (enumerate 0 segments))))"

section \<open>The structural observation of one output\<close>

text \<open>\<open>json.dumps(value, ensure_ascii=False, sort_keys=True)\<close> with the default separators.\<close>

fun json_text :: "json \<Rightarrow> str" where
  "json_text JNull = ''null''"
| "json_text (JBool b) = (if b then ''true'' else ''false'')"
| "json_text (JInt i) = int_str i"
| "json_text (JFloat t) = t"
| "json_text (JStr t) = json_quote t"
| "json_text (JList js) = ''['' @ py_join '', '' (map json_text js) @ '']''"
| "json_text (JObj d) =
     ''{'' @ py_join '', '' (map (\<lambda>(k, v). json_quote k @ '': '' @ v)
       (sort_key fst (map (\<lambda>(k, v). (k, json_text v)) d))) @ ''}''"

definition TEXT_KEYS :: "str list" where
  "TEXT_KEYS = [''text'', ''summary'', ''message'', ''aggregated_output'', ''output'', ''result'', ''error'']"

text \<open>The text one key gives, if any; \<open>codex_event_text\<close> takes the first.\<close>

definition key_text :: "json \<Rightarrow> str option" where
  "key_text item =
     (case item of
        JStr t \<Rightarrow> if py_strip t \<noteq> [] then Some (py_strip t) else None
      | JList js \<Rightarrow>
          if js = [] then None
          else
            (let joined = py_strip (py_join [newline] (filter (\<lambda>p. py_strip p \<noteq> []) (map str_field js)))
             in if list_all py_is_str js \<and> joined \<noteq> [] then Some joined else Some (json_text item))
      | JObj d \<Rightarrow> if d = [] then None else Some (json_text item)
      | _ \<Rightarrow> None)"

fun first_key_text :: "(str \<times> json) list \<Rightarrow> str list \<Rightarrow> str" where
  "first_key_text value [] = []"
| "first_key_text value (k # ks) =
     (case key_text (jget value k) of Some t \<Rightarrow> t | None \<Rightarrow> first_key_text value ks)"

definition codex_event_text :: "(str \<times> json) list \<Rightarrow> str" where
  "codex_event_text value = first_key_text value TEXT_KEYS"

definition canonical_category :: "agent_event \<Rightarrow> str \<Rightarrow> str" where
  "canonical_category e item_type =
     (if ev_kind e \<in> {TOOL_STARTED, TOOL_COMPLETED} then ''tool''
      else if ev_kind e = MESSAGE_COMPLETED then ''assistant_message''
      else if ev_kind e = PROVIDER_ERROR then ''provider_error''
      else if ev_kind e = PASSIVE \<and> item_type = ''reasoning'' then ''reasoning''
      else ''lifecycle'')"

definition count_up :: "str \<Rightarrow> (str, nat) dict \<Rightarrow> (str, nat) dict" where
  "count_up k d = dict_set k (case dict_get d k of Some n \<Rightarrow> Suc n | None \<Rightarrow> 1) d"

record codex_scan =
  cs_guard :: guard
  cs_events :: "(str \<times> json) list list"
  cs_invalid_lines :: "json list"
  cs_normalization_errors :: "str list"
  cs_event_type_counts :: "(str, nat) dict"
  cs_item_type_counts :: "(str, nat) dict"
  cs_category_counts :: "(str, nat) dict"
  cs_structural_trace :: "json list"
  cs_provider_errors :: "json list"
  cs_protocol_unknowns :: "json list"
  cs_tool_item_types :: "str list"
  cs_completed_messages :: nat

definition STRUCTURAL_ID :: str where "STRUCTURAL_ID = ''offline-codex-structural''"

definition structural_policy :: capability_policy where
  "structural_policy = \<lparr>allowed_tools = [], allowed_provider_capabilities = [],
     allow_empty_host_metadata = False, allow_all_known_tools = True\<rparr>"

definition structural_requirements :: lifecycle_requirements where
  "structural_requirements = default_requirements\<lparr>require_turn_started := True,
     require_process_exit := False, fail_on_provider_error := False\<rparr>"

definition codex_scan_start :: codex_scan where
  "codex_scan_start =
     \<lparr>cs_guard = new_guard STRUCTURAL_ID CODEX structural_policy structural_requirements,
      cs_events = [], cs_invalid_lines = [], cs_normalization_errors = [], cs_event_type_counts = [],
      cs_item_type_counts = [], cs_category_counts = [], cs_structural_trace = [],
      cs_provider_errors = [], cs_protocol_unknowns = [], cs_tool_item_types = [],
      cs_completed_messages = 0\<rparr>"

text \<open>A line that is no JSON object: the reason is noted three times.\<close>

definition note_invalid_line :: "(str \<Rightarrow> str) \<Rightarrow> nat \<Rightarrow> str \<Rightarrow> str \<Rightarrow> str \<Rightarrow> codex_scan \<Rightarrow> codex_scan" where
  "note_invalid_line sha256 line_number line error reason s =
     s\<lparr>cs_invalid_lines := cs_invalid_lines s @
         [JObj [(''line'', JInt (int line_number)), (''error'', JStr error), (''line_sha256'', JStr (sha256 line))]],
       cs_normalization_errors := cs_normalization_errors s @ [reason],
       cs_guard := record_violation reason (cs_guard s)\<rparr>"

definition note_unknown :: "nat \<Rightarrow> str \<Rightarrow> str \<Rightarrow> codex_scan \<Rightarrow> str \<Rightarrow> codex_scan" where
  "note_unknown index event_type item_type s reason =
     s\<lparr>cs_normalization_errors := cs_normalization_errors s @ [reason],
       cs_guard := record_violation reason (cs_guard s),
       cs_protocol_unknowns := cs_protocol_unknowns s @
         [JObj [(''index'', JInt (int index)), (''event_type'', JStr event_type),
                (''item_type'', JStr item_type), (''reason'', JStr reason)]]\<rparr>"

definition note_event ::
  "(str \<Rightarrow> str) \<Rightarrow> (str \<times> json) list \<Rightarrow> str \<Rightarrow> (str \<times> json) list \<Rightarrow> codex_scan \<Rightarrow> agent_event \<Rightarrow> codex_scan" where
  "note_event sha256 trace item_type text_source s e =
     (let s1 = s\<lparr>cs_guard := fst (observe e (cs_guard s))\<rparr> in
      if ev_kind e \<in> {TOOL_STARTED, TOOL_COMPLETED} then
        (if item_type \<noteq> [] then s1\<lparr>cs_tool_item_types := cs_tool_item_types s1 @ [item_type]\<rparr> else s1)
      else if ev_kind e = MESSAGE_COMPLETED
      then s1\<lparr>cs_completed_messages := Suc (cs_completed_messages s1)\<rparr>
      else if ev_kind e = PROVIDER_ERROR then
        (let message = codex_event_text text_source
         in s1\<lparr>cs_provider_errors := cs_provider_errors s1 @
              [JObj (trace @ [(''message'', JStr (take 2000 message)), (''message_sha256'', JStr (sha256 message))])]\<rparr>)
      else s1)"

definition event_category :: "agent_event list \<Rightarrow> str \<Rightarrow> str" where
  "event_category evs item_type =
     (case remdups (map (\<lambda>e. canonical_category e item_type) evs) of
        [] \<Rightarrow> ''unknown_event'' | [c] \<Rightarrow> c | _ \<Rightarrow> ''mixed'')"

definition scan_value ::
  "(str \<Rightarrow> str) \<Rightarrow> (str \<Rightarrow> str + json) \<Rightarrow> (str \<times> json) list \<Rightarrow> codex_scan \<Rightarrow> guard_error + codex_scan" where
  "scan_value sha256 json_loads value s =
     (let index = length (cs_events s);
          event_type = str_or_empty (jget value ''type'');
          item = (case jget value ''item'' of JObj d \<Rightarrow> d | _ \<Rightarrow> []);
          item_type = str_or_empty (jget item ''type'');
          status = str_or_empty (py_or (jget item ''status'') (jget value ''status''));
          s1 = s\<lparr>cs_events := cs_events s @ [value],
                 cs_event_type_counts :=
                   count_up (if event_type \<noteq> [] then event_type else ''<missing>'') (cs_event_type_counts s),
                 cs_item_type_counts :=
                   (if item_type \<noteq> [] then count_up item_type (cs_item_type_counts s) else cs_item_type_counts s)\<rparr>
      in case codex_normalize json_loads STRUCTURAL_ID (RawValue (JObj value)) of
          Inl err \<Rightarrow> Inl err
        | Inr (evs, reasons) \<Rightarrow>
            (let s2 = foldl (note_unknown index event_type item_type) s1 reasons;
                 category = event_category evs item_type;
                 trace = [(''index'', JInt (int index)), (''event_type'', JStr event_type), (''category'', JStr category)]
                   @ (if item_type \<noteq> [] then [(''item_type'', JStr item_type)] else [])
                   @ (if status \<noteq> [] then [(''status'', JStr status)] else []);
                 s3 = s2\<lparr>cs_category_counts := count_up category (cs_category_counts s2),
                         cs_structural_trace := cs_structural_trace s2 @ [JObj trace]\<rparr>
             in Inr (foldl (note_event sha256 trace item_type (if item \<noteq> [] then item else value)) s3 evs)))"

definition scan_line ::
  "(str \<Rightarrow> str) \<Rightarrow> (str \<Rightarrow> str + json) \<Rightarrow> nat \<Rightarrow> str \<Rightarrow> codex_scan \<Rightarrow> guard_error + codex_scan" where
  "scan_line sha256 json_loads line_number line s =
     (if py_strip line = [] then Inr s
      else case json_loads line of
          Inl msg \<Rightarrow>
            Inr (note_invalid_line sha256 line_number line msg (''invalid Codex JSON event: '' @ msg) s)
        | Inr (JObj value) \<Rightarrow> scan_value sha256 json_loads value s
        | Inr _ \<Rightarrow>
            Inr (note_invalid_line sha256 line_number line ''JSONL event is not an object''
                   ''Codex JSON event is not an object'' s))"

fun scan_lines ::
  "(str \<Rightarrow> str) \<Rightarrow> (str \<Rightarrow> str + json) \<Rightarrow> nat \<Rightarrow> str list \<Rightarrow> codex_scan \<Rightarrow> guard_error + codex_scan" where
  "scan_lines sha256 json_loads n [] s = Inr s"
| "scan_lines sha256 json_loads n (line # ls) s =
     (case scan_line sha256 json_loads n line s of
        Inl err \<Rightarrow> Inl err
      | Inr s' \<Rightarrow> scan_lines sha256 json_loads (Suc n) ls s')"

record codex_observation =
  co_protocol_valid :: bool
  co_stdout_sha256 :: str
  co_stdout_bytes :: nat
  co_stderr_sha256 :: str
  co_stderr_bytes :: nat
  co_stderr_nonempty :: bool
  co_parsed_event_count :: nat
  co_completed_agent_message_count :: nat
  co_invalid_jsonl_lines :: "json list"
  co_event_type_counts :: "(str, nat) dict"
  co_item_type_counts :: "(str, nat) dict"
  co_category_counts :: "(str, nat) dict"
  co_structural_trace :: "json list"
  co_tool_item_types :: "str list"
  co_provider_errors :: "json list"
  co_protocol_unknowns :: "json list"
  co_cardinality_errors :: "str list"

definition observe_codex_jsonl_invocation ::
  "(str \<Rightarrow> str) \<Rightarrow> (str \<Rightarrow> str + json) \<Rightarrow> str \<Rightarrow> str
     \<Rightarrow> guard_error + ((str \<times> json) list list \<times> codex_observation)" where
  "observe_codex_jsonl_invocation sha256 json_loads out err_text =
     (case scan_lines sha256 json_loads 1 (py_splitlines out) codex_scan_start of
        Inl err \<Rightarrow> Inl err
      | Inr s \<Rightarrow>
          (case finish None False (cs_guard s) of
             Inl err \<Rightarrow> Inl err
           | Inr (g, lifecycle) \<Rightarrow>
               (let cardinality_errors = foldl (\<lambda>vs reason. remove1 reason vs) (au_violations lifecycle)
                      (cs_normalization_errors s)
                in Inr (cs_events s,
                  \<lparr>co_protocol_valid = (cs_invalid_lines s = [] \<and> cs_protocol_unknowns s = []
                     \<and> cardinality_errors = []),
                   co_stdout_sha256 = sha256 out, co_stdout_bytes = utf8_len out,
                   co_stderr_sha256 = sha256 err_text, co_stderr_bytes = utf8_len err_text,
                   co_stderr_nonempty = (py_strip err_text \<noteq> []),
                   co_parsed_event_count = length (cs_events s),
                   co_completed_agent_message_count = cs_completed_messages s,
                   co_invalid_jsonl_lines = cs_invalid_lines s,
                   co_event_type_counts = sort_key fst (cs_event_type_counts s),
                   co_item_type_counts = sort_key fst (cs_item_type_counts s),
                   co_category_counts = sort_key fst (cs_category_counts s),
                   co_structural_trace = cs_structural_trace s,
                   co_tool_item_types = sort (remdups (cs_tool_item_types s)),
                   co_provider_errors = cs_provider_errors s,
                   co_protocol_unknowns = cs_protocol_unknowns s,
                   co_cardinality_errors = cardinality_errors\<rparr>))))"

section \<open>Segments\<close>

definition is_thread_start :: "(str \<Rightarrow> str + json) \<Rightarrow> raw_record \<Rightarrow> bool" where
  "is_thread_start json_loads raw \<longleftrightarrow> raw_event_type json_loads raw = ''thread.started''"

text \<open>One invocation: at most one thread, and no record declares another invocation.\<close>

definition segment_ok :: "(str \<Rightarrow> str + json) \<Rightarrow> str \<times> raw_record list \<Rightarrow> bool" where
  "segment_ok json_loads seg \<longleftrightarrow> snd seg \<noteq> []
     \<and> (\<forall>r \<in> set (snd seg). raw_invocation_id json_loads r \<in> {[], fst seg})
     \<and> (fst seg \<noteq> [] \<longrightarrow> (\<exists>r \<in> set (snd seg). raw_invocation_id json_loads r = fst seg))
     \<and> length (filter (is_thread_start json_loads) (snd seg)) \<le> 1"

definition scan_inv :: "(str \<Rightarrow> str + json) \<Rightarrow> raw_record list \<Rightarrow> log_scan \<Rightarrow> bool" where
  "scan_inv json_loads seen s \<longleftrightarrow>
     concat (map snd (ls_segments s)) @ ls_current s = seen
     \<and> (\<forall>seg \<in> set (ls_segments s). segment_ok json_loads seg)
     \<and> (if ls_current s = [] then ls_declared_id s = [] \<and> \<not> ls_has_start s
        else segment_ok json_loads (ls_declared_id s, ls_current s))
     \<and> (ls_has_start s \<longleftrightarrow> (\<exists>r \<in> set (ls_current s). is_thread_start json_loads r))"

lemma scan_inv_start: "scan_inv json_loads [] scan_start"
  by (simp add: scan_inv_def scan_start_def)

text \<open>After closing, the record fits into the current segment.\<close>

lemma close_segment_inv:
  assumes "scan_inv json_loads seen s"
  shows "scan_inv json_loads seen (close_segment json_loads raw s)
    \<and> (raw_invocation_id json_loads raw \<noteq> [] \<longrightarrow> ls_declared_id (close_segment json_loads raw s) \<noteq> [] \<longrightarrow>
        raw_invocation_id json_loads raw = ls_declared_id (close_segment json_loads raw s))
    \<and> (is_thread_start json_loads raw \<longrightarrow> \<not> ls_has_start (close_segment json_loads raw s))"
proof (cases "close_segment json_loads raw s = s")
  case True
  then show ?thesis
    using assms by (auto simp: close_segment_def scan_inv_def is_thread_start_def Let_def split: if_splits)
next
  case False
  then have "ls_current s \<noteq> []" "close_segment json_loads raw s =
      \<lparr>ls_segments = ls_segments s @ [(ls_declared_id s, ls_current s)], ls_current = [],
       ls_has_start = False, ls_declared_id = []\<rparr>"
    by (auto simp: close_segment_def Let_def split: if_splits)
  with assms show ?thesis by (auto simp: scan_inv_def)
qed

lemma scan_record_ok:
  assumes inv: "scan_inv json_loads seen s"
  shows "\<exists>s'. scan_record json_loads raw s = Inr s' \<and> scan_inv json_loads (seen @ [raw]) s'"
proof -
  let ?c = "close_segment json_loads raw s" and ?d = "raw_invocation_id json_loads raw"
  note c = close_segment_inv [OF inv, of raw]
  have cur: "ls_current ?c \<noteq> [] \<Longrightarrow> segment_ok json_loads (ls_declared_id ?c, ls_current ?c)"
    "ls_current ?c = [] \<Longrightarrow> ls_declared_id ?c = []"
    using c by (auto simp: scan_inv_def split: if_splits)
  let ?id = "if ?d \<noteq> [] then ?d else ls_declared_id ?c"
  have one: "length (filter (is_thread_start json_loads) (ls_current ?c @ [raw])) \<le> 1"
  proof (cases "is_thread_start json_loads raw")
    case True
    with c have "\<forall>r \<in> set (ls_current ?c). \<not> is_thread_start json_loads r" by (auto simp: scan_inv_def)
    then show ?thesis by (simp add: filter_empty_conv)
  next
    case False
    with cur show ?thesis by (cases "ls_current ?c = []") (auto simp: segment_ok_def)
  qed
  have seg: "segment_ok json_loads (?id, ls_current ?c @ [raw])"
    using one cur c by (cases "ls_current ?c = []") (auto simp: segment_ok_def)
  let ?s = "?c\<lparr>ls_current := ls_current ?c @ [raw], ls_declared_id := ?id,
    ls_has_start := (is_thread_start json_loads raw \<or> ls_has_start ?c)\<rparr>"
  have "scan_record json_loads raw s = Inr ?s"
    using c by (cases ?c) (auto simp: scan_record_def Let_def is_thread_start_def)
  moreover have "scan_inv json_loads (seen @ [raw]) ?s"
    using c seg by (auto simp: scan_inv_def)
  ultimately show ?thesis by blast
qed

lemma scan_records_ok:
  "scan_inv json_loads seen s \<Longrightarrow>
     \<exists>s'. scan_records json_loads raws s = Inr s' \<and> scan_inv json_loads (seen @ raws) s'"
proof (induction raws arbitrary: seen s)
  case (Cons raw raws)
  from scan_record_ok [OF Cons.prems, of raw] obtain s' where
    s': "scan_record json_loads raw s = Inr s'" "scan_inv json_loads (seen @ [raw]) s'" by blast
  from Cons.IH [OF s'(2)] s'(1) show ?case by simp
qed simp

lemma log_segments_ok:
  "\<exists>segs. log_segments json_loads records = Inr segs \<and> concat (map snd segs) = records
     \<and> (\<forall>seg \<in> set segs. segment_ok json_loads seg)"
proof -
  from scan_records_ok [OF scan_inv_start, of json_loads records] obtain s
    where s: "scan_records json_loads records scan_start = Inr s" "scan_inv json_loads records s" by auto
  then show ?thesis by (cases "ls_current s = []") (auto simp: log_segments_def scan_inv_def)
qed

lemma sum_all_Inr: "sum_all xs = Inr ys \<longleftrightarrow> xs = map Inr ys"
proof (induction xs arbitrary: ys)
  case (Cons x xs)
  show ?case
  proof (cases x)
    case (Inr y)
    with Cons show ?thesis by (cases "sum_all xs") (auto simp: Cons_eq_map_conv)
  qed auto
qed auto

section \<open>What the Codex normalizer gives\<close>

definition codex_item :: "(str \<Rightarrow> str + json) \<Rightarrow> raw_record \<Rightarrow> (str \<times> json) list" where
  "codex_item json_loads raw =
     (case parse_record ''Codex'' json_loads raw of
        Inr value \<Rightarrow> (case jget value ''item'' of JObj item \<Rightarrow> item | _ \<Rightarrow> []) | Inl _ \<Rightarrow> [])"

definition codex_item_type :: "(str \<Rightarrow> str + json) \<Rightarrow> raw_record \<Rightarrow> str" where
  "codex_item_type json_loads raw = str_field (jget (codex_item json_loads raw) ''type'')"

definition item_event_type :: "str \<Rightarrow> bool" where
  "item_event_type t \<longleftrightarrow> t = ''item.started'' \<or> t = ''item.completed''"

definition item_event :: "(str \<Rightarrow> str + json) \<Rightarrow> str \<Rightarrow> str \<Rightarrow> (str \<times> json) list \<Rightarrow> agent_event \<Rightarrow> bool" where
  "item_event json_loads iid t item e \<longleftrightarrow>
     (let it = str_field (jget item ''type'') in
      if it = ''error'' then ev_kind e = PROVIDER_ERROR
      else if it = ''agent_message'' then ev_kind e = MESSAGE_COMPLETED \<or> ev_kind e = PASSIVE
      else if it = ''reasoning'' then ev_kind e = PASSIVE
      else List.member CODEX_TOOL_ITEMS it \<and> codex_tool_item json_loads iid t it item = Inr ([e], []))"

definition codex_event :: "(str \<Rightarrow> str + json) \<Rightarrow> str \<Rightarrow> raw_record \<Rightarrow> agent_event \<Rightarrow> bool" where
  "codex_event json_loads iid raw e \<longleftrightarrow>
     (let t = raw_event_type json_loads raw in
      bound_to iid CODEX e \<and>
      (if item_event_type t then item_event json_loads iid t (codex_item json_loads raw) e
       else (t, ev_kind e) \<in> {(''thread.started'', INVOCATION_STARTED), (''turn.started'', TURN_STARTED),
              (''turn.completed'', TERMINAL_COMPLETED), (''turn.failed'', TERMINAL_FAILED),
              (''error'', PROVIDER_ERROR)}))"

lemma codex_parse_error_nonblank: "parse_record ''Codex'' json_loads raw = Inl err \<Longrightarrow> py_strip err \<noteq> []"
  unfolding parse_record_def
  by (auto simp: py_strip_Nil_iff py_isspace_def split: sum.splits json.splits)

lemma codex_tool_item_one:
  assumes "codex_tool_item json_loads iid t it item = Inr (evs, reasons)"
  obtains e tool cap where "evs = [e]" "reasons = []" "bound_to iid CODEX e"
    "codex_tool_identity it item = Inr (tool, cap)" "ev_tool e = tool" "ev_capability e = cap"
    "ev_item_id e = str_field (jget item ''id'')"
    "ev_kind e = (if t = ''item.started'' then TOOL_STARTED else TOOL_COMPLETED)"
    "t = ''item.started'' \<and> cap = HOST_METADATA_CAPABILITY \<longrightarrow>
       ev_host_metadata_arguments_valid e = Some (valid_host_metadata_arguments json_loads (raw_arguments item)
         (ti_server PROOF_TOOL_IDENTITY))"
proof -
  from assms obtain tool cap where id: "codex_tool_identity it item = Inr (tool, cap)"
    by (cases "codex_tool_identity it item") (auto simp: codex_tool_item_def)
  show thesis
  proof (cases "t = ''item.started''")
    case True
    with assms id show ?thesis
      by (intro that) (auto simp: codex_tool_item_def Let_def one_event_def bound_to_def)
  next
    case False
    define r where "r = (if jget item ''result'' = JNull then jget item ''output'' else jget item ''result'')"
    from False assms id obtain b where "empty_host_metadata_result json_loads r = Inr b"
      by (cases "empty_host_metadata_result json_loads r") (auto simp: codex_tool_item_def Let_def r_def)
    with False assms id show ?thesis
      by (intro that) (auto simp: codex_tool_item_def Let_def one_event_def bound_to_def r_def)
  qed
qed

lemma codex_refusal_nonblank: "py_strip (''Codex '' @ t) \<noteq> []"
  by (simp add: py_strip_Nil_iff py_isspace_def)

lemma codex_item_cases:
  assumes "codex_normalize_item json_loads iid t item = Inr (evs, reasons)"
  shows "(reasons = [] \<and> (\<exists>e. evs = [e] \<and> bound_to iid CODEX e \<and> item_event json_loads iid t item e))
    \<or> (evs = [] \<and> (\<exists>r. reasons = [r] \<and> py_strip r \<noteq> []))"
proof (cases "\<exists>it. jget item ''type'' = JStr it \<and> it \<noteq> []")
  case False
  with assms have "evs = [] \<and> reasons = [''Codex item type is missing'']"
    by (cases "jget item ''type''") (simp_all add: codex_normalize_item_def violation_def Let_def)
  then show ?thesis using codex_refusal_nonblank [of "''item type is missing''"] by simp
next
  case True
  then obtain it where it: "jget item ''type'' = JStr it" "it \<noteq> []" by blast
  consider (err) "it = ''error''" | (msg) "it = ''agent_message''" | (rea) "it = ''reasoning''"
    | (unk) "it \<notin> {''error'', ''agent_message'', ''reasoning''}" "\<not> List.member CODEX_TOOL_ITEMS it"
    | (tol) "it \<notin> {''error'', ''agent_message'', ''reasoning''}" "List.member CODEX_TOOL_ITEMS it" by blast
  then show ?thesis
  proof cases
    case err
    with assms it show ?thesis
      by (auto simp: codex_normalize_item_def item_event_def one_event_def str_field_def bound_to_def Let_def)
  next
    case msg
    with assms it show ?thesis
      by (auto simp: codex_normalize_item_def item_event_def one_event_def str_field_def bound_to_def Let_def)
  next
    case rea
    with assms it show ?thesis
      by (auto simp: codex_normalize_item_def item_event_def one_event_def str_field_def bound_to_def Let_def)
  next
    case unk
    with assms it have "evs = [] \<and> reasons = [''unknown '' @ ''Codex item type '' @ repr_str it]"
      by (simp add: codex_normalize_item_def violation_def Let_def)
    with unknown_nonblank show ?thesis by blast
  next
    case tol
    with assms it have run: "codex_tool_item json_loads iid t it item = Inr (evs, reasons)"
      by (simp add: codex_normalize_item_def Let_def)
    then obtain e where "evs = [e]" "reasons = []" "bound_to iid CODEX e" by (rule codex_tool_item_one)
    with tol it run show ?thesis by (simp add: item_event_def str_field_def Let_def)
  qed
qed

lemma codex_normalize_cases:
  assumes "codex_normalize json_loads iid raw = Inr (evs, reasons)"
  shows "(reasons = [] \<and> (\<exists>e. evs = [e] \<and> codex_event json_loads iid raw e))
    \<or> (evs = [] \<and> (\<exists>r. reasons = [r] \<and> py_strip r \<noteq> []))"
proof (cases "parse_record ''Codex'' json_loads raw")
  case (Inl err)
  with assms codex_parse_error_nonblank [OF Inl] show ?thesis by (auto simp: codex_normalize_def violation_def)
next
  case (Inr d)
  show ?thesis
  proof (cases "\<exists>t. jget d ''type'' = JStr t \<and> t \<noteq> []")
    case False
    with assms Inr have "evs = [] \<and> reasons = [''Codex event type is missing'']"
      by (cases "jget d ''type''") (simp_all add: codex_normalize_def violation_def)
    then show ?thesis using codex_refusal_nonblank [of "''event type is missing''"] by simp
  next
    case True
    then obtain t where t: "jget d ''type'' = JStr t" "t \<noteq> []" by blast
    have r: "raw_event_type json_loads raw = t"
      using Inr t by (simp add: raw_event_type_def raw_field_def str_field_def)
    consider (life) "t \<in> {''thread.started'', ''turn.started'', ''turn.completed'', ''turn.failed'', ''error''}"
      | (itm) "item_event_type t" | (unk) "t \<notin> {''thread.started'', ''turn.started'', ''turn.completed'',
          ''turn.failed'', ''error'', ''item.started'', ''item.completed''}"
      by (auto simp: item_event_type_def)
    then show ?thesis
    proof cases
      case life
      with assms Inr t r show ?thesis
        by (auto simp: codex_normalize_def codex_event_def item_event_type_def one_event_def bound_to_def Let_def)
    next
      case itm
      then have run: "(case jget d ''item'' of JObj item \<Rightarrow> codex_normalize_item json_loads iid t item
          | _ \<Rightarrow> violation ''Codex item event is missing an object item'') = Inr (evs, reasons)"
        using assms Inr t by (auto simp: codex_normalize_def item_event_type_def)
      show ?thesis
      proof (cases "\<exists>item. jget d ''item'' = JObj item")
        case True
        then obtain item where item: "jget d ''item'' = JObj item" by blast
        with run have i: "codex_normalize_item json_loads iid t item = Inr (evs, reasons)" by simp
        have "codex_item json_loads raw = item" using Inr item by (simp add: codex_item_def)
        with codex_item_cases [OF i] itm r show ?thesis
          by (simp add: codex_event_def Let_def)
      next
        case False
        with run have "evs = [] \<and> reasons = [''Codex item event is missing an object item'']"
          by (cases "jget d ''item''") (simp_all add: violation_def)
        then show ?thesis using codex_refusal_nonblank [of "''item event is missing an object item''"] by simp
      qed
    next
      case unk
      with assms Inr t have "evs = [] \<and> reasons = [''unknown '' @ ''Codex event type '' @ repr_str t]"
        by (simp add: codex_normalize_def violation_def)
      with unknown_nonblank show ?thesis by blast
    qed
  qed
qed

interpretation codex: event_normalizer "codex_normalize json_loads iid" iid CODEX for json_loads iid
proof
  fix raw evs reasons e
  assume "codex_normalize json_loads iid raw = Inr (evs, reasons)" "e \<in> set evs"
  from codex_normalize_cases [OF this(1)] this(2) show "bound_to iid CODEX e"
    by (auto simp: codex_event_def Let_def)
next
  fix raw evs reasons r
  assume "codex_normalize json_loads iid raw = Inr (evs, reasons)" "r \<in> set reasons"
  from codex_normalize_cases [OF this(1)] this(2) show "py_strip r \<noteq> []" by auto
qed

section \<open>Runs with a turn start\<close>

lemma trace_ok_event:
  assumes "trace_ok req pol (pre @ e # post)"
  shows "event_ok req pol pre e"
  using assms by (auto simp: trace_ok_def dest: spec [of _ "length pre"])

text \<open>A protocol run that needs a turn start and ends regularly: start, turn, items, terminal.\<close>

lemma turn_run_shape:
  assumes t: "trace_ok codex_requirements pol ps" and e: "ending_ok codex_requirements ps x False"
  shows "\<exists>e0 e1 mid e2. ps = e0 # e1 # mid @ [e2] \<and> ev_kind e0 = INVOCATION_STARTED
    \<and> ev_kind e1 = TURN_STARTED
    \<and> (\<forall>m \<in> set mid. ev_kind m \<in> {TOOL_STARTED, TOOL_COMPLETED, MESSAGE_COMPLETED, PASSIVE, PROVIDER_NOTICE})
    \<and> ev_kind e2 = (if x = Some 0 then TERMINAL_COMPLETED else TERMINAL_FAILED)"
proof -
  note req = codex_requirements_def default_requirements_def
  have inv: "count_kind INVOCATION_STARTED ps = 1" and turn: "count_kind TURN_STARTED ps = 1"
    and trm: "length (terminals_of ps) = 1" and err: "count_kind PROVIDER_ERROR ps = 0"
    using e by (simp_all add: ending_ok_def req)
  from inv obtain e0 ps1 where ps1: "ps = e0 # ps1" by (cases ps) (auto simp: count_kind_def)
  have k0: "ev_kind e0 = INVOCATION_STARTED" using trace_ok_first [OF t] by (simp add: ps1 req)
  with turn obtain e1 ps2 where ps2: "ps1 = e1 # ps2" by (cases ps1) (auto simp: ps1 count_kind_def)
  have "event_ok codex_requirements pol [e0] e1"
    using t trace_ok_event [of codex_requirements pol "[e0]" e1 ps2] by (simp add: ps1 ps2)
  then have k1: "ev_kind e1 = TURN_STARTED"
    using k0 by (cases "ev_kind e1") (auto simp: event_ok_def req count_kind_def)
  have "terminals_of ps = terminals_of ps2"
    using k0 k1 by (simp add: ps1 ps2 terminals_of_def is_terminal_def)
  with trm have "terminals_of ps2 \<noteq> []" by auto
  then have ne: "ps2 \<noteq> []" by (auto simp: terminals_of_def)
  define mid e2 where "mid = butlast ps2" and "e2 = last ps2"
  have ps: "ps = e0 # e1 # mid @ [e2]" using ne by (simp add: ps1 ps2 mid_def e2_def)
  have "terminals_of ps \<noteq> []" using trm by auto
  from trace_ok_terminal_last [OF t this] have k2: "is_terminal (ev_kind e2)"
    and nt: "terminals_of (e0 # e1 # mid) = []" using ne by (auto simp: ps)
  have mid: "ev_kind m \<in> {TOOL_STARTED, TOOL_COMPLETED, MESSAGE_COMPLETED, PASSIVE, PROVIDER_NOTICE}"
    if "m \<in> set mid" for m
  proof -
    have "count_kind INVOCATION_STARTED mid = 0" "count_kind TURN_STARTED mid = 0"
      "count_kind PROVIDER_ERROR mid = 0" "terminals_of mid = []"
      using inv turn err nt k0 k1 by (simp_all add: ps count_kind_def terminals_of_def is_terminal_def split: if_splits)
    with that show ?thesis
      by (cases "ev_kind m") (auto simp: count_kind_def terminals_of_def is_terminal_def filter_empty_conv)
  qed
  have "terminals_of ps = [ev_kind e2]" using nt k2 terminals_of_snoc [of "e0 # e1 # mid" e2] by (simp add: ps)
  with ending_ok_exit [OF e] k2 have "ev_kind e2 = (if x = Some 0 then TERMINAL_COMPLETED else TERMINAL_FAILED)"
    by (auto simp: req is_terminal_def)
  with ps k0 k1 mid show ?thesis by blast
qed

lemma codex_event_kind:
  assumes "codex_event json_loads iid raw e"
  shows "ev_kind e = INVOCATION_STARTED \<Longrightarrow> raw_event_type json_loads raw = ''thread.started''"
    and "ev_kind e = TURN_STARTED \<Longrightarrow> raw_event_type json_loads raw = ''turn.started''"
    and "ev_kind e = TERMINAL_COMPLETED \<Longrightarrow> raw_event_type json_loads raw = ''turn.completed''"
    and "ev_kind e = TERMINAL_FAILED \<Longrightarrow> raw_event_type json_loads raw = ''turn.failed''"
    and "ev_kind e \<noteq> PROVIDER_NOTICE"
    and "ev_kind e \<in> {TOOL_STARTED, TOOL_COMPLETED, MESSAGE_COMPLETED, PASSIVE} \<Longrightarrow>
      item_event_type (raw_event_type json_loads raw)"
proof -
  let ?t = "raw_event_type json_loads raw"
  have i: "item_event_type ?t \<longrightarrow>
      ev_kind e \<in> {TOOL_STARTED, TOOL_COMPLETED, MESSAGE_COMPLETED, PASSIVE, PROVIDER_ERROR}"
    using assms unfolding codex_event_def item_event_def Let_def
    by (auto split: if_splits elim!: codex_tool_item_one)
  have o: "\<not> item_event_type ?t \<longrightarrow> (?t, ev_kind e) \<in> {(''thread.started'', INVOCATION_STARTED),
      (''turn.started'', TURN_STARTED), (''turn.completed'', TERMINAL_COMPLETED),
      (''turn.failed'', TERMINAL_FAILED), (''error'', PROVIDER_ERROR)}"
    using assms unfolding codex_event_def Let_def by (intro impI) (simp only: if_False simp_thms)
  show "ev_kind e = INVOCATION_STARTED \<Longrightarrow> ?t = ''thread.started''"
    and "ev_kind e = TURN_STARTED \<Longrightarrow> ?t = ''turn.started''"
    and "ev_kind e = TERMINAL_COMPLETED \<Longrightarrow> ?t = ''turn.completed''"
    and "ev_kind e = TERMINAL_FAILED \<Longrightarrow> ?t = ''turn.failed''" and "ev_kind e \<noteq> PROVIDER_NOTICE"
    and "ev_kind e \<in> {TOOL_STARTED, TOOL_COMPLETED, MESSAGE_COMPLETED, PASSIVE} \<Longrightarrow> item_event_type ?t"
    using i o by (cases "item_event_type ?t"; auto)+
qed

lemma codex_clean_events:
  assumes "\<forall>raw \<in> set raws. \<exists>es. codex_normalize json_loads iid raw = Inr (es, [])"
  shows "list_all2 (codex_event json_loads iid) raws (events_of (codex_normalize json_loads iid) raws)
    \<and> protocol_events (events_of (codex_normalize json_loads iid) raws)
      = events_of (codex_normalize json_loads iid) raws"
  using assms
proof (induction raws)
  case (Cons raw raws)
  then obtain es where es: "codex_normalize json_loads iid raw = Inr (es, [])" by auto
  with codex_normalize_cases [OF es] obtain e where e: "es = [e]" "codex_event json_loads iid raw e" by auto
  from codex_event_kind(5) [OF e(2)] Cons e show ?case
    by (simp add: events_of_Cons [where norm_ev = "codex_normalize json_loads iid", OF es] protocol_events_def)
qed (simp add: events_of_def protocol_events_def)

text \<open>The identity a tool item names, and what the evaluation policy leaves of it.\<close>

lemma codex_provider_identity:
  assumes "it \<in> {''command_execution'', ''file_change'', ''todo_list'', ''web_search''}"
  shows "codex_tool_identity it item = Inr (Some \<lparr>ti_server = CODEX, ti_tool = it\<rparr>, ''provider_tool:'' @ it)"
proof -
  have "ToolIdentity ''codex'' it = Inr \<lparr>ti_server = CODEX, ti_tool = it\<rparr>"
    using assms by (elim insertE emptyE; hypsubst) code_simp+
  then show ?thesis using assms by (auto simp: codex_tool_identity_def)
qed

definition codex_permitted :: "bool \<Rightarrow> (str \<Rightarrow> str + json) \<Rightarrow> (str \<times> json) list \<Rightarrow> bool" where
  "codex_permitted nav json_loads item \<longleftrightarrow>
     (\<exists>tool cap. codex_tool_identity ''mcp_tool_call'' item = Inr (Some tool, cap)
       \<and> (tool \<in> set (manifest_tool_identities nav)
          \<or> (ti_server tool = CODEX \<and> ti_tool tool \<in> set CODEX_HOST_METADATA_TOOLS
             \<and> valid_host_metadata_arguments json_loads (raw_arguments item) (ti_server PROOF_TOOL_IDENTITY))))"

lemma codex_metadata_identity:
  assumes "codex_tool_identity it item = Inr (Some tool, HOST_METADATA_CAPABILITY)"
  shows "ti_server tool = CODEX \<and> ti_tool tool \<in> set CODEX_HOST_METADATA_TOOLS"
proof (cases "it = ''mcp_tool_call''")
  case True
  with assms show ?thesis
    by (auto simp: codex_tool_identity_def Let_def HOST_METADATA_CAPABILITY_def
        split: json.splits list.splits sum.splits if_splits)
next
  case False
  with assms show ?thesis
    by (cases "ToolIdentity ''codex'' it") (auto simp: codex_tool_identity_def HOST_METADATA_CAPABILITY_def)
qed

lemma codex_start_permitted:
  assumes e: "codex_event json_loads iid raw e" and k: "ev_kind e = TOOL_STARTED"
    and p: "tool_permitted (proof_eval_policy nav True) e"
  shows "codex_item_type json_loads raw = ''mcp_tool_call'' \<and> codex_permitted nav json_loads (codex_item json_loads raw)"
proof -
  let ?t = "raw_event_type json_loads raw" and ?it = "codex_item_type json_loads raw"
    and ?item = "codex_item json_loads raw"
  from codex_event_kind(6) [OF e] k have t: "item_event_type ?t" by simp
  with e k have "List.member CODEX_TOOL_ITEMS ?it"
    and run: "codex_tool_item json_loads iid ?t ?it ?item = Inr ([e], [])"
    by (auto simp: codex_event_def item_event_def codex_item_type_def Let_def split: if_splits)
  from run obtain tool cap where id: "codex_tool_identity ?it ?item = Inr (tool, cap)"
    "ev_tool e = tool" "ev_capability e = cap"
    and st: "ev_kind e = (if ?t = ''item.started'' then TOOL_STARTED else TOOL_COMPLETED)"
    and args: "?t = ''item.started'' \<and> cap = HOST_METADATA_CAPABILITY \<longrightarrow>
       ev_host_metadata_arguments_valid e = Some (valid_host_metadata_arguments json_loads (raw_arguments ?item)
         (ti_server PROOF_TOOL_IDENTITY))"
    by (auto elim: codex_tool_item_one)
  from p id obtain tl where tl: "tool = Some tl"
    "cap = HOST_METADATA_CAPABILITY \<and> ev_host_metadata_arguments_valid e = Some True
     \<or> cap \<noteq> HOST_METADATA_CAPABILITY \<and> tl \<in> set (manifest_tool_identities nav)"
    by (auto simp: tool_permitted_def proof_eval_policy_def split: option.splits if_splits)
  have it: "?it = ''mcp_tool_call''"
  proof (rule ccontr)
    assume "?it \<noteq> ''mcp_tool_call''"
    with \<open>List.member CODEX_TOOL_ITEMS ?it\<close>
    have "?it \<in> {''command_execution'', ''file_change'', ''todo_list'', ''web_search''}"
      by (auto simp: CODEX_TOOL_ITEMS_def)
    from codex_provider_identity [OF this, of ?item] id tl manifest_server [of tl nav] show False
      by (auto simp: HOST_METADATA_CAPABILITY_def CODEX_def)
  qed
  have "?t = ''item.started''" using st k by (auto split: if_splits)
  with tl args codex_metadata_identity [of ?it ?item tl] id it show ?thesis
    unfolding codex_permitted_def by auto
qed

lemma codex_tool_event:
  assumes "codex_event json_loads iid raw e"
    and "ev_kind e \<in> {TOOL_STARTED, TOOL_COMPLETED} \<or>
      item_event_type (raw_event_type json_loads raw) \<and> codex_item_type json_loads raw = ''mcp_tool_call''"
  obtains tool cap where "item_event_type (raw_event_type json_loads raw)"
    "List.member CODEX_TOOL_ITEMS (codex_item_type json_loads raw)"
    "codex_tool_identity (codex_item_type json_loads raw) (codex_item json_loads raw) = Inr (tool, cap)"
    "ev_tool e = tool" "ev_capability e = cap"
    "ev_item_id e = str_field (jget (codex_item json_loads raw) ''id'')"
    "ev_kind e = (if raw_event_type json_loads raw = ''item.started'' then TOOL_STARTED else TOOL_COMPLETED)"
proof -
  from assms codex_event_kind(6) [OF assms(1)] have t: "item_event_type (raw_event_type json_loads raw)" by auto
  with assms have "List.member CODEX_TOOL_ITEMS (codex_item_type json_loads raw)"
    and "codex_tool_item json_loads iid (raw_event_type json_loads raw) (codex_item_type json_loads raw)
       (codex_item json_loads raw) = Inr ([e], [])"
    by (auto simp: codex_event_def item_event_def codex_item_type_def Let_def split: if_splits)
  with t that show thesis by (auto elim!: codex_tool_item_one)
qed

lemma codex_mcp_capability:
  assumes "codex_tool_identity ''mcp_tool_call'' item = Inr (tool, cap)"
  shows "cap \<in> {[], ''mcp_tool'', HOST_METADATA_CAPABILITY}"
  using assms by (auto simp: codex_tool_identity_def Let_def split: json.splits list.splits sum.splits if_splits)

lemma codex_completion_mcp:
  assumes s: "codex_event json_loads iid sraw s" "ev_kind s = TOOL_STARTED"
      "codex_item_type json_loads sraw = ''mcp_tool_call''"
    and e: "codex_event json_loads iid raw e" "ev_kind e = TOOL_COMPLETED"
    and agree: "completion_agrees pol s e"
  shows "codex_item_type json_loads raw = ''mcp_tool_call''"
proof (rule ccontr)
  let ?it = "codex_item_type json_loads raw"
  assume n: "?it \<noteq> ''mcp_tool_call''"
  from e obtain tool cap where m: "List.member CODEX_TOOL_ITEMS ?it"
    and id: "codex_tool_identity ?it (codex_item json_loads raw) = Inr (tool, cap)" "ev_capability e = cap"
    by (auto elim: codex_tool_event)
  from n m have "?it \<in> {''command_execution'', ''file_change'', ''todo_list'', ''web_search''}"
    by (auto simp: CODEX_TOOL_ITEMS_def)
  from codex_provider_identity [OF this, of "codex_item json_loads raw"] id
  have ce: "ev_capability e = ''provider_tool:'' @ ?it" by simp
  from s obtain st sc where "codex_tool_identity ''mcp_tool_call'' (codex_item json_loads sraw) = Inr (st, sc)"
    "ev_capability s = sc" by (auto elim: codex_tool_event)
  from codex_mcp_capability [OF this(1)] this(2) agree ce show False
    by (auto simp: completion_agrees_def HOST_METADATA_CAPABILITY_def)
qed

definition codex_call_ids :: "(str \<Rightarrow> str + json) \<Rightarrow> str \<Rightarrow> raw_record list \<Rightarrow> str list" where
  "codex_call_ids json_loads t raws = map (\<lambda>r. str_field (jget (codex_item json_loads r) ''id''))
     (filter (\<lambda>r. raw_event_type json_loads r = t \<and> codex_item_type json_loads r = ''mcp_tool_call'') raws)"

lemma codex_call_event:
  assumes "codex_event json_loads iid raw e"
    and "ev_kind e \<in> {TOOL_STARTED, TOOL_COMPLETED} \<longrightarrow> codex_item_type json_loads raw = ''mcp_tool_call''"
  shows "ev_kind e = TOOL_STARTED \<longleftrightarrow> raw_event_type json_loads raw = ''item.started''
      \<and> codex_item_type json_loads raw = ''mcp_tool_call''"
    and "ev_kind e = TOOL_COMPLETED \<longleftrightarrow> raw_event_type json_loads raw = ''item.completed''
      \<and> codex_item_type json_loads raw = ''mcp_tool_call''"
    and "ev_kind e \<in> {TOOL_STARTED, TOOL_COMPLETED} \<longrightarrow>
      ev_item_id e = str_field (jget (codex_item json_loads raw) ''id'')"
proof -
  let ?t = "raw_event_type json_loads raw" and ?it = "codex_item_type json_loads raw"
  have "(ev_kind e = TOOL_STARTED \<longleftrightarrow> ?t = ''item.started'' \<and> ?it = ''mcp_tool_call'')
    \<and> (ev_kind e = TOOL_COMPLETED \<longleftrightarrow> ?t = ''item.completed'' \<and> ?it = ''mcp_tool_call'')
    \<and> (ev_kind e \<in> {TOOL_STARTED, TOOL_COMPLETED} \<longrightarrow>
        ev_item_id e = str_field (jget (codex_item json_loads raw) ''id''))"
  proof (cases "ev_kind e \<in> {TOOL_STARTED, TOOL_COMPLETED} \<or> item_event_type ?t \<and> ?it = ''mcp_tool_call''")
    case True
    then obtain "item_event_type ?t" "ev_item_id e = str_field (jget (codex_item json_loads raw) ''id'')"
      "ev_kind e = (if ?t = ''item.started'' then TOOL_STARTED else TOOL_COMPLETED)"
      using codex_tool_event [OF assms(1)] by metis
    with assms(2) show ?thesis by (auto simp: item_event_type_def split: if_splits)
  next
    case False
    then show ?thesis by (auto simp: item_event_type_def)
  qed
  then show "ev_kind e = TOOL_STARTED \<longleftrightarrow> ?t = ''item.started'' \<and> ?it = ''mcp_tool_call''"
    and "ev_kind e = TOOL_COMPLETED \<longleftrightarrow> ?t = ''item.completed'' \<and> ?it = ''mcp_tool_call''"
    and "ev_kind e \<in> {TOOL_STARTED, TOOL_COMPLETED} \<longrightarrow>
      ev_item_id e = str_field (jget (codex_item json_loads raw) ''id'')" by blast+
qed

lemma codex_call_ids_trace:
  assumes "list_all2 (codex_event json_loads iid) raws evs"
    and "\<forall>n < length evs. ev_kind (evs ! n) \<in> {TOOL_STARTED, TOOL_COMPLETED} \<longrightarrow>
      codex_item_type json_loads (raws ! n) = ''mcp_tool_call''"
  shows "started_ids evs = codex_call_ids json_loads ''item.started'' raws
    \<and> completed_ids evs = codex_call_ids json_loads ''item.completed'' raws"
  using assms
proof (induction rule: list_all2_induct)
  case (Cons raw raws e evs)
  have "ev_kind e \<in> {TOOL_STARTED, TOOL_COMPLETED} \<longrightarrow> codex_item_type json_loads raw = ''mcp_tool_call''"
    using Cons.prems by (auto dest: spec [of _ 0])
  note c = codex_call_event [OF Cons.hyps(1) this]
  have "\<forall>n < length evs. ev_kind (evs ! n) \<in> {TOOL_STARTED, TOOL_COMPLETED} \<longrightarrow>
      codex_item_type json_loads (raws ! n) = ''mcp_tool_call''"
    using Cons.prems by (auto dest: spec [of _ "Suc _"])
  from Cons.IH [OF this] c show ?case
    by (auto simp: started_ids_def completed_ids_def codex_call_ids_def)
qed (simp add: started_ids_def completed_ids_def codex_call_ids_def)

lemma start_of_in: "start_of evs i = Some s \<Longrightarrow> s \<in> set evs \<and> ev_kind s = TOOL_STARTED"
  by (auto simp: start_of_def find_Some_iff)

lemma codex_tool_items_mcp:
  assumes all: "list_all2 (codex_event json_loads iid) raws evs"
    and trace: "trace_ok req (proof_eval_policy nav True) evs"
    and n: "n < length evs" "ev_kind (evs ! n) \<in> {TOOL_STARTED, TOOL_COMPLETED}"
  shows "codex_item_type json_loads (raws ! n) = ''mcp_tool_call''"
proof -
  have ev: "codex_event json_loads iid (raws ! k) (evs ! k)" if "k < length evs" for k
    using all that by (simp add: list_all2_conv_all_nth)
  have start: "codex_item_type json_loads (raws ! k) = ''mcp_tool_call''"
    if k: "k < length evs" "ev_kind (evs ! k) = TOOL_STARTED" for k
  proof -
    have "tool_permitted (proof_eval_policy nav True) (evs ! k)" using trace_ok_tools [OF trace] k by auto
    from codex_start_permitted [OF ev [OF k(1)] k(2) this] show ?thesis by blast
  qed
  show ?thesis
  proof (cases "ev_kind (evs ! n) = TOOL_STARTED")
    case False
    with n have c: "ev_kind (evs ! n) = TOOL_COMPLETED" by simp
    have "event_ok req (proof_eval_policy nav True) (take n evs) (evs ! n)"
      using trace n(1) by (simp add: trace_ok_def)
    with c obtain s where s: "start_of (take n evs) (ev_item_id (evs ! n)) = Some s"
      "completion_agrees (proof_eval_policy nav True) s (evs ! n)" by (auto simp: event_ok_def)
    have "s \<in> set evs" "ev_kind s = TOOL_STARTED" using start_of_in [OF s(1)] by (auto dest: in_set_takeD)
    then obtain k where "k < length evs" "evs ! k = s" "ev_kind s = TOOL_STARTED" by (auto simp: in_set_conv_nth)
    with codex_completion_mcp [OF ev _ start ev [OF n(1)] c] s(2) show ?thesis by blast
  qed (use start n in blast)
qed

lemma audit_codex_Inr:
  assumes "audit_codex_invocation json_loads nav iid x None raws = Inr a"
  obtains g' where "audit_normalized_invocation (stateless (codex_normalize json_loads iid)) () raws
    (new_guard iid CODEX (proof_eval_policy nav True) codex_requirements) x False = Inr (g', a)"
proof -
  from assms have ne: "iid \<noteq> []" by (auto simp: audit_codex_invocation_def CodexEventNormalizer_def)
  have "CODEX \<noteq> []" by (simp add: CODEX_def)
  with assms ne have "map_sum id snd (audit_normalized_invocation (stateless (codex_normalize json_loads iid)) () raws
    (new_guard iid CODEX (proof_eval_policy nav True) codex_requirements) x False) = Inr a"
    by (simp add: audit_codex_invocation_def CodexEventNormalizer_def guard_init_def)
  with that show thesis
    by (cases "audit_normalized_invocation (stateless (codex_normalize json_loads iid)) () raws
      (new_guard iid CODEX (proof_eval_policy nav True) codex_requirements) x False") auto
qed

lemma codex_item_kinds:
  assumes "codex_event json_loads iid raw e"
    and "ev_kind e \<in> {TOOL_STARTED, TOOL_COMPLETED, MESSAGE_COMPLETED, PASSIVE, PROVIDER_NOTICE}"
    and "ev_kind e \<in> {TOOL_STARTED, TOOL_COMPLETED} \<longrightarrow> codex_item_type json_loads raw = ''mcp_tool_call''"
  shows "item_event_type (raw_event_type json_loads raw)
    \<and> codex_item_type json_loads raw \<in> {''agent_message'', ''reasoning'', ''mcp_tool_call''}"
proof -
  have t: "item_event_type (raw_event_type json_loads raw)"
    using codex_event_kind(5,6) [OF assms(1)] assms(2) by auto
  then have ie: "item_event json_loads iid (raw_event_type json_loads raw) (codex_item json_loads raw) e"
    using assms(1) unfolding codex_event_def Let_def by simp
  show ?thesis
  proof (cases "codex_item_type json_loads raw \<in> {''agent_message'', ''reasoning''}")
    case False
    have "codex_item_type json_loads raw \<noteq> ''error''"
      using ie assms(2) unfolding item_event_def codex_item_type_def Let_def by auto
    with False ie have "codex_tool_item json_loads iid (raw_event_type json_loads raw)
        (codex_item_type json_loads raw) (codex_item json_loads raw) = Inr ([e], [])"
      unfolding item_event_def codex_item_type_def Let_def by auto
    then have "ev_kind e \<in> {TOOL_STARTED, TOOL_COMPLETED}" by (rule codex_tool_item_one) auto
    with assms(3) t show ?thesis by blast
  qed (use t in blast)
qed

section \<open>Properties\<close>

text \<open>C6. What a valid audit says of the raw Codex stream. If the audit of one invocation (required turn
  start, evaluation policy) is valid, then the records are a thread start, a turn start, item
  records only, and one last turn record that is \<open>turn.completed\<close> exactly when the process exited with 0;
  every item is a message, a reasoning step or an MCP call (no command, file change, web search or
  plan); every MCP call that starts names a tool of the proof contract, or the host's resource listing with
  arguments confined to the proof server; and the calls that complete are exactly those that started,
  each identity once.\<close>
theorem codex_valid_run:
  assumes "audit_codex_invocation json_loads nav iid process_exit None raws = Inr a"
    and "audit_valid a"
  shows "(\<exists>r0 r1 mid r2. raws = r0 # r1 # mid @ [r2]
      \<and> raw_event_type json_loads r0 = ''thread.started'' \<and> raw_event_type json_loads r1 = ''turn.started''
      \<and> (\<forall>r \<in> set mid. item_event_type (raw_event_type json_loads r)
          \<and> codex_item_type json_loads r \<in> {''agent_message'', ''reasoning'', ''mcp_tool_call''})
      \<and> raw_event_type json_loads r2 = (if process_exit = Some 0 then ''turn.completed'' else ''turn.failed''))
    \<and> (\<forall>r \<in> set raws. raw_event_type json_loads r = ''item.started''
        \<and> codex_item_type json_loads r = ''mcp_tool_call'' \<longrightarrow>
        codex_permitted nav json_loads (codex_item json_loads r))
    \<and> distinct (codex_call_ids json_loads ''item.started'' raws)
    \<and> distinct (codex_call_ids json_loads ''item.completed'' raws)
    \<and> set (codex_call_ids json_loads ''item.completed'' raws)
      = set (codex_call_ids json_loads ''item.started'' raws)"
proof -
  let ?evs = "events_of (codex_normalize json_loads iid) raws"
  from audit_codex_Inr [OF assms(1)] obtain g' where
    run: "audit_normalized_invocation (stateless (codex_normalize json_loads iid)) () raws
    (new_guard iid CODEX (proof_eval_policy nav True) codex_requirements) process_exit False = Inr (g', a)" .
  note va = codex.valid_audit [OF run assms(2)]
  from codex_clean_events [OF va(1)] have all: "list_all2 (codex_event json_loads iid) raws ?evs"
    and t: "trace_ok codex_requirements (proof_eval_policy nav True) ?evs"
    and e: "ending_ok codex_requirements ?evs process_exit False" using va(2,3) by simp_all
  note mcp = codex_tool_items_mcp [OF all t]
  from turn_run_shape [OF t e] obtain e0 e1 em e2 where evs: "?evs = e0 # e1 # em @ [e2]"
    and k: "ev_kind e0 = INVOCATION_STARTED" "ev_kind e1 = TURN_STARTED"
      "\<forall>m \<in> set em. ev_kind m \<in> {TOOL_STARTED, TOOL_COMPLETED, MESSAGE_COMPLETED, PASSIVE, PROVIDER_NOTICE}"
      "ev_kind e2 = (if process_exit = Some 0 then TERMINAL_COMPLETED else TERMINAL_FAILED)" by blast
  from all obtain r0 r1 mid r2 where raws: "raws = r0 # r1 # mid @ [r2]"
    and r: "codex_event json_loads iid r0 e0" "codex_event json_loads iid r1 e1"
      "list_all2 (codex_event json_loads iid) mid em" "codex_event json_loads iid r2 e2"
    unfolding evs by (auto simp: list_all2_Cons2 list_all2_append2)
  have mid: "item_event_type (raw_event_type json_loads x)
          \<and> codex_item_type json_loads x \<in> {''agent_message'', ''reasoning'', ''mcp_tool_call''}"
    if "x \<in> set mid" for x
  proof -
    from that obtain j where j: "j < length mid" "mid ! j = x" by (auto simp: in_set_conv_nth)
    then have je: "j < length em" "codex_event json_loads iid x (em ! j)" using r(3) by (auto simp: list_all2_conv_all_nth)
    have "raws ! (j + 2) = x" "?evs ! (j + 2) = em ! j" "j + 2 < length ?evs"
      unfolding evs using j je by (simp_all add: raws nth_append)
    then have "ev_kind (em ! j) \<in> {TOOL_STARTED, TOOL_COMPLETED} \<longrightarrow> codex_item_type json_loads x = ''mcp_tool_call''"
      using mcp [of "j + 2"] by simp
    with codex_item_kinds [OF je(2)] k(3) je(1) show ?thesis by auto
  qed
  have permitted: "codex_permitted nav json_loads (codex_item json_loads x)"
    if x: "x \<in> set raws" "raw_event_type json_loads x = ''item.started''" "codex_item_type json_loads x = ''mcp_tool_call''" for x
  proof -
    from x(1) obtain j where j: "j < length raws" "raws ! j = x" by (auto simp: in_set_conv_nth)
    then have je: "j < length ?evs" "codex_event json_loads iid x (?evs ! j)" using all by (auto simp: list_all2_conv_all_nth)
    have kj: "ev_kind (?evs ! j) = TOOL_STARTED" using codex_call_event(1) [OF je(2)] x by blast
    with trace_ok_tools [OF t] je(1) have "tool_permitted (proof_eval_policy nav True) (?evs ! j)" by auto
    from codex_start_permitted [OF je(2) kj this] show ?thesis by blast
  qed
  have ids: "started_ids ?evs = codex_call_ids json_loads ''item.started'' raws"
    "completed_ids ?evs = codex_call_ids json_loads ''item.completed'' raws"
    using codex_call_ids_trace [OF all] mcp by blast+
  have shape: "\<exists>r0 r1 mid r2. raws = r0 # r1 # mid @ [r2]
      \<and> raw_event_type json_loads r0 = ''thread.started'' \<and> raw_event_type json_loads r1 = ''turn.started''
      \<and> (\<forall>r \<in> set mid. item_event_type (raw_event_type json_loads r)
          \<and> codex_item_type json_loads r \<in> {''agent_message'', ''reasoning'', ''mcp_tool_call''})
      \<and> raw_event_type json_loads r2 = (if process_exit = Some 0 then ''turn.completed'' else ''turn.failed'')"
    using raws mid codex_event_kind [OF r(1)] codex_event_kind [OF r(2)] codex_event_kind [OF r(4)] k
    by (intro exI [of _ r0] exI [of _ r1] exI [of _ mid] exI [of _ r2]) auto
  show ?thesis
    using shape permitted trace_ok_tools [OF t] ids e by (intro conjI) (auto simp: ending_ok_def)
qed

definition sample_call :: "str \<Rightarrow> raw_record" where
  "sample_call t = RawValue (JObj [(''type'', JStr t), (''item'', JObj [(''type'', JStr ''mcp_tool_call''),
     (''id'', JStr ''c''), (''server'', JStr ''proof_node_manager''), (''tool'', JStr ''submit_proof_intent'')])])"

definition sample_codex_log :: "raw_record list" where
  "sample_codex_log =
     [RawValue (JObj [(''type'', JStr ''thread.started''), (''thread_id'', JStr ''s'')]),
      RawValue (JObj [(''type'', JStr ''turn.started'')]),
      sample_call ''item.started'', sample_call ''item.completed'',
      RawValue (JObj [(''type'', JStr ''item.completed''), (''item'', JObj [(''type'', JStr ''agent_message'')])]),
      RawValue (JObj [(''type'', JStr ''turn.completed'')])]"

lemma sample_codex_valid:
  "case audit_codex_invocation Inl False ''i1'' (Some 0) None sample_codex_log of
     Inl _ \<Rightarrow> False | Inr a \<Rightarrow> audit_valid a"
  by code_simp

theorem codex_valid_run_witness:
  "(case audit_codex_invocation Inl False ''i1'' (Some 0) None sample_codex_log of
      Inl _ \<Rightarrow> False | Inr a \<Rightarrow> audit_valid a)
   \<and> set (codex_call_ids Inl ''item.completed'' sample_codex_log)
     = set (codex_call_ids Inl ''item.started'' sample_codex_log)"
proof -
  obtain a where "audit_codex_invocation Inl False ''i1'' (Some 0) None sample_codex_log = Inr a" "audit_valid a"
    using sample_codex_valid by (auto split: sum.splits)
  from codex_valid_run [OF this] sample_codex_valid show ?thesis by blast
qed

text \<open>C39. The append log is split into invocations. Every log is split without error: the segments, put
  one after the other, are the records in their order; no segment is empty, holds two thread starts, or
  mixes declared invocation identities (the error for a crossed identity is never raised). The audit of
  the log is then one audit per segment, each bound to the identity its segment declares or to its own
  offline name, and the only error of its own is a wrong number of exit statuses.\<close>
theorem codex_log_segmented:
  "\<exists>segs. concat (map snd segs) = records \<and> list_all (segment_ok json_loads) segs
     \<and> (let exits = (case process_exits of Some xs \<Rightarrow> xs | None \<Rightarrow> []) in
        audit_codex_event_log json_loads nav requirements process_exits records =
          (if exits \<noteq> [] \<and> length exits \<noteq> length segs
           then Inl (ValueError ''Codex process-exit cardinality does not match invocations'')
           else sum_all (map (\<lambda>k. audit_codex_invocation json_loads nav (segment_id k (fst (segs ! k)))
                  (if exits \<noteq> [] then exits ! k else None) requirements (snd (segs ! k)))
                [0..<length segs])))"
proof -
  from log_segments_ok [of json_loads records] obtain segs where segs:
    "log_segments json_loads records = Inr segs" "concat (map snd segs) = records"
    "\<forall>seg \<in> set segs. segment_ok json_loads seg" by blast
  have "map (\<lambda>(index, declared_id, segment).
            audit_codex_invocation json_loads nav (segment_id index declared_id) (f index) requirements segment)
          (enumerate 0 segs)
      = map (\<lambda>k. audit_codex_invocation json_loads nav (segment_id k (fst (segs ! k))) (f k) requirements
            (snd (segs ! k))) [0..<length segs]" for f
    by (rule nth_equalityI) (simp_all add: nth_enumerate_eq split_def)
  with segs show ?thesis
    by (intro exI [of _ segs]) (simp add: audit_codex_event_log_def list_all_iff Let_def)
qed

text \<open>The identity of a segment's audit, and no two invocations without a declared identity share a name.\<close>

lemma segment_id_nonempty: "segment_id k d \<noteq> []"
  by (simp add: segment_id_def nat_digits_ne)

lemma segment_id_offline_inj: "segment_id k [] = segment_id j [] \<longleftrightarrow> k = j"
proof -
  have "nat_digits a = nat_digits b \<longleftrightarrow> a = b" for a b by (metis digits_val_nat_digits)
  then show ?thesis by (simp add: segment_id_def)
qed

section \<open>The recognizer of empty discovery results\<close>

text \<open>A decoder whose values are no heavier than their text, as every JSON text is.\<close>

definition decoder_bounded :: "(str \<Rightarrow> str + json) \<Rightarrow> bool" where
  "decoder_bounded json_loads \<longleftrightarrow> (\<forall>t v. json_loads t = Inr v \<longrightarrow> json_weight v \<le> length t)"

lemma json_weight_pos: "0 < json_weight j"
  by (cases j) simp_all

lemma all_checks_returns: "\<forall>x \<in> set xs. \<exists>b. p x = Inr b \<Longrightarrow> \<exists>b. all_checks p xs = Inr b"
  by (induction xs) auto

lemma all_checks_True: "all_checks p xs = Inr True \<longleftrightarrow> (\<forall>x \<in> set xs. p x = Inr True)"
  by (induction xs) (auto split: sum.splits)

lemma member_returns: "\<exists>b. again (snd kv) = Inr b \<Longrightarrow> \<exists>b. metadata_member_empty again kv = Inr b"
  unfolding metadata_member_empty_def Let_def by auto

lemma py_strip_length: "length (py_strip t) \<le> length t"
  using py_strip_split [of t] by (metis length_append le_add2 le_add1 order_trans add.assoc)

lemma weight_member: "j \<in> set js \<Longrightarrow> json_weight j \<le> sum_list (map json_weight js)"
  by (induction js) auto

lemma weight_value: "kv \<in> set d \<Longrightarrow> json_weight (snd kv) \<le> sum_list (map (\<lambda>kv. json_weight (snd kv)) d)"
  by (induction d) auto

lemma all_checks_cong: "(\<And>x. x \<in> set xs \<Longrightarrow> p x = q x) \<Longrightarrow> all_checks p xs = all_checks q xs"
  by (induction xs) (auto split: sum.splits)

lemma member_cong: "again (snd kv) = again' (snd kv) \<Longrightarrow>
    metadata_member_empty again kv = metadata_member_empty again' kv"
  unfolding metadata_member_empty_def Let_def by (simp only:)

text \<open>With a bounded decoder the fuel suffices, and more fuel changes nothing.\<close>

lemma empty_metadata_fuel:
  assumes "decoder_bounded json_loads"
  shows "json_weight v \<le> n \<Longrightarrow> json_weight v \<le> m \<Longrightarrow>
    (\<exists>b. empty_metadata n json_loads v = Inr b) \<and> empty_metadata n json_loads v = empty_metadata m json_loads v"
proof (induction n arbitrary: v m)
  case 0
  then show ?case using json_weight_pos [of v] by simp
next
  case (Suc n)
  from Suc.prems json_weight_pos [of v] obtain k where m: "m = Suc k" by (cases m) auto
  have rec: "(\<exists>b. empty_metadata n json_loads u = Inr b)"
      "empty_metadata n json_loads u = empty_metadata k json_loads u" if "json_weight u < json_weight v" for u
  proof -
    have "json_weight u \<le> n" "json_weight u \<le> k" using Suc.prems m that by simp_all
    from Suc.IH [OF this] show "\<exists>b. empty_metadata n json_loads u = Inr b"
      "empty_metadata n json_loads u = empty_metadata k json_loads u" by blast+
  qed
  show ?case
  proof (cases v)
    case (JStr t)
    show ?thesis
    proof (cases "json_loads (py_strip t)")
      case (Inr u)
      then have "json_weight u \<le> length (py_strip t)" using assms by (simp add: decoder_bounded_def)
      then have "json_weight u < json_weight v" using py_strip_length [of t] by (simp add: JStr)
      with rec [of u] show ?thesis by (auto simp: m JStr Inr Let_def)
    qed (auto simp: m JStr Let_def)
  next
    case (JList js)
    have r: "json_weight u < json_weight v" if "u \<in> set js" for u using weight_member [OF that] by (simp add: JList)
    have "all_checks (empty_metadata n json_loads) js = all_checks (empty_metadata k json_loads) js"
      by (rule all_checks_cong) (rule rec(2) [OF r])
    moreover have "\<exists>b. all_checks (empty_metadata n json_loads) js = Inr b"
      by (rule all_checks_returns, rule ballI, rule rec(1), rule r)
    ultimately show ?thesis by (auto simp: m JList)
  next
    case (JObj d)
    have r: "json_weight (snd kv) < json_weight v" if "kv \<in> set d" for kv using weight_value [OF that] by (simp add: JObj)
    have "all_checks (metadata_member_empty (empty_metadata n json_loads)) d
        = all_checks (metadata_member_empty (empty_metadata k json_loads)) d"
      by (rule all_checks_cong, rule member_cong) (rule rec(2) [OF r])
    moreover have "\<exists>b. all_checks (metadata_member_empty (empty_metadata n json_loads)) d = Inr b"
      by (rule all_checks_returns, rule ballI, rule member_returns, rule rec(1), rule r)
    ultimately show ?thesis by (auto simp: m JObj)
  qed (auto simp: m)
qed

text \<open>C40. The recognizer of empty discovery results always answers: with a decoder whose values are no
  heavier than their text, it returns and more depth does not change the answer. It accepts a
  result object only when no member is a resource or a link, every listing in it is empty, and every
  nested payload is itself accepted; it accepts a list only when it accepts every item.\<close>
theorem empty_metadata_exact:
  assumes "decoder_bounded json_loads"
  shows "(\<exists>b. empty_host_metadata_result json_loads v = Inr b
      \<and> (\<forall>n. empty_metadata (json_weight v + n) json_loads v = Inr b))
    \<and> (empty_host_metadata_result json_loads (JList js) = Inr True \<longleftrightarrow>
        list_all (\<lambda>j. empty_host_metadata_result json_loads j = Inr True) js)
    \<and> (empty_host_metadata_result json_loads (JObj d) = Inr True \<longleftrightarrow>
        list_all (\<lambda>kv. metadata_member_empty (empty_host_metadata_result json_loads) kv = Inr True) d)"
proof (intro conjI)
  have f: "empty_metadata n json_loads u = empty_host_metadata_result json_loads u" if "json_weight u \<le> n" for n u
    using empty_metadata_fuel [OF assms, of u n "json_weight u"] that by (simp add: empty_host_metadata_result_def)
  have "\<exists>b. empty_host_metadata_result json_loads v = Inr b"
    using empty_metadata_fuel [OF assms, of v "json_weight v"] by (auto simp: empty_host_metadata_result_def)
  then show "\<exists>b. empty_host_metadata_result json_loads v = Inr b
      \<and> (\<forall>n. empty_metadata (json_weight v + n) json_loads v = Inr b)" by (metis f le_add1)
  have "all_checks (empty_metadata (sum_list (map json_weight js)) json_loads) js
      = all_checks (empty_host_metadata_result json_loads) js"
    by (rule all_checks_cong, rule f, rule weight_member)
  then show "empty_host_metadata_result json_loads (JList js) = Inr True \<longleftrightarrow>
        list_all (\<lambda>j. empty_host_metadata_result json_loads j = Inr True) js"
    by (simp add: empty_host_metadata_result_def [of json_loads "JList js"] all_checks_True list_all_iff)
  have "all_checks (metadata_member_empty (empty_metadata (sum_list (map (\<lambda>kv. json_weight (snd kv)) d)) json_loads)) d
      = all_checks (metadata_member_empty (empty_host_metadata_result json_loads)) d"
    by (rule all_checks_cong, rule member_cong, rule f, rule weight_value)
  then show "empty_host_metadata_result json_loads (JObj d) = Inr True \<longleftrightarrow>
        list_all (\<lambda>kv. metadata_member_empty (empty_host_metadata_result json_loads) kv = Inr True) d"
    by (simp add: empty_host_metadata_result_def [of json_loads "JObj d"] all_checks_True list_all_iff)
qed

definition sample_decoder :: "str \<Rightarrow> str + json" where
  "sample_decoder t = (if t = ''{}'' then Inr (JObj []) else if t = ''[1]'' then Inr (JList [JInt 1]) else Inl ''Expecting value'')"

theorem empty_metadata_exact_witness:
  "empty_host_metadata_result sample_decoder (JObj [(''content'', JList [JObj [(''text'', JStr ''{}'')]])]) = Inr True
   \<and> empty_host_metadata_result sample_decoder (JStr ''[1]'') = Inr False
   \<and> (\<exists>b. empty_host_metadata_result sample_decoder (JStr ''[1]'') = Inr b
       \<and> (\<forall>n. empty_metadata (json_weight (JStr ''[1]'') + n) sample_decoder (JStr ''[1]'') = Inr b))"
proof -
  have "decoder_bounded sample_decoder" by (auto simp: decoder_bounded_def sample_decoder_def split: if_splits)
  from empty_metadata_exact [OF this, of "JStr ''[1]''"]
  have "\<exists>b. empty_host_metadata_result sample_decoder (JStr ''[1]'') = Inr b
       \<and> (\<forall>n. empty_metadata (json_weight (JStr ''[1]'') + n) sample_decoder (JStr ''[1]'') = Inr b)" by blast
  moreover have
    "empty_host_metadata_result sample_decoder (JObj [(''content'', JList [JObj [(''text'', JStr ''{}'')]])]) = Inr True"
    by code_simp
  moreover have "empty_host_metadata_result sample_decoder (JStr ''[1]'') = Inr False" by code_simp
  ultimately show ?thesis by blast
qed

section \<open>What the observation says\<close>

lemma note_event_frame [simp]:
  "cs_guard (note_event sha tr it src s e) = fst (observe e (cs_guard s))"
  "cs_invalid_lines (note_event sha tr it src s e) = cs_invalid_lines s"
  "cs_protocol_unknowns (note_event sha tr it src s e) = cs_protocol_unknowns s"
  "cs_normalization_errors (note_event sha tr it src s e) = cs_normalization_errors s"
  by (simp_all add: note_event_def Let_def)

lemma note_events_frame [simp]:
  "cs_guard (foldl (note_event sha tr it src) s evs) = observe_all evs (cs_guard s)"
  "cs_invalid_lines (foldl (note_event sha tr it src) s evs) = cs_invalid_lines s"
  "cs_protocol_unknowns (foldl (note_event sha tr it src) s evs) = cs_protocol_unknowns s"
  "cs_normalization_errors (foldl (note_event sha tr it src) s evs) = cs_normalization_errors s"
  by (induction evs arbitrary: s) (simp_all add: observe_all_def)

lemma note_unknowns_frame [simp]:
  "cs_invalid_lines (foldl (note_unknown i t it) s reasons) = cs_invalid_lines s"
  "g_finished (cs_guard (foldl (note_unknown i t it) s reasons)) = g_finished (cs_guard s)"
  "cs_protocol_unknowns (foldl (note_unknown i t it) s reasons) = [] \<longleftrightarrow>
     cs_protocol_unknowns s = [] \<and> reasons = []"
  by (induction reasons arbitrary: s) (auto simp: note_unknown_def)

definition line_ok :: "(str \<Rightarrow> str + json) \<Rightarrow> str \<Rightarrow> bool" where
  "line_ok json_loads line \<longleftrightarrow> (\<exists>es. codex_normalize json_loads STRUCTURAL_ID (RawText line) = Inr (es, []))"

definition event_lines :: "str list \<Rightarrow> str list" where
  "event_lines ls = filter (\<lambda>l. py_strip l \<noteq> []) ls"

text \<open>The scan after the lines \<open>ls\<close>: refused lines are on record, and while there is none the guard
  has seen exactly the events of the lines.\<close>

definition codex_scan_inv :: "(str \<Rightarrow> str + json) \<Rightarrow> str list \<Rightarrow> codex_scan \<Rightarrow> bool" where
  "codex_scan_inv json_loads ls s \<longleftrightarrow>
     (cs_invalid_lines s = [] \<and> cs_protocol_unknowns s = [] \<longleftrightarrow> list_all (line_ok json_loads) (event_lines ls))
     \<and> (list_all (line_ok json_loads) (event_lines ls) \<longrightarrow> cs_normalization_errors s = []
         \<and> cs_guard s = observe_all
             (events_of (codex_normalize json_loads STRUCTURAL_ID) (map RawText (event_lines ls)))
             (new_guard STRUCTURAL_ID CODEX structural_policy structural_requirements))
     \<and> \<not> g_finished (cs_guard s)"

lemma scan_value_cases:
  assumes "scan_value sha json_loads value s = Inr s'"
  obtains evs reasons where
    "codex_normalize json_loads STRUCTURAL_ID (RawValue (JObj value)) = Inr (evs, reasons)"
    "cs_invalid_lines s' = cs_invalid_lines s"
    "cs_protocol_unknowns s' = [] \<longleftrightarrow> cs_protocol_unknowns s = [] \<and> reasons = []"
    "g_finished (cs_guard s') = g_finished (cs_guard s)"
    "reasons = [] \<longrightarrow> cs_normalization_errors s' = cs_normalization_errors s
       \<and> cs_guard s' = observe_all evs (cs_guard s)"
proof -
  from assms obtain evs reasons where
    n: "codex_normalize json_loads STRUCTURAL_ID (RawValue (JObj value)) = Inr (evs, reasons)"
    by (cases "codex_normalize json_loads STRUCTURAL_ID (RawValue (JObj value))")
       (auto simp: scan_value_def Let_def)
  show thesis
    by (rule that [OF n]) (use assms n in \<open>auto simp: scan_value_def Let_def\<close>)
qed

lemma scan_line_inv:
  assumes inv: "codex_scan_inv json_loads ls s" and run: "scan_line sha json_loads n line s = Inr s'"
  shows "codex_scan_inv json_loads (ls @ [line]) s'"
proof (cases "py_strip line = []")
  case True
  with assms show ?thesis by (simp add: scan_line_def codex_scan_inv_def event_lines_def)
next
  case False
  have bad: ?thesis
    if "\<not> line_ok json_loads line" "cs_invalid_lines s' \<noteq> []" "\<not> g_finished (cs_guard s')"
    using that False by (simp add: codex_scan_inv_def event_lines_def)
  have refused: "\<not> line_ok json_loads line" if "parse_record ''Codex'' json_loads (RawText line) = Inl m" for m
    using that by (simp add: line_ok_def codex_normalize_def violation_def)
  have fin: "\<not> g_finished (cs_guard s)" using inv by (simp add: codex_scan_inv_def)
  show ?thesis
  proof (cases "json_loads line")
    case (Inl msg)
    have "s' = note_invalid_line sha n line msg (''invalid Codex JSON event: '' @ msg) s"
      using run False by (simp add: scan_line_def Inl)
    then show ?thesis using fin
      by (intro bad refused [of "''invalid Codex JSON event: '' @ msg"]) (simp_all add: note_invalid_line_def parse_record_def Inl)
  next
    case (Inr v)
    show ?thesis
    proof (cases "\<exists>value. v = JObj value")
      case True
      then obtain val where v: "v = JObj val" by blast
      have same: "codex_normalize json_loads STRUCTURAL_ID (RawText line)
          = codex_normalize json_loads STRUCTURAL_ID (RawValue (JObj val))"
        by (simp add: codex_normalize_def parse_record_def Inr v)
      from run False have "scan_value sha json_loads val s = Inr s'" by (simp add: scan_line_def Inr v)
      from scan_value_cases [OF this] obtain evs reasons where
        n: "codex_normalize json_loads STRUCTURAL_ID (RawValue (JObj val)) = Inr (evs, reasons)"
        and s': "cs_invalid_lines s' = cs_invalid_lines s"
          "cs_protocol_unknowns s' = [] \<longleftrightarrow> cs_protocol_unknowns s = [] \<and> reasons = []"
          "g_finished (cs_guard s') = g_finished (cs_guard s)"
          "reasons = [] \<longrightarrow> cs_normalization_errors s' = cs_normalization_errors s
            \<and> cs_guard s' = observe_all evs (cs_guard s)" by metis
      have ok: "line_ok json_loads line \<longleftrightarrow> reasons = []" by (simp add: line_ok_def same n)
      show ?thesis
        using inv s' ok False
        by (auto simp: codex_scan_inv_def event_lines_def events_of_def same n observe_all_append)
    next
      case not_obj: False
      have "s' = note_invalid_line sha n line ''JSONL event is not an object'' ''Codex JSON event is not an object'' s"
        using run False not_obj by (cases v) (simp_all add: scan_line_def Inr)
      then show ?thesis using fin not_obj
        by (intro bad refused [of "''Codex JSON event is not an object''"])
           (cases v; simp_all add: note_invalid_line_def parse_record_def Inr)+
    qed
  qed
qed

lemma scan_lines_inv:
  "codex_scan_inv json_loads seen s \<Longrightarrow> scan_lines sha json_loads n ls s = Inr s' \<Longrightarrow>
     codex_scan_inv json_loads (seen @ ls) s'"
proof (induction ls arbitrary: seen n s)
  case (Cons line ls)
  from Cons.prems(2) obtain s1 where s1: "scan_line sha json_loads n line s = Inr s1"
    "scan_lines sha json_loads (Suc n) ls s1 = Inr s'" by (auto split: sum.splits)
  from Cons.IH [OF scan_line_inv [OF Cons.prems(1) s1(1)] s1(2)] show ?case by simp
qed simp

lemma scan_start_inv: "codex_scan_inv json_loads [] codex_scan_start"
  by (simp add: codex_scan_inv_def codex_scan_start_def event_lines_def events_of_def)

text \<open>C38. The structural verdict on a Codex output. When the observation returns, the protocol is
  reported valid exactly when every line that is not blank is a record the normalizer accepts and the
  events of all lines form a run of the provider protocol with a turn start and a regular end;
  removing the normalization errors from the violations hides nothing else.\<close>
theorem codex_observation_exact:
  assumes "observe_codex_jsonl_invocation sha256 json_loads out err_text = Inr (events, audit)"
  shows "co_protocol_valid audit \<longleftrightarrow>
    (let evs = events_of (codex_normalize json_loads STRUCTURAL_ID) (map RawText (event_lines (py_splitlines out))) in
     list_all (line_ok json_loads) (event_lines (py_splitlines out))
     \<and> trace_ok structural_requirements structural_policy (protocol_events evs)
     \<and> ending_ok structural_requirements (protocol_events evs) None False)"
proof -
  let ?ls = "py_splitlines out"
  let ?evs = "events_of (codex_normalize json_loads STRUCTURAL_ID) (map RawText (event_lines ?ls))"
  let ?g0 = "new_guard STRUCTURAL_ID CODEX structural_policy structural_requirements"
  from assms obtain s where s: "scan_lines sha256 json_loads (Suc 0) ?ls codex_scan_start = Inr s"
    by (cases "scan_lines sha256 json_loads (Suc 0) ?ls codex_scan_start") (auto simp: observe_codex_jsonl_invocation_def)
  from scan_lines_inv [OF scan_start_inv s] have inv: "codex_scan_inv json_loads ?ls s" by simp
  then have "\<not> g_finished (cs_guard s)" by (simp add: codex_scan_inv_def)
  from finish_audit [OF this, of None False] obtain g l where fin: "finish None False (cs_guard s) = Inr (g, l)" by blast
  have v: "co_protocol_valid audit \<longleftrightarrow> cs_invalid_lines s = [] \<and> cs_protocol_unknowns s = []
      \<and> foldl (\<lambda>vs reason. remove1 reason vs) (au_violations l) (cs_normalization_errors s) = []"
    using assms by (auto simp: observe_codex_jsonl_invocation_def s fin Let_def)
  show ?thesis
  proof (cases "list_all (line_ok json_loads) (event_lines ?ls)")
    case False
    with inv v show ?thesis by (auto simp: codex_scan_inv_def Let_def)
  next
    case True
    with inv have g: "cs_normalization_errors s = []" "cs_guard s = observe_all ?evs ?g0"
      "cs_invalid_lines s = []" "cs_protocol_unknowns s = []" by (simp_all add: codex_scan_inv_def)
    have bound: "\<forall>e \<in> set ?evs. bound_to STRUCTURAL_ID CODEX e"
      using True codex.events_bound [of json_loads STRUCTURAL_ID]
      by (auto simp: events_of_def list_all_iff line_ok_def split: sum.splits)
    from audit_valid_trace [OF fin [unfolded g(2)]] bound True v g show ?thesis
      by (simp add: audit_valid_def Let_def)
  qed
qed

definition sample_line_decoder :: "str \<Rightarrow> str + json" where
  "sample_line_decoder t =
     (if t = ''a'' then Inr (JObj [(''type'', JStr ''thread.started''), (''thread_id'', JStr ''s'')])
      else if t = ''b'' then Inr (JObj [(''type'', JStr ''turn.started'')])
      else if t = ''c'' then Inr (JObj [(''type'', JStr ''item.completed''), (''item'', JObj [(''type'', JStr ''agent_message'')])])
      else if t = ''d'' then Inr (JObj [(''type'', JStr ''turn.completed'')])
      else Inl ''Expecting value'')"

definition sample_codex_output :: str where
  "sample_codex_output = ''a'' @ [newline] @ ''b'' @ [newline, newline] @ ''c'' @ [newline] @ ''d'' @ [newline]"

lemma sample_observation_valid:
  "case observe_codex_jsonl_invocation (\<lambda>t. t) sample_line_decoder sample_codex_output [] of
     Inl _ \<Rightarrow> False | Inr (events, audit) \<Rightarrow> co_protocol_valid audit"
  by code_simp

theorem codex_observation_exact_witness:
  "\<exists>events audit. observe_codex_jsonl_invocation (\<lambda>t. t) sample_line_decoder sample_codex_output [] = Inr (events, audit)
     \<and> co_protocol_valid audit
     \<and> list_all (line_ok sample_line_decoder) (event_lines (py_splitlines sample_codex_output))"
proof -
  obtain events audit where
    r: "observe_codex_jsonl_invocation (\<lambda>t. t) sample_line_decoder sample_codex_output [] = Inr (events, audit)"
    and v: "co_protocol_valid audit"
    using sample_observation_valid by (auto split: sum.splits prod.splits)
  from codex_observation_exact [OF r] r v show ?thesis by (auto simp: Let_def)
qed

end
