(* ===== verification/Spec2Isabelle.thy ===== *)
theory Spec2Isabelle
  imports Prelude Py_Regex Py_Dict Py_Json Proof_Text Event_Guard Lemma_Decls Job_Record Job_Registry
    Tool_Session Committed_History Progress_Capsule Resume_Contract Worker_Result Ctx_Respawn Tree_Policy
    Turn_Outcome Run_Result Session_Events Session_State Session_Projection Event_Normalizers Codex_Events
begin

text \<open>
  Verification of the Shannon prover's control plane.

  \<^bold>\<open>The program.\<close> Shannon lets language-model agents prove EasyCrypt lemmas. An outer agent edits a
  source file and delegates lemmas as jobs (\<open>workflow/interleaved\<close>); each job runs an inner agent whose
  tool calls go through a serving session (\<open>workflow/proof_tool\<close>) to a managed EasyCrypt session
  (\<open>workflow/proof_management\<close>, \<open>core/easycrypt\<close>); the provider's event stream is audited
  (\<open>workflow/provider\<close>), several proof nodes may be searched as a tree (\<open>workflow/tree\<close>), and a proof
  counts only after gates over the recorded artifacts (\<open>workflow/proof_acceptance.py\<close>). What is
  modelled is the logic that decides: which text is a proof, which job may run, what a worker may
  report, what is merged into the source, when a session stops, and what counts as verified.

  \<^bold>\<open>Theories and sources.\<close>
    \<^item> \<open>Prelude\<close>, \<open>Py_Regex\<close>, \<open>Py_Dict\<close>, \<open>Py_Json\<close>: the Python the source uses. Strings and their
      methods, the regular expressions as a backtracking matcher with Python's priorities, dicts as
      association lists in insertion order (the locale \<open>dict_interface\<close> and its interpretation), JSON
      values with truth, equality, \<open>repr\<close> and \<open>json.dumps\<close>.
    \<^item> \<open>Proof_Text\<close>: \<open>core/easycrypt/proof_text.py\<close>, \<open>proof_syntax.py\<close>. The lexer that masks comments
      and strings, sentence splitting and the scan for constructs EasyCrypt does not check. Masking
      keeps every offset and line, splitting loses no character, a live keyword is always reported.
    \<^item> \<open>Lemma_Decls\<close>: \<open>core/easycrypt/lemma_decls.py\<close>, \<open>workflow/interleaved/proof_source.py\<close>.
      Declarations of a lemma, the one to prove, the span of its proof. Merging changes nothing before
      the proof.
    \<^item> \<open>Committed_History\<close>: \<open>core/easycrypt/committed_history.py\<close>, \<open>proof_lifecycle.py\<close>. The committed
      tactics, their grouping into transactions and the closing \<open>qed\<close>.
    \<^item> \<open>Event_Guard\<close>: \<open>workflow/provider/provider_event_lifecycle.py\<close>. The guard is a state machine over
      provider events; its audit is valid exactly for the traces of an abstract protocol.
    \<^item> \<open>Event_Normalizers\<close>, \<open>Codex_Events\<close>: \<open>workflow/provider/claude_event_normalizer.py\<close>,
      \<open>codex_event_normalizer.py\<close>. The translation of raw provider records into events. What the guard
      relies on is the locale \<open>event_normalizer\<close>, interpreted by both normalizers; with the guard's
      theorem a valid audit is a statement about the raw stream: which tools were called, that calls
      and results pair, how the stream begins and ends. The append log of several invocations is split
      without loss, and the structural observation of an output gives the verdict of the protocol.
    \<^item> \<open>Tool_Session\<close>: \<open>workflow/proof_tool/proof_tool_session.py\<close>. Idempotent submission, the turn
      budget, and a stop that is final.
    \<^item> \<open>Job_Record\<close>, \<open>Job_Registry\<close>: \<open>workflow/interleaved/job_record.py\<close>, \<open>jobs.py\<close>. The job state
      machine, the locked registry operations (dispatch, reconcile, worker start and end, cancel,
      collect) and their invariants: every stored change is a transition, the parallelism is bounded,
      and collecting writes only text that was checked against the source it replaces.
    \<^item> \<open>Progress_Capsule\<close>, \<open>Resume_Contract\<close>, \<open>Worker_Result\<close>: the progress a worker reports, the
      checkpoint a later job resumes from, and the record built from a finished worker
      (\<open>jobs.py\<close>, \<open>resume_contract.py\<close>, \<open>agent_config.py\<close>). A projected checkpoint satisfies the
      scheduler's validation; a worker that ends leaves its job terminal; a verified record carries a
      proof without unchecked constructs.
    \<^item> \<open>Ctx_Respawn\<close>, \<open>Tree_Policy\<close>, \<open>Turn_Outcome\<close>: \<open>workflow/provider/ctx_respawn.py\<close>,
      \<open>workflow/tree/policy.py\<close>, \<open>workflow/proof_management/managed_turn_outcome.py\<close>. The context
      watermark, the branching limits and the typed outcome of a turn.
    \<^item> \<open>Run_Result\<close>: \<open>workflow/schemas/prover_result.py\<close>, \<open>workflow/tree/result.py\<close>,
      \<open>workflow/proof_acceptance.py\<close>. The stored verdict, the completion candidate and the gates.
    \<^item> \<open>Session_Events\<close>, \<open>Session_State\<close>, \<open>Session_Projection\<close>: \<open>core/easycrypt/session/session_events.py\<close>,
      \<open>session_state.py\<close>, \<open>session_projection.py\<close>, \<open>core/easycrypt/ec_prompt.py\<close>. The schemas and the
      protocol of the event log, the reader of EasyCrypt's output, and the canonical projection joined
      from log, output and history. The stream validator accepts exactly a protocol given by four
      acceptors; the adoption lineage is a chain; the projection's close authority always names the last
      transition; and the acceptance gate, run on this projection, is sound end to end.

  \<^bold>\<open>Conventions.\<close> A dataclass is a \<open>record\<close> and an enum a \<open>datatype\<close>; an exception is \<open>Inl\<close> of an error
  value, checks that are raised one after the other are lists of optional errors in source order.
  Integers are \<open>int\<close> as in Python. Strings are lists of 8-bit characters: the model covers Latin-1
  text. A float is its \<open>repr\<close> in JSON values (finite floats) and a rational number where the code
  compares times or scores. SHA-256, the clock, the file system, the EasyCrypt checker and the worker
  processes are arguments or fields of a record (\<open>world\<close>, \<open>serving\<close>, \<open>file_world\<close>); no theorem assumes
  that hashes do not collide. An operation of the registry is a state transformer that may raise; the
  lock makes each one step of the interleaving, and other processes may edit the target file between
  the steps (\<open>w_outer_edit\<close>).

  \<^bold>\<open>Bounds.\<close> Definitions but one are total without fuel: the matcher recurses on the expression and, for
  repetition, only on iterations that consume a character, as Python's does. The walk over adoption
  events has the index of the event as its measure. The one fuel is that of \<open>empty_metadata\<close>, which
  decodes texts inside the value it looks at: its fuel is the weight of the value, enough for every
  decoder whose values weigh no more than their text (\<open>empty_metadata_exact\<close>).

  \<^bold>\<open>Not modelled.\<close> The operating-system side (process supervision, sockets, provider command lines,
  locks as files), prompt text and reports, the EasyCrypt daemon and its OCaml companion, and the
  proof-state compiler with its native contracts. The gates of \<open>Run_Result\<close> take the projection as an
  argument; \<open>Session_Projection\<close> instantiates it. Decoding one JSON line of a log is an argument.
  Of \<open>jobs.py\<close> the command line, process control and the file layout are left out.
\<close>

end
